(* ===== verification/Asp_Prelude.thy ===== *)
theory Asp_Prelude
  imports Main "HOL-Library.Word"
begin

text \<open>
  Shared vocabulary of the development: C strings and the string.h comparisons, the
  UTF-16 strings of the .NET side and the \<open>System::String\<close> members the managed code
  calls, machine integers (COM's \<open>HRESULT\<close>, a decimal printer), the value of a managed
  call (\<open>exn + 'a\<close>), and the error-log records both halves of the module write.
\<close>

section \<open>Lemma collections\<close>

text \<open>
  \<open>asp_defs\<close> collects the definitions a component proof usually unfolds, \<open>asp_bounds\<close>
  the length and range facts its arithmetic needs.
\<close>

named_theorems asp_defs
named_theorems asp_bounds

section \<open>C strings\<close>

text \<open>
  A C string is the list of its bytes before the terminating NUL; a \<open>char *\<close> that may be
  NULL is an \<open>option\<close>. A buffer of bytes is read as a C string by \<open>c_str\<close>.
\<close>

type_synonym c_ptr = "string option"

abbreviation NUL :: char where "NUL \<equiv> CHR 0x00"

definition c_str :: "string \<Rightarrow> string" where
  "c_str buf = takeWhile (\<lambda>c. c \<noteq> NUL) buf"

lemma c_str_app_NUL [simp]: "c_str (s @ NUL # r) = c_str s"
  by (induction s) (auto simp: c_str_def)

lemma c_str_id [simp]: "NUL \<notin> set s \<Longrightarrow> c_str s = s"
  by (auto simp: c_str_def takeWhile_eq_all_conv)

lemma c_str_append: "NUL \<notin> set a \<Longrightarrow> c_str (a @ t) = a @ c_str t"
  by (induction a) (auto simp: c_str_def)

lemma c_str_no_NUL [simp]: "NUL \<notin> set (c_str s)"
  by (induction s) (auto simp: c_str_def)

text \<open>The case folding of the C locale: only the letters A to Z move.\<close>

definition c_tolower :: "char \<Rightarrow> char" where
  "c_tolower c =
     (if 65 \<le> (of_char c :: nat) \<and> (of_char c :: nat) \<le> 90 then char_of (of_char c + 32 :: nat) else c)"

lemma c_tolower_code:
  "(of_char (c_tolower c) :: nat) =
     (if 65 \<le> (of_char c :: nat) \<and> (of_char c :: nat) \<le> 90 then of_char c + 32 else of_char c)"
  by (simp add: c_tolower_def)

lemma c_tolower_ascii: "(of_char c :: nat) < 128 \<Longrightarrow> (of_char (c_tolower c) :: nat) < 128"
  by (simp add: c_tolower_code)

lemma c_tolower_idem: "c_tolower (c_tolower c) = c_tolower c"
  unfolding c_tolower_def [of "c_tolower c"] by (simp add: c_tolower_code) (auto simp: c_tolower_def)

text \<open>
  \<open>strcasecmp\<close> and \<open>strncasecmp\<close> are used by the source for equality only
  (\<open>!strcasecmp(..)\<close>, \<open>strncasecmp(..) == 0\<close>); both walk the two strings in step, the
  second for at most \<open>n\<close> bytes.
\<close>

fun strcasecmp_eq :: "string \<Rightarrow> string \<Rightarrow> bool" where
  "strcasecmp_eq [] [] = True"
| "strcasecmp_eq (a # as) (b # bs) = (c_tolower a = c_tolower b \<and> strcasecmp_eq as bs)"
| "strcasecmp_eq _ _ = False"

fun strncasecmp_eq :: "string \<Rightarrow> string \<Rightarrow> nat \<Rightarrow> bool" where
  "strncasecmp_eq _ _ 0 = True"
| "strncasecmp_eq [] [] (Suc n) = True"
| "strncasecmp_eq (a # as) (b # bs) (Suc n) = (c_tolower a = c_tolower b \<and> strncasecmp_eq as bs n)"
| "strncasecmp_eq _ _ (Suc n) = False"

lemma strcasecmp_eq_iff: "strcasecmp_eq a b \<longleftrightarrow> map c_tolower a = map c_tolower b"
  by (induction a b rule: strcasecmp_eq.induct) auto

lemma strncasecmp_eq_iff:
  "strncasecmp_eq a b n \<longleftrightarrow> map c_tolower (take n a) = map c_tolower (take n b)"
  by (induction a b n rule: strncasecmp_eq.induct) auto

lemma strncasecmp_eq_prefix:
  "strncasecmp_eq a b (length a) \<longleftrightarrow>
     length a \<le> length b \<and> map c_tolower a = map c_tolower (take (length a) b)"
proof -
  have "length a \<le> length b" if "map c_tolower a = map c_tolower (take (length a) b)"
    using arg_cong [OF that, of length] by simp
  then show ?thesis by (auto simp: strncasecmp_eq_iff)
qed

section \<open>Machine integers\<close>

text \<open>A COM \<open>HRESULT\<close> is a 32-bit integer whose sign bit says failure.\<close>

type_synonym hresult = "32 word"

definition FAILED :: "hresult \<Rightarrow> bool" where
  "FAILED hr \<longleftrightarrow> sint hr < 0"

definition SUCCEEDED :: "hresult \<Rightarrow> bool" where
  "SUCCEEDED hr \<longleftrightarrow> 0 \<le> sint hr"

definition S_OK :: hresult where "S_OK = 0"
definition E_FAIL :: hresult where "E_FAIL = 0x80004005"
definition E_NOINTERFACE :: hresult where "E_NOINTERFACE = 0x80004002"
definition RPC_E_CHANGED_MODE :: hresult where "RPC_E_CHANGED_MODE = 0x80010106"

lemma SUCCEEDED_iff: "SUCCEEDED hr \<longleftrightarrow> \<not> FAILED hr"
  by (auto simp: SUCCEEDED_def FAILED_def)

lemma FAILED_consts [simp]:
  "\<not> FAILED S_OK" "FAILED E_FAIL" "FAILED E_NOINTERFACE" "FAILED RPC_E_CHANGED_MODE"
  by (simp_all add: FAILED_def S_OK_def E_FAIL_def E_NOINTERFACE_def RPC_E_CHANGED_MODE_def)

text \<open>Decimal numerals, and \<open>itoa(n, buf, 10)\<close>, which writes a sign for a negative number.\<close>

fun dec_digits :: "nat \<Rightarrow> string" where
  "dec_digits n =
     (if n < 10 then [char_of (48 + n)] else dec_digits (n div 10) @ [char_of (48 + n mod 10)])"

declare dec_digits.simps [simp del]

definition itoa :: "int \<Rightarrow> string" where
  "itoa n = (if n < 0 then CHR ''-'' # dec_digits (nat (- n)) else dec_digits (nat n))"

lemma length_dec_digits:
  "0 < k \<Longrightarrow> n < 10 ^ k \<Longrightarrow> length (dec_digits n) \<le> k"
proof (induction k arbitrary: n)
  case (Suc k)
  show ?case
  proof (cases "n < 10")
    case True
    then show ?thesis by (simp add: dec_digits.simps)
  next
    case False
    with Suc.prems have "n div 10 < 10 ^ k" by (simp add: div_less_iff_less_mult mult.commute)
    moreover from this False have "0 < k" by (cases k) auto
    ultimately have "length (dec_digits (n div 10)) \<le> k" using Suc.IH by simp
    then show ?thesis using False by (simp add: dec_digits.simps [of n])
  qed
qed simp

text \<open>A 32-bit number and its sign take at most eleven characters.\<close>

lemma length_itoa [asp_bounds]:
  assumes "- (2 ^ 31) \<le> n" "n < 2 ^ 31"
  shows "length (itoa n) \<le> 11"
proof -
  have "length (dec_digits m) \<le> 10" if "m \<le> 2 ^ 31" for m :: nat
    by (rule length_dec_digits) (use that in auto)
  moreover have "nat (- n) \<le> 2 ^ 31" "nat n \<le> 2 ^ 31" using assms by auto
  ultimately have "length (dec_digits (nat (- n))) \<le> 10" "length (dec_digits (nat n)) \<le> 10" by blast+
  then show ?thesis by (simp add: itoa_def)
qed

section \<open>UTF-16 strings\<close>

text \<open>
  A \<open>System::String\<close> is a sequence of 16-bit code units; a \<open>String^\<close> that may be null is an
  \<open>option\<close>. \<open>wL\<close> is the C++ \<open>L"..."\<close> literal of an ASCII text.
\<close>

type_synonym wch = "16 word"
type_synonym wstr = "wch list"
type_synonym nstr = "wstr option"

definition wc :: "char \<Rightarrow> wch" where
  "wc c = of_nat (of_char c)"

definition wL :: "string \<Rightarrow> wstr" where
  "wL s = map wc s"

lemma wL_Nil [simp]: "wL [] = []" and wL_Cons: "wL (c # s) = wc c # wL s"
  and wL_append: "wL (s @ t) = wL s @ wL t" and length_wL [simp]: "length (wL s) = length s"
  by (simp_all add: wL_def)

lemma of_char_less_256 [asp_bounds]: "(of_char c :: nat) < 256"
  by simp

lemma wc_inj [simp]: "wc c = wc d \<longleftrightarrow> c = d"
proof
  assume "wc c = wc d"
  then have "unat (wc c) = unat (wc d)" by simp
  then have "(of_char c :: nat) = of_char d"
    using of_char_less_256 [of c] of_char_less_256 [of d]
    by (simp add: wc_def unat_of_nat)
  then show "c = d" by simp
qed simp

lemma wL_inj [simp]: "wL s = wL t \<longleftrightarrow> s = t"
proof -
  have "inj wc" by (rule injI) simp
  then show ?thesis by (simp add: wL_def)
qed

text \<open>The ordinal code-unit members of \<open>System::String\<close> the managed code uses.\<close>

definition Replace :: "wstr \<Rightarrow> wch \<Rightarrow> wch \<Rightarrow> wstr" where
  "Replace s a b = map (\<lambda>c. if c = a then b else c) s"

definition EndsWith :: "wstr \<Rightarrow> wstr \<Rightarrow> bool" where
  "EndsWith s t \<longleftrightarrow> length t \<le> length s \<and> drop (length s - length t) s = t"

definition StartsWith :: "wstr \<Rightarrow> wstr \<Rightarrow> bool" where
  "StartsWith s t \<longleftrightarrow> take (length t) s = t"

lemma length_Replace [simp]: "length (Replace s a b) = length s"
  by (simp add: Replace_def)

lemma Replace_not_in: "a \<noteq> b \<Longrightarrow> a \<notin> set (Replace s a b)"
  by (auto simp: Replace_def)

lemma Replace_idle: "a \<notin> set s \<Longrightarrow> Replace s a b = s"
  by (induction s) (auto simp: Replace_def)

lemma EndsWith_single [simp]: "EndsWith s [c] \<longleftrightarrow> s \<noteq> [] \<and> last s = c"
proof (cases s rule: rev_cases)
  case (snoc xs x)
  then show ?thesis by (simp add: EndsWith_def)
qed (simp add: EndsWith_def)

lemma StartsWith_append [simp]: "StartsWith (s @ t) s"
  by (simp add: StartsWith_def)

lemma StartsWith_split: "StartsWith s t \<Longrightarrow> s = t @ drop (length t) s"
  by (metis StartsWith_def append_take_drop_id)

section \<open>Managed calls\<close>

text \<open>
  What a managed call may throw, as far as the code tells exceptions apart, and the value
  of a call that may throw: \<open>Inl\<close> the exception, \<open>Inr\<close> the result.
\<close>

datatype exn =
    NullReference
  | ArgumentNull
  | ArgumentOutOfRange
  | IndexOutOfRange
  | InvalidCast
  | Remoting
  | AppDomainUnloaded
  | OtherException

text \<open>\<open>String::Substring\<close>: out of range throws.\<close>

definition Substring1 :: "wstr \<Rightarrow> nat \<Rightarrow> exn + wstr" where
  "Substring1 s i = (if i \<le> length s then Inr (drop i s) else Inl ArgumentOutOfRange)"

text \<open>
  A method that reads and changes a state: its run gives an exception of type \<open>'e\<close> or a
  result, and the state reached either way; \<open>meth\<close> is the managed case. \<open>obind\<close> is sequential composition, \<open>otry\<close> is
  \<open>try .. catch (Exception ^e)\<close>, \<open>oget\<close> and \<open>omap\<close> read and change the state.
\<close>

type_synonym ('s, 'e, 'a) run = "'s \<Rightarrow> ('e + 'a) \<times> 's"
type_synonym ('s, 'a) meth = "('s, exn, 'a) run"

definition oreturn :: "'a \<Rightarrow> ('s, 'e, 'a) run" where "oreturn x s = (Inr x, s)"
definition othrow :: "'e \<Rightarrow> ('s, 'e, 'a) run" where "othrow e s = (Inl e, s)"
definition oget :: "('s \<Rightarrow> 'a) \<Rightarrow> ('s, 'e, 'a) run" where "oget f s = (Inr (f s), s)"
definition omap :: "('s \<Rightarrow> 's) \<Rightarrow> ('s, 'e, unit) run" where "omap f s = (Inr (), f s)"
definition olift :: "('e + 'a) \<Rightarrow> ('s, 'e, 'a) run" where "olift r s = (r, s)"

definition obind :: "('s, 'e, 'a) run \<Rightarrow> ('a \<Rightarrow> ('s, 'e, 'b) run) \<Rightarrow> ('s, 'e, 'b) run" where
  "obind m k s = (case m s of (Inl e, s') \<Rightarrow> (Inl e, s') | (Inr x, s') \<Rightarrow> k x s')"

definition otry :: "('s, 'e, 'a) run \<Rightarrow> ('e \<Rightarrow> ('s, 'e, 'a) run) \<Rightarrow> ('s, 'e, 'a) run" where
  "otry m h s = (case m s of (Inl e, s') \<Rightarrow> h e s' | (Inr x, s') \<Rightarrow> (Inr x, s'))"

lemmas meth_defs = oreturn_def othrow_def oget_def omap_def olift_def obind_def otry_def

lemma meth_simps [simp]:
  "oreturn x s = (Inr x, s)" "othrow e s = (Inl e, s)" "oget f s = (Inr (f s), s)"
  "omap g s = (Inr (), g s)" "olift r s = (r, s)"
  by (simp_all add: meth_defs)

lemma obind_Inr: "m s = (Inr x, s') \<Longrightarrow> obind m k s = k x s'"
  and obind_Inl: "m s = (Inl e, s') \<Longrightarrow> obind m k s = (Inl e, s')"
  and otry_Inr: "m s = (Inr x, s') \<Longrightarrow> otry m h s = (Inr x, s')"
  and otry_Inl: "m s = (Inl e, s') \<Longrightarrow> otry m h s = h e s'"
  by (simp_all add: meth_defs)

lemma obind_prims [simp]:
  "obind (oreturn x) k s = k x s" "obind (othrow e) k' s = (Inl e, s)"
  "obind (oget f) k'' s = k'' (f s) s" "obind (omap g) k3 s = k3 () (g s)"
  by (simp_all add: meth_defs)

lemma obind_assoc [simp]: "obind (obind m k) k' = obind m (\<lambda>x. obind (k x) k')"
  by (rule ext) (simp add: obind_def split: prod.split sum.split)

text \<open>An invariant of the state that a method keeps, whether it throws or not.\<close>

definition keeps :: "('s \<Rightarrow> bool) \<Rightarrow> ('s, 'e, 'a) run \<Rightarrow> bool" where
  "keeps P m \<longleftrightarrow> (\<forall>s. P s \<longrightarrow> P (snd (m s)))"

lemma keepsD: "keeps P m \<Longrightarrow> P s \<Longrightarrow> m s = (r, s') \<Longrightarrow> P s'"
  by (metis keeps_def snd_conv)

named_theorems keeps_intros

lemma keeps_prims [keeps_intros]:
  "keeps P (oreturn x)" "keeps P (othrow e)" "keeps P (oget f)" "keeps P (olift r)"
  by (simp_all add: keeps_def)

lemma keeps_omap [keeps_intros]: "(\<And>s. P s \<Longrightarrow> P (g s)) \<Longrightarrow> keeps P (omap g)"
  by (simp add: keeps_def)

lemma keeps_obind [keeps_intros]: "keeps P m \<Longrightarrow> (\<And>x. keeps P (k x)) \<Longrightarrow> keeps P (obind m k)"
  by (auto simp: keeps_def obind_def split: prod.splits sum.splits)

lemma keeps_otry [keeps_intros]: "keeps P m \<Longrightarrow> (\<And>e. keeps P (h e)) \<Longrightarrow> keeps P (otry m h)"
  by (auto simp: keeps_def otry_def split: prod.splits sum.splits)

lemma keeps_if [keeps_intros]: "keeps P m \<Longrightarrow> keeps P m' \<Longrightarrow> keeps P (if b then m else m')"
  by simp

section \<open>The error log\<close>

text \<open>
  One call of \<open>ap_log_error\<close> or \<open>ap_log_rerror\<close>: the level word (a level of
  \<open>http_log.h\<close>, with \<open>APLOG_NOERRNO\<close> set where the code sets it), the status value and
  the text of the format string. The arguments substituted into the format are not kept.
\<close>

record log_entry =
  log_level :: "32 word"
  log_rv :: "32 word"
  log_text :: string

abbreviation LOG :: "32 word \<Rightarrow> 32 word \<Rightarrow> string \<Rightarrow> log_entry" where
  "LOG l rv t \<equiv> \<lparr>log_level = l, log_rv = rv, log_text = t\<rparr>"

end
