(* ===== verification/Dotnet_Text.thy ===== *)
theory Dotnet_Text
  imports Asp_Prelude
begin

text \<open>
  What the managed half of the program asks of the .NET class library about text: the
  invariant culture, the encodings that turn bytes into strings and back, and the lease of
  a remoted object. The library is outside the repository, so a culture and an encoding are
  records of functions, arguments of the definitions that call them, and the facts about
  them that a proof needs are the predicates \<open>folds_ascii\<close> and \<open>culture_plain\<close>.
\<close>

section \<open>Cultures\<close>

text \<open>
  \<open>cu_lower\<close> and \<open>cu_upper\<close> are the code unit tables of \<open>ToLower(nullCulture)\<close> and
  \<open>ToUpper(nullCulture)\<close>, \<open>cu_compare s t\<close> says that \<open>String::Compare(s, t, true, nullCulture)\<close>
  is 0, and \<open>cu_ends_with\<close> and \<open>cu_starts_with\<close> are \<open>EndsWith(String^)\<close> and
  \<open>StartsWith(String^)\<close>, which compare by the culture, too.
\<close>

record culture =
  cu_lower :: "wch \<Rightarrow> wch"
  cu_upper :: "wch \<Rightarrow> wch"
  cu_compare :: "wstr \<Rightarrow> wstr \<Rightarrow> bool"
  cu_ends_with :: "wstr \<Rightarrow> wstr \<Rightarrow> bool"
  cu_starts_with :: "wstr \<Rightarrow> wstr \<Rightarrow> bool"

definition ToLower :: "(wch \<Rightarrow> wch) \<Rightarrow> wstr \<Rightarrow> wstr" where
  "ToLower lower s = map lower s"

definition ascii_lower :: "wch \<Rightarrow> wch" where
  "ascii_lower c = (if 65 \<le> c \<and> c \<le> 90 then c + 32 else c)"

text \<open>The invariant culture folds the ASCII letters as ASCII does.\<close>

definition folds_ascii :: "(wch \<Rightarrow> wch) \<Rightarrow> bool" where
  "folds_ascii lower \<longleftrightarrow> (\<forall>c. c < 128 \<longrightarrow> lower c = ascii_lower c)"

text \<open>
  On strings of printable ASCII, where no code unit is ignorable or composed, comparing by
  culture is comparing code units, up to letter case where the call asks for it.
\<close>

definition plain :: "wstr \<Rightarrow> bool" where
  "plain s \<longleftrightarrow> list_all (\<lambda>c. 32 \<le> c \<and> c < 127) s"

definition culture_plain :: "culture \<Rightarrow> bool" where
  "culture_plain cu \<longleftrightarrow>
     (\<forall>s t. plain s \<longrightarrow> plain t \<longrightarrow> cu_compare cu s t = (map ascii_lower s = map ascii_lower t)) \<and>
     (\<forall>s t. plain s \<longrightarrow> plain t \<longrightarrow> cu_ends_with cu s t = EndsWith s t) \<and>
     (\<forall>s t. plain s \<longrightarrow> plain t \<longrightarrow> cu_starts_with cu s t = StartsWith s t)"

definition ordinal_culture :: culture where
  "ordinal_culture = \<lparr>cu_lower = ascii_lower, cu_upper = (\<lambda>c. if 97 \<le> c \<and> c \<le> 122 then c - 32 else c),
     cu_compare = (\<lambda>s t. map ascii_lower s = map ascii_lower t), cu_ends_with = EndsWith,
     cu_starts_with = StartsWith\<rparr>"

lemma folds_ascii_ascii_lower [simp]: "folds_ascii ascii_lower"
  by (simp add: folds_ascii_def)

lemma culture_plain_ordinal [simp]: "culture_plain ordinal_culture"
  by (simp add: culture_plain_def ordinal_culture_def)

lemma plain_append [simp]: "plain (s @ t) \<longleftrightarrow> plain s \<and> plain t"
  and plain_Nil [simp]: "plain []"
  and plain_Cons: "plain (c # s) \<longleftrightarrow> 32 \<le> c \<and> c < 127 \<and> plain s"
  by (simp_all add: plain_def)

lemma plain_take [intro]: "plain s \<Longrightarrow> plain (take n s)"
  and plain_drop [intro]: "plain s \<Longrightarrow> plain (drop n s)"
  by (auto simp: plain_def list_all_iff dest: in_set_takeD in_set_dropD)

lemma plain_butlast [intro]: "plain s \<Longrightarrow> plain (butlast s)"
  by (auto simp: plain_def list_all_iff dest: in_set_butlastD)

lemma plain_Replace: "plain s \<Longrightarrow> 32 \<le> b \<Longrightarrow> b < 127 \<Longrightarrow> plain (Replace s a b)"
  by (auto simp: plain_def Replace_def list_all_iff)

lemma culture_compareD:
  "culture_plain cu \<Longrightarrow> plain s \<Longrightarrow> plain t \<Longrightarrow> cu_compare cu s t = (map ascii_lower s = map ascii_lower t)"
  by (simp add: culture_plain_def)

lemma culture_ends_withD:
  "culture_plain cu \<Longrightarrow> plain s \<Longrightarrow> plain t \<Longrightarrow> cu_ends_with cu s t = EndsWith s t"
  by (simp add: culture_plain_def)

lemma culture_starts_withD:
  "culture_plain cu \<Longrightarrow> plain s \<Longrightarrow> plain t \<Longrightarrow> cu_starts_with cu s t = StartsWith s t"
  by (simp add: culture_plain_def)

section \<open>Encodings\<close>

text \<open>
  \<open>en_utf8\<close> is \<open>UTF8Encoding::GetBytes\<close>, \<open>en_utf8_str\<close> its \<open>GetString\<close>, and \<open>en_ansi\<close> the
  constructor \<open>String(char *)\<close>, which decodes by the code page of the system.
\<close>

record encodings =
  en_utf8 :: "wstr \<Rightarrow> string"
  en_utf8_str :: "string \<Rightarrow> wstr"
  en_ansi :: "string \<Rightarrow> wstr"

text \<open>All three agree on ASCII; for the concrete instances, bytes become code units.\<close>

definition narrow :: "wstr \<Rightarrow> string" where
  "narrow s = map (\<lambda>c. char_of (unat c)) s"

definition ascii_encodings :: encodings where
  "ascii_encodings = \<lparr>en_utf8 = narrow, en_utf8_str = wL, en_ansi = wL\<rparr>"

text \<open>
  Pinning \<open>&avalue[0]\<close> of an empty array throws: the form in which the managed code hands
  the bytes of a string to native code.
\<close>

definition pin_first :: "string \<Rightarrow> exn + string" where
  "pin_first bs = (if bs = [] then Inl IndexOutOfRange else Inr bs)"

section \<open>Leases\<close>

text \<open>The states of a remoting lease and its times, in ticks of 100 ns.\<close>

datatype LeaseState = LeaseNull | LeaseInitial | LeaseActive | LeaseRenewing | LeaseExpired

record lease =
  ls_CurrentState :: LeaseState
  ls_InitialLeaseTime :: int
  ls_SponsorshipTimeout :: int
  ls_RenewOnCallTime :: int

definition FromMinutes :: "int \<Rightarrow> int" where "FromMinutes n = n * 600000000"
definition FromDays :: "int \<Rightarrow> int" where "FromDays n = n * 864000000000"

end
