(* ===== verification/Header_Tables.thy ===== *)
theory Header_Tables
  imports Dotnet_Text
begin

text \<open>
  The header name tables of \<open>Apache.Web/http_header_arrays.h\<close> and the static lookups of
  \<open>WorkerRequest.h\<close> over them. The macros produce each list twice, as C strings and as
  wide strings; a wide table is \<open>map wL\<close> of the C one, as the macro argument \<open>t\<close> makes it.
  The .NET constants \<open>RequestHeaderMaximum\<close> and \<open>ResponseHeaderMaximum\<close> of
  \<open>HttpWorkerRequest\<close> are 40 and 30. \<open>ToLower(nullCulture)\<close> maps every code unit by the
  invariant culture's table, the parameter \<open>lower\<close>.
\<close>

section \<open>The tables\<close>

definition common_headers_name_m :: "string list" where
  "common_headers_name_m =
     [''Cache-Control'', ''Connection'', ''Date'', ''Keep-Alive'', ''Pragma'', ''Trailer'', 
      ''Transfer-Encoding'', ''Upgrade'', ''Via'', ''Warning'', ''Allow'', ''Content-Length'', 
      ''Content-Type'', ''Content-Encoding'', ''Content-Language'', ''Content-Location'', 
      ''Content-MD5'', ''Content-Range'', ''Expires'', ''Last-Modified'']"

definition common_headers_index_m :: "string list" where
  "common_headers_index_m =
     [''cache-control'', ''connection'', ''date'', ''keep-alive'', ''pragma'', ''trailer'', 
      ''transfer-encoding'', ''upgrade'', ''via'', ''warning'', ''allow'', ''content-length'', 
      ''content-type'', ''content-encoding'', ''content-language'', ''content-location'', 
      ''content-md5'', ''content-range'', ''expires'', ''last-modified'']"

definition response_headers_m :: "string list" where
  "response_headers_m = common_headers_name_m @
     [''Accept-Ranges'', ''Age'', ''ETag'', ''Location'', ''Proxy-Authenticate'', 
      ''Retry-After'', ''Server'', ''Set-Cookie'', ''Vary'', ''WWW-Authenticate'']"

definition request_headers_m :: "string list" where
  "request_headers_m = common_headers_name_m @
     [''Accept'', ''Accept-Charset'', ''Accept-Encoding'', ''Accept-Language'', 
      ''Authorization'', ''Cookie'', ''Expect'', ''From'', ''Host'', ''If-Match'', 
      ''If-Modified-Since'', ''If-None-Match'', ''If-Range'', ''If-Unmodified-Since'', 
      ''Max-Forwards'', ''Proxy-Authorization'', ''Referer'', ''Range'', ''TE'', 
      ''User-Agent'']"

definition response_headers_index_m :: "string list" where
  "response_headers_index_m = common_headers_index_m @
     [''accept-ranges'', ''age'', ''etag'', ''location'', ''proxy-authenticate'', 
      ''retry-after'', ''server'', ''set-cookie'', ''vary'', ''www-authenticate'']"

definition request_headers_index_m :: "string list" where
  "request_headers_index_m = common_headers_index_m @
     [''accept'', ''accept-charset'', ''accept-encoding'', ''accept-language'', 
      ''authorization'', ''cookie'', ''expect'', ''from'', ''host'', ''if-match'', 
      ''if-modified-since'', ''if-none-match'', ''if-range'', ''if-unmodified-since'', 
      ''max-forwards'', ''proxy-authorization'', ''referer'', ''range'', ''te'', 
      ''user-agent'']"

lemmas header_table_defs = common_headers_name_m_def common_headers_index_m_def
  response_headers_m_def request_headers_m_def response_headers_index_m_def
  request_headers_index_m_def

definition RequestHeaderMaximum :: nat where "RequestHeaderMaximum = 40"
definition ResponseHeaderMaximum :: nat where "ResponseHeaderMaximum = 30"
definition HeaderContentType :: int where "HeaderContentType = 12"

definition response_headers_name_c :: "string list" where
  "response_headers_name_c = response_headers_m"
definition response_headers_name_s :: "wstr list" where
  "response_headers_name_s = map wL response_headers_m"
definition request_headers_name_s :: "wstr list" where
  "request_headers_name_s = map wL request_headers_m"
definition response_headers_index_s :: "wstr list" where
  "response_headers_index_s = map wL response_headers_index_m"
definition request_headers_index_s :: "wstr list" where
  "request_headers_index_s = map wL request_headers_index_m"

section \<open>Lookups\<close>

text \<open>\<open>Array::IndexOf\<close> and \<open>ArrayList::IndexOf\<close>: the first position, or -1.\<close>

fun IndexOf :: "'a list \<Rightarrow> 'a \<Rightarrow> int" where
  "IndexOf [] x = -1"
| "IndexOf (y # ys) x = (if y = x then 0 else let i = IndexOf ys x in if i < 0 then -1 else i + 1)"

definition GetKnownRequestHeaderIndex :: "(wch \<Rightarrow> wch) \<Rightarrow> wstr \<Rightarrow> int" where
  "GetKnownRequestHeaderIndex lower header = IndexOf request_headers_index_s (ToLower lower header)"

definition GetKnownRequestHeaderName :: "int \<Rightarrow> nstr" where
  "GetKnownRequestHeaderName header =
     (if header \<ge> 0 \<and> header < int RequestHeaderMaximum
      then Some (request_headers_name_s ! nat header) else None)"

definition GetKnownResponseHeaderIndex :: "(wch \<Rightarrow> wch) \<Rightarrow> wstr \<Rightarrow> int" where
  "GetKnownResponseHeaderIndex lower header = IndexOf response_headers_index_s (ToLower lower header)"

definition GetKnownResponseHeaderName :: "int \<Rightarrow> nstr" where
  "GetKnownResponseHeaderName header =
     (if header \<ge> 0 \<and> header < int ResponseHeaderMaximum
      then Some (response_headers_name_s ! nat header) else None)"

text \<open>
  \<open>CodeValidate\<close> compares both tables with the names the framework itself knows, which are
  the parameters \<open>known_resp\<close> and \<open>known_req\<close>.
\<close>

definition validate_table ::
  "(wch \<Rightarrow> wch) \<Rightarrow> (nat \<Rightarrow> wstr) \<Rightarrow> wstr list \<Rightarrow> wstr list \<Rightarrow> nat \<Rightarrow> bool" where
  "validate_table lower known names index mx \<longleftrightarrow>
     length names = mx \<and> length index = mx \<and>
     list_all (\<lambda>i. names ! i = known i \<and> index ! i = ToLower lower (known i)) [0..<mx]"

definition CodeValidate :: "(wch \<Rightarrow> wch) \<Rightarrow> (nat \<Rightarrow> wstr) \<Rightarrow> (nat \<Rightarrow> wstr) \<Rightarrow> bool" where
  "CodeValidate lower known_resp known_req \<longleftrightarrow>
     validate_table lower known_resp response_headers_name_s response_headers_index_s ResponseHeaderMaximum \<and>
     validate_table lower known_req request_headers_name_s request_headers_index_s RequestHeaderMaximum"

section \<open>Lemmas\<close>

lemma ascii_lower_wc: "(of_char c :: nat) < 128 \<Longrightarrow> ascii_lower (wc c) = wc (c_tolower c)"
  by (cases "65 \<le> (of_char c :: nat) \<and> (of_char c :: nat) \<le> 90")
     (auto simp: ascii_lower_def wc_def c_tolower_def word_le_nat_alt unat_of_nat)

lemma lower_wL:
  assumes "folds_ascii lower" "list_all (\<lambda>c. (of_char c :: nat) < 128) s"
  shows "ToLower lower (wL s) = wL (map c_tolower s)"
proof -
  have "lower (wc c) = wc (c_tolower c)" if "c \<in> set s" for c
  proof -
    from that assms(2) have c: "(of_char c :: nat) < 128" by (simp add: list_all_iff)
    then have "wc c < 128" by (simp add: wc_def word_less_nat_alt unat_of_nat)
    with assms(1) ascii_lower_wc [OF c] show ?thesis by (simp add: folds_ascii_def)
  qed
  then show ?thesis by (simp add: ToLower_def wL_def)
qed

lemma IndexOf_range: "IndexOf xs x < int (length xs)" "-1 \<le> IndexOf xs x"
  by (induction xs) (auto simp: Let_def)

lemma IndexOf_neg [simp]: "IndexOf xs x < 0 \<longleftrightarrow> x \<notin> set xs"
  by (induction xs) (auto simp: Let_def)

lemma IndexOf_nth: "x \<in> set xs \<Longrightarrow> xs ! nat (IndexOf xs x) = x"
proof (induction xs)
  case (Cons y ys)
  show ?case
  proof (cases "y = x")
    case False
    with Cons have "x \<in> set ys" by simp
    moreover from this have "\<not> IndexOf ys x < 0" by simp
    then have "nat (IndexOf ys x + 1) = Suc (nat (IndexOf ys x))" by linarith
    ultimately show ?thesis using False Cons.IH by (simp add: Let_def)
  qed simp
qed simp

lemma IndexOf_distinct: "distinct xs \<Longrightarrow> i < length xs \<Longrightarrow> IndexOf xs (xs ! i) = int i"
proof -
  assume d: "distinct xs" "i < length xs"
  then have m: "xs ! i \<in> set xs" by simp
  have r: "nat (IndexOf xs (xs ! i)) < length xs" using IndexOf_range(1) [of xs "xs ! i"] d(2) by linarith
  have "nat (IndexOf xs (xs ! i)) = i"
    using nth_eq_iff_index_eq [OF d(1) r d(2)] IndexOf_nth [OF m] by simp
  moreover have "\<not> IndexOf xs (xs ! i) < 0" using m by simp
  ultimately show ?thesis by linarith
qed

lemma common_headers_lower: "map (map c_tolower) common_headers_name_m = common_headers_index_m"
  by code_simp

lemma header_tables_lower:
  "map (map c_tolower) request_headers_m = request_headers_index_m"
  "map (map c_tolower) response_headers_m = response_headers_index_m"
  unfolding request_headers_m_def request_headers_index_m_def response_headers_m_def response_headers_index_m_def
    map_append common_headers_lower same_append_eq
  by code_simp+

lemma header_tables_ascii:
  "list_all (list_all (\<lambda>c. (of_char c :: nat) < 128)) request_headers_m"
  "list_all (list_all (\<lambda>c. (of_char c :: nat) < 128)) response_headers_m"
  by code_simp+

lemma header_tables_distinct:
  "distinct request_headers_index_m" "distinct response_headers_index_m"
  by code_simp+

lemma header_tables_length [simp]:
  "length request_headers_m = 40" "length response_headers_m = 30"
  "length request_headers_index_m = 40" "length response_headers_index_m = 30"
  by (simp_all add: header_table_defs)

lemma distinct_wL: "distinct (map wL xs) = distinct xs"
  by (simp add: distinct_map inj_on_def)

lemma index_of_name:
  assumes "folds_ascii lower" "list_all (list_all (\<lambda>c. (of_char c :: nat) < 128)) names"
    "map (map c_tolower) names = index" "distinct index" "i < length names"
  shows "IndexOf (map wL index) (ToLower lower (map wL names ! i)) = int i"
proof -
  have "list_all (\<lambda>c. (of_char c :: nat) < 128) (names ! i)"
    using assms(2,5) by (simp add: list_all_length)
  then have "ToLower lower (map wL names ! i) = wL (map c_tolower (names ! i))"
    using assms(1,5) by (simp add: lower_wL)
  also have "\<dots> = map wL index ! i" using assms(3,5) by auto
  finally show ?thesis
    using IndexOf_distinct [of "map wL index" i] assms(3-5) by (auto simp: distinct_wL)
qed

lemma index_of_index:
  assumes "folds_ascii lower" "list_all (list_all (\<lambda>c. (of_char c :: nat) < 128)) index"
    "map (map c_tolower) index = index" "distinct index" "i < length index"
  shows "IndexOf (map wL index) (ToLower lower (map wL index ! i)) = int i"
  by (rule index_of_name [OF assms])

text \<open>The tables of the indices are folded, so they need no check of their own.\<close>

lemma lower_table_ascii:
  "list_all (list_all (\<lambda>c. (of_char c :: nat) < 128)) names \<Longrightarrow>
   list_all (list_all (\<lambda>c. (of_char c :: nat) < 128)) (map (map c_tolower) names)"
  by (simp add: list_all_iff c_tolower_ascii)

lemma lower_table_idem: "map (map c_tolower) (map (map c_tolower) names) = map (map c_tolower) names"
  by (simp add: c_tolower_idem)

lemma index_tables_ascii:
  "list_all (list_all (\<lambda>c. (of_char c :: nat) < 128)) request_headers_index_m"
  "list_all (list_all (\<lambda>c. (of_char c :: nat) < 128)) response_headers_index_m"
  using header_tables_ascii [THEN lower_table_ascii] by (simp_all only: header_tables_lower)

lemma index_tables_lower:
  "map (map c_tolower) request_headers_index_m = request_headers_index_m"
  "map (map c_tolower) response_headers_index_m = response_headers_index_m"
  using lower_table_idem [of request_headers_m] lower_table_idem [of response_headers_m]
  by (simp_all only: header_tables_lower)

text \<open>Both spellings of a known name are found at the position of the name.\<close>

lemma table_roundtrip:
  assumes "folds_ascii lower" "list_all (list_all (\<lambda>c. (of_char c :: nat) < 128)) names"
    "list_all (list_all (\<lambda>c. (of_char c :: nat) < 128)) index"
    "map (map c_tolower) names = index" "map (map c_tolower) index = index"
    "distinct index" "i < length names"
  shows "IndexOf (map wL index) (ToLower lower (map wL names ! i)) = int i"
    and "IndexOf (map wL index) (ToLower lower (ToLower lower (map wL names ! i))) = int i"
proof -
  have len: "length index = length names" using assms(4) by (metis length_map)
  show "IndexOf (map wL index) (ToLower lower (map wL names ! i)) = int i"
    by (rule index_of_name [OF assms(1,2,4,6,7)])
  have "list_all (\<lambda>c. (of_char c :: nat) < 128) (names ! i)"
    using assms(2,7) by (simp add: list_all_length)
  then have "ToLower lower (map wL names ! i) = map wL index ! i"
    using assms(1,4,7) by (auto simp: lower_wL)
  then show "IndexOf (map wL index) (ToLower lower (ToLower lower (map wL names ! i))) = int i"
    using index_of_index [OF assms(1,3,5,6)] assms(7) len by simp
qed

lemmas request_table_roundtrip =
  table_roundtrip [OF _ header_tables_ascii(1) index_tables_ascii(1) header_tables_lower(1)
    index_tables_lower(1) header_tables_distinct(1), folded request_headers_index_s_def
    request_headers_name_s_def]

lemmas response_table_roundtrip =
  table_roundtrip [OF _ header_tables_ascii(2) index_tables_ascii(2) header_tables_lower(2)
    index_tables_lower(2) header_tables_distinct(2), folded response_headers_index_s_def
    response_headers_name_s_def]

text \<open>The bounds the known-header arrays of the response and the request rest on.\<close>

lemma GetKnownRequestHeaderIndex_range [asp_bounds]:
  "-1 \<le> GetKnownRequestHeaderIndex lower h" "GetKnownRequestHeaderIndex lower h < 40"
  using IndexOf_range [of request_headers_index_s "ToLower lower h"]
  by (simp_all add: GetKnownRequestHeaderIndex_def request_headers_index_s_def)

lemma GetKnownResponseHeaderIndex_range [asp_bounds]:
  "-1 \<le> GetKnownResponseHeaderIndex lower h" "GetKnownResponseHeaderIndex lower h < 30"
  using IndexOf_range [of response_headers_index_s "ToLower lower h"]
  by (simp_all add: GetKnownResponseHeaderIndex_def response_headers_index_s_def)

section \<open>Properties\<close>

text \<open>the two static lookups of the request headers are inverse to each other: the name of
  each of the 40 valid indices is found again at that index, written with its capitals or
  already folded, and an index outside of the table has no name.\<close>

theorem known_request_header_roundtrip:
  assumes "folds_ascii lower"
  shows "(0 \<le> i \<and> i < 40 \<longrightarrow>
           (\<exists>n. GetKnownRequestHeaderName i = Some n \<and> GetKnownRequestHeaderIndex lower n = i \<and>
                GetKnownRequestHeaderIndex lower (ToLower lower n) = i)) \<and>
         (\<not> (0 \<le> i \<and> i < 40) \<longrightarrow> GetKnownRequestHeaderName i = None)"
  using request_table_roundtrip [OF assms, of "nat i"]
  by (auto simp: GetKnownRequestHeaderName_def GetKnownRequestHeaderIndex_def RequestHeaderMaximum_def
      request_headers_index_s_def)

theorem known_request_header_roundtrip_witness:
  "GetKnownRequestHeaderName 28 = Some (wL ''Host'') \<and>
   GetKnownRequestHeaderIndex ascii_lower (wL ''Host'') = 28"
proof -
  have n: "GetKnownRequestHeaderName 28 = Some (wL ''Host'')" by code_simp
  with known_request_header_roundtrip [OF folds_ascii_ascii_lower, of 28] show ?thesis by simp
qed

text \<open>The two static lookups of the response headers are inverse to each other on their 30
  indices, in either letter case, and the content type of a response is the entry the send
  path special-cases.\<close>

theorem known_response_header_roundtrip:
  assumes "folds_ascii lower"
  shows "(0 \<le> i \<and> i < 30 \<longrightarrow>
           (\<exists>n. GetKnownResponseHeaderName i = Some n \<and> GetKnownResponseHeaderIndex lower n = i \<and>
                GetKnownResponseHeaderIndex lower (ToLower lower n) = i)) \<and>
         (\<not> (0 \<le> i \<and> i < 30) \<longrightarrow> GetKnownResponseHeaderName i = None) \<and>
         GetKnownResponseHeaderName HeaderContentType = Some (wL ''Content-Type'')"
proof -
  have "GetKnownResponseHeaderName HeaderContentType = Some (wL ''Content-Type'')" by code_simp
  with response_table_roundtrip [OF assms, of "nat i"] show ?thesis
    by (auto simp: GetKnownResponseHeaderName_def GetKnownResponseHeaderIndex_def
        ResponseHeaderMaximum_def response_headers_index_s_def)
qed

theorem known_response_header_roundtrip_witness:
  "GetKnownResponseHeaderName 27 = Some (wL ''Set-Cookie'') \<and>
   GetKnownResponseHeaderIndex ascii_lower (wL ''Set-Cookie'') = 27"
proof -
  have n: "GetKnownResponseHeaderName 27 = Some (wL ''Set-Cookie'')" by code_simp
  with known_response_header_roundtrip [OF folds_ascii_ascii_lower, of 27] show ?thesis by simp
qed

end
