(* ===== verification/Httpd.thy ===== *)
theory Httpd
  imports Asp_Prelude
begin

text \<open>
  The data of httpd and APR the module is compiled against, as the bundled headers declare
  it: return codes and status classes (\<open>httpd.h\<close>), log levels (\<open>http_log.h\<close>), the file
  type enumeration and \<open>apr_finfo_t\<close> (\<open>apr_file_info.h\<close>), the folding of system errors
  into \<open>apr_status_t\<close> (\<open>apr_errno.h\<close>), and the connection and request structures. A
  pointer the module never follows is an opaque \<open>ptr\<close>; a table is the list of its
  entries in order.
\<close>

unbundle bit_operations_syntax

type_synonym ptr = "nat option"
type_synonym apr_table = "(string \<times> string) list"
type_synonym apr_status_t = "32 word"

section \<open>Return codes and status classes\<close>

definition OK :: int where "OK = 0"
definition DECLINED :: int where "DECLINED = -1"
definition HTTP_OK :: int where "HTTP_OK = 200"
definition HTTP_FORBIDDEN :: int where "HTTP_FORBIDDEN = 403"
definition HTTP_NOT_FOUND :: int where "HTTP_NOT_FOUND = 404"
definition HTTP_INTERNAL_SERVER_ERROR :: int where "HTTP_INTERNAL_SERVER_ERROR = 500"

lemmas http_codes = OK_def DECLINED_def HTTP_OK_def HTTP_FORBIDDEN_def HTTP_NOT_FOUND_def
  HTTP_INTERNAL_SERVER_ERROR_def

definition ap_is_HTTP_INFO :: "int \<Rightarrow> bool" where
  "ap_is_HTTP_INFO x \<longleftrightarrow> x \<ge> 100 \<and> x < 200"

definition ap_is_HTTP_SUCCESS :: "int \<Rightarrow> bool" where
  "ap_is_HTTP_SUCCESS x \<longleftrightarrow> x \<ge> 200 \<and> x < 300"

definition ap_is_HTTP_REDIRECT :: "int \<Rightarrow> bool" where
  "ap_is_HTTP_REDIRECT x \<longleftrightarrow> x \<ge> 300 \<and> x < 400"

definition ap_is_HTTP_ERROR :: "int \<Rightarrow> bool" where
  "ap_is_HTTP_ERROR x \<longleftrightarrow> x \<ge> 400 \<and> x < 600"

definition ap_is_HTTP_CLIENT_ERROR :: "int \<Rightarrow> bool" where
  "ap_is_HTTP_CLIENT_ERROR x \<longleftrightarrow> x \<ge> 400 \<and> x < 500"

definition ap_is_HTTP_SERVER_ERROR :: "int \<Rightarrow> bool" where
  "ap_is_HTTP_SERVER_ERROR x \<longleftrightarrow> x \<ge> 500 \<and> x < 600"

definition ap_is_HTTP_VALID_RESPONSE :: "int \<Rightarrow> bool" where
  "ap_is_HTTP_VALID_RESPONSE x \<longleftrightarrow> x \<ge> 100 \<and> x < 600"

lemmas http_classes = ap_is_HTTP_INFO_def ap_is_HTTP_SUCCESS_def ap_is_HTTP_REDIRECT_def
  ap_is_HTTP_ERROR_def ap_is_HTTP_CLIENT_ERROR_def ap_is_HTTP_SERVER_ERROR_def
  ap_is_HTTP_VALID_RESPONSE_def

section \<open>Log levels\<close>

definition APLOG_CRIT :: "32 word" where "APLOG_CRIT = 2"
definition APLOG_ERR :: "32 word" where "APLOG_ERR = 3"
definition APLOG_WARNING :: "32 word" where "APLOG_WARNING = 4"
definition APLOG_NOTICE :: "32 word" where "APLOG_NOTICE = 5"
definition APLOG_INFO :: "32 word" where "APLOG_INFO = 6"
definition APLOG_DEBUG :: "32 word" where "APLOG_DEBUG = 7"
definition APLOG_LEVELMASK :: "32 word" where "APLOG_LEVELMASK = 15"
definition APLOG_NOERRNO :: "32 word" where "APLOG_NOERRNO = APLOG_LEVELMASK + 1"

lemmas aplog_defs = APLOG_CRIT_def APLOG_ERR_def APLOG_WARNING_def APLOG_NOTICE_def
  APLOG_INFO_def APLOG_DEBUG_def APLOG_LEVELMASK_def APLOG_NOERRNO_def

section \<open>Status values\<close>

text \<open>
  \<open>apr_errno.h\<close> lays its error ranges out one after the other and folds a system error
  into the last of them; the sums are computed on a C \<open>int\<close>, so they wrap at 32 bits.
\<close>

definition APR_SUCCESS :: apr_status_t where "APR_SUCCESS = 0"
definition APR_OS_START_ERROR :: apr_status_t where "APR_OS_START_ERROR = 20000"
definition APR_OS_ERRSPACE_SIZE :: apr_status_t where "APR_OS_ERRSPACE_SIZE = 50000"
definition APR_UTIL_ERRSPACE_SIZE :: apr_status_t where "APR_UTIL_ERRSPACE_SIZE = 20000"
definition APR_OS_START_STATUS :: apr_status_t where
  "APR_OS_START_STATUS = APR_OS_START_ERROR + APR_OS_ERRSPACE_SIZE"
definition APR_UTIL_START_STATUS :: apr_status_t where
  "APR_UTIL_START_STATUS = APR_OS_START_STATUS + (APR_OS_ERRSPACE_SIZE - APR_UTIL_ERRSPACE_SIZE)"
definition APR_OS_START_USERERR :: apr_status_t where
  "APR_OS_START_USERERR = APR_OS_START_STATUS + APR_OS_ERRSPACE_SIZE"
definition APR_OS_START_CANONERR :: apr_status_t where
  "APR_OS_START_CANONERR = APR_OS_START_USERERR + APR_OS_ERRSPACE_SIZE * 10"
definition APR_OS_START_EAIERR :: apr_status_t where
  "APR_OS_START_EAIERR = APR_OS_START_CANONERR + APR_OS_ERRSPACE_SIZE"
definition APR_OS_START_SYSERR :: apr_status_t where
  "APR_OS_START_SYSERR = APR_OS_START_EAIERR + APR_OS_ERRSPACE_SIZE"

lemmas apr_ranges = APR_SUCCESS_def APR_OS_START_ERROR_def APR_OS_ERRSPACE_SIZE_def
  APR_UTIL_ERRSPACE_SIZE_def APR_OS_START_STATUS_def APR_UTIL_START_STATUS_def
  APR_OS_START_USERERR_def APR_OS_START_CANONERR_def APR_OS_START_EAIERR_def
  APR_OS_START_SYSERR_def

definition APR_FROM_OS_ERROR :: "32 word \<Rightarrow> apr_status_t" where
  "APR_FROM_OS_ERROR e = (if e = 0 then APR_SUCCESS else e + APR_OS_START_SYSERR)"

definition APR_TO_OS_ERROR :: "apr_status_t \<Rightarrow> 32 word" where
  "APR_TO_OS_ERROR e = (if e = 0 then APR_SUCCESS else e - APR_OS_START_SYSERR)"

lemma APR_OS_START_SYSERR_val: "APR_OS_START_SYSERR = 720000"
  by (simp add: apr_ranges)

section \<open>File information\<close>

datatype apr_filetype_e =
    APR_NOFILE | APR_REG | APR_DIR | APR_CHR | APR_BLK | APR_PIPE | APR_LNK | APR_SOCK
  | APR_UNKFILE

record apr_finfo_t =
  fi_pool :: ptr
  fi_valid :: int
  fi_protection :: int
  fi_filetype :: apr_filetype_e
  fi_user :: ptr
  fi_group :: ptr
  fi_inode :: int
  fi_device :: int
  fi_nlink :: int
  fi_size :: int
  fi_csize :: int
  fi_atime :: int
  fi_mtime :: int
  fi_ctime :: int
  fi_fname :: c_ptr
  fi_name :: c_ptr
  fi_filehand :: ptr

section \<open>Connection and request\<close>

definition AP_REQ_ACCEPT_PATH_INFO :: int where "AP_REQ_ACCEPT_PATH_INFO = 0"
definition AP_REQ_REJECT_PATH_INFO :: int where "AP_REQ_REJECT_PATH_INFO = 1"
definition AP_REQ_DEFAULT_PATH_INFO :: int where "AP_REQ_DEFAULT_PATH_INFO = 2"

definition HUGE_STRING_LEN :: nat where "HUGE_STRING_LEN = 8192"
definition AP_MAX_SENDFILE :: int where "AP_MAX_SENDFILE = 16777216"

text \<open>Of an address the module reads the port only.\<close>

record apr_sockaddr_t =
  sa_port :: int

datatype ap_conn_keepalive_e = AP_CONN_UNKNOWN | AP_CONN_CLOSE | AP_CONN_KEEPALIVE

record conn_rec =
  c_pool :: ptr
  c_base_server :: ptr
  c_vhost_lookup_data :: ptr
  c_local_addr :: apr_sockaddr_t
  c_client_addr :: apr_sockaddr_t
  c_client_ip :: c_ptr
  c_remote_host :: c_ptr
  c_remote_logname :: c_ptr
  c_local_ip :: c_ptr
  c_local_host :: c_ptr
  c_id :: int
  c_conn_config :: ptr
  c_notes :: apr_table
  c_input_filters :: ptr
  c_output_filters :: ptr
  c_sbh :: ptr
  c_bucket_alloc :: ptr
  c_cs :: ptr
  c_data_in_input_filters :: int
  c_data_in_output_filters :: int
  c_clogging_input_filters :: int
  c_double_reverse :: int
  c_aborted :: int
  c_keepalive :: ap_conn_keepalive_e
  c_keepalives :: int
  c_log :: ptr
  c_log_id :: c_ptr
  c_current_thread :: ptr
  c_master :: ptr

record request_rec =
  r_pool :: ptr
  r_connection :: conn_rec
  r_server :: ptr
  r_next :: ptr
  r_prev :: ptr
  r_main :: ptr
  r_the_request :: c_ptr
  r_assbackwards :: int
  r_proxyreq :: int
  r_header_only :: int
  r_proto_num :: int
  r_protocol :: c_ptr
  r_hostname :: c_ptr
  r_request_time :: int
  r_status_line :: c_ptr
  r_status :: int
  r_method_number :: int
  r_method :: c_ptr
  r_allowed :: int
  r_allowed_xmethods :: ptr
  r_allowed_methods :: ptr
  r_sent_bodyct :: int
  r_bytes_sent :: int
  r_mtime :: int
  r_range :: c_ptr
  r_clength :: int
  r_chunked :: int
  r_read_body :: int
  r_read_chunked :: int
  r_expecting_100 :: int
  r_kept_body :: ptr
  r_body_table :: ptr
  r_remaining :: int
  r_read_length :: int
  r_headers_in :: apr_table
  r_headers_out :: apr_table
  r_err_headers_out :: apr_table
  r_subprocess_env :: apr_table
  r_notes :: apr_table
  r_content_type :: c_ptr
  r_handler :: c_ptr
  r_content_encoding :: c_ptr
  r_content_languages :: ptr
  r_vlist_validator :: c_ptr
  r_user :: c_ptr
  r_ap_auth_type :: c_ptr
  r_unparsed_uri :: c_ptr
  r_uri :: c_ptr
  r_filename :: c_ptr
  r_canonical_filename :: c_ptr
  r_path_info :: c_ptr
  r_args :: c_ptr
  r_used_path_info :: int
  r_eos_sent :: int
  r_per_dir_config :: ptr
  r_request_config :: ptr
  r_log :: ptr
  r_log_id :: c_ptr
  r_htaccess :: ptr
  r_output_filters :: ptr
  r_input_filters :: ptr
  r_proto_output_filters :: ptr
  r_proto_input_filters :: ptr
  r_no_cache :: int
  r_no_local_copy :: int
  r_invoke_mtx :: ptr
  r_parsed_uri :: ptr
  r_finfo :: apr_finfo_t
  r_useragent_addr :: ptr
  r_useragent_ip :: c_ptr
  r_trailers_in :: apr_table
  r_trailers_out :: apr_table
  r_useragent_host :: c_ptr
  r_double_reverse :: int

text \<open>A request as the server allocates it, every field zero; witnesses fill fields in.\<close>

definition finfo_zero :: apr_finfo_t where
  "finfo_zero = \<lparr>fi_pool = None, fi_valid = 0, fi_protection = 0, fi_filetype = APR_NOFILE,
     fi_user = None, fi_group = None, fi_inode = 0, fi_device = 0, fi_nlink = 0, fi_size = 0,
     fi_csize = 0, fi_atime = 0, fi_mtime = 0, fi_ctime = 0, fi_fname = None, fi_name = None,
     fi_filehand = None\<rparr>"

definition conn_zero :: conn_rec where
  "conn_zero = \<lparr>c_pool = None, c_base_server = None, c_vhost_lookup_data = None,
     c_local_addr = \<lparr>sa_port = 0\<rparr>, c_client_addr = \<lparr>sa_port = 0\<rparr>, c_client_ip = None,
     c_remote_host = None, c_remote_logname = None, c_local_ip = None, c_local_host = None,
     c_id = 0, c_conn_config = None, c_notes = [], c_input_filters = None,
     c_output_filters = None, c_sbh = None, c_bucket_alloc = None, c_cs = None,
     c_data_in_input_filters = 0, c_data_in_output_filters = 0, c_clogging_input_filters = 0,
     c_double_reverse = 0, c_aborted = 0, c_keepalive = AP_CONN_UNKNOWN, c_keepalives = 0,
     c_log = None, c_log_id = None, c_current_thread = None, c_master = None\<rparr>"

definition request_zero :: request_rec where
  "request_zero = \<lparr>r_pool = None, r_connection = conn_zero, r_server = None, r_next = None,
     r_prev = None, r_main = None, r_the_request = None, r_assbackwards = 0, r_proxyreq = 0,
     r_header_only = 0, r_proto_num = 0, r_protocol = None, r_hostname = None,
     r_request_time = 0, r_status_line = None, r_status = 0, r_method_number = 0,
     r_method = None, r_allowed = 0, r_allowed_xmethods = None, r_allowed_methods = None,
     r_sent_bodyct = 0, r_bytes_sent = 0, r_mtime = 0, r_range = None, r_clength = 0,
     r_chunked = 0, r_read_body = 0, r_read_chunked = 0, r_expecting_100 = 0,
     r_kept_body = None, r_body_table = None, r_remaining = 0, r_read_length = 0,
     r_headers_in = [], r_headers_out = [], r_err_headers_out = [], r_subprocess_env = [],
     r_notes = [], r_content_type = None, r_handler = None, r_content_encoding = None,
     r_content_languages = None, r_vlist_validator = None, r_user = None,
     r_ap_auth_type = None, r_unparsed_uri = None, r_uri = None, r_filename = None,
     r_canonical_filename = None, r_path_info = None, r_args = None, r_used_path_info = 0,
     r_eos_sent = 0, r_per_dir_config = None, r_request_config = None, r_log = None,
     r_log_id = None, r_htaccess = None, r_output_filters = None, r_input_filters = None,
     r_proto_output_filters = None, r_proto_input_filters = None, r_no_cache = 0,
     r_no_local_copy = 0, r_invoke_mtx = None, r_parsed_uri = None, r_finfo = finfo_zero,
     r_useragent_addr = None, r_useragent_ip = None, r_trailers_in = [], r_trailers_out = [],
     r_useragent_host = None, r_double_reverse = 0\<rparr>"

section \<open>Folding system errors\<close>

text \<open>
  \<open>APR_TO_OS_ERROR\<close> undoes \<open>APR_FROM_OS_ERROR\<close> except for the one system error whose
  folded value wraps to zero.
\<close>

lemma from_to_os_error:
  "APR_TO_OS_ERROR (APR_FROM_OS_ERROR e) = e \<longleftrightarrow> e \<noteq> - APR_OS_START_SYSERR"
proof (cases "e = 0")
  case True
  then show ?thesis
    by (simp add: APR_FROM_OS_ERROR_def APR_TO_OS_ERROR_def APR_SUCCESS_def
        APR_OS_START_SYSERR_val)
next
  case False
  have "e + APR_OS_START_SYSERR = 0 \<longleftrightarrow> e = - APR_OS_START_SYSERR"
    by (simp add: eq_neg_iff_add_eq_0)
  with False show ?thesis
    by (auto simp: APR_FROM_OS_ERROR_def APR_TO_OS_ERROR_def APR_SUCCESS_def
        APR_OS_START_SYSERR_val)
qed

end
