(* ===== verification/Module_Config.thy ===== *)
theory Module_Config
  imports Httpd
begin

text \<open>
  The configuration half of \<open>mod/mod_aspdotnet.cpp\<close>: the persistent table of hosts, the
  per-server table of AspNetMount aliases, the per-directory \<open>AspNet\<close> flags, and the three
  directives that fill them with the merge functions that combine them.

  A \<open>asp_net_host_conf_t\<close> is shared: the global table, and the aliases of every server
  that mounts the same pair of paths, hold the same pointer, and \<open>asp_net_post_config\<close>
  later stores the host key through it. The records therefore live in an explicit store
  (\<open>host_store\<close>), and both tables hold addresses. An \<open>apr_hash_t\<close> is a map from its key
  bytes; where the code iterates over one, the order is a parameter.
\<close>

section \<open>State\<close>

type_synonym addr = nat

record asp_net_host_conf =
  h_combined_len :: nat
  h_virtual_path :: string
  h_physical_path :: string
  h_host_key :: int

text \<open>
  \<open>asp_net_conf_t\<close>, with the store its pool allocates the host records from. A COM
  interface pointer is an opaque \<open>ptr\<close>.
\<close>

record asp_net_conf =
  g_hosts :: "string \<rightharpoonup> addr"
  g_pCorRuntime :: ptr
  g_pHostFactory :: ptr
  g_lock_module :: ptr
  g_osver :: int
  g_cor_version :: c_ptr
  g_host_store :: "addr \<rightharpoonup> asp_net_host_conf"
  g_next_host :: addr

text \<open>The structure as \<open>asp_net_pre_config\<close> creates it, zeroed with an empty host table.\<close>

definition new_asp_net_conf :: asp_net_conf where
  "new_asp_net_conf =
     \<lparr>g_hosts = Map.empty, g_pCorRuntime = None, g_pHostFactory = None, g_lock_module = None,
      g_osver = 0, g_cor_version = None, g_host_store = Map.empty, g_next_host = 0\<rparr>"

record asp_net_alias =
  al_virtual_path_len :: nat
  al_virtual_path :: string
  al_host :: addr

record asp_net_srvconf =
  sc_aliases :: "string \<rightharpoonup> asp_net_alias"

definition create_asp_net_srvconf :: asp_net_srvconf where
  "create_asp_net_srvconf = \<lparr>sc_aliases = Map.empty\<rparr>"

text \<open>
  The merge calls \<open>apr_hash_overlay\<close>, which returns the combined table, and returns
  \<open>add\<close>; the library function is the parameter \<open>overlay\<close>.
\<close>

definition merge_asp_net_srvconf ::
  "((string \<rightharpoonup> asp_net_alias) \<Rightarrow> (string \<rightharpoonup> asp_net_alias) \<Rightarrow> (string \<rightharpoonup> asp_net_alias)) \<Rightarrow>
   asp_net_srvconf \<Rightarrow> asp_net_srvconf \<Rightarrow> asp_net_srvconf" where
  "merge_asp_net_srvconf overlay base add =
     (let _ = overlay (sc_aliases add) (sc_aliases base) in add)"

section \<open>AspNetMount\<close>

text \<open>
  The combined key of a mount: the virtual path, a NUL, the physical path and a NUL, in
  one buffer of \<open>combined_len\<close> bytes.
\<close>

definition combined_key :: "string \<Rightarrow> string \<Rightarrow> string" where
  "combined_key uri root = uri @ NUL # root @ [NUL]"

lemma length_combined_key [asp_bounds]:
  "length (combined_key uri root) = length uri + length root + 2"
  by (simp add: combined_key_def)

lemma combined_key_inj:
  assumes "NUL \<notin> set u" "NUL \<notin> set u'" "combined_key u r = combined_key u' r'"
  shows "u = u' \<and> r = r'"
proof -
  have "takeWhile (\<lambda>c. c \<noteq> NUL) (combined_key u r) = takeWhile (\<lambda>c. c \<noteq> NUL) (combined_key u' r')"
    using assms(3) by simp
  then have "c_str (combined_key u r) = c_str (combined_key u' r')"
    by (simp add: c_str_def)
  then have "u = u'"
    using assms(1,2) by (simp add: combined_key_def)
  with assms(3) show ?thesis by (simp add: combined_key_def)
qed

text \<open>
  \<open>mount_cmd\<close>: \<open>fp_merge\<close> is \<open>apr_filepath_merge\<close> from the server root with
  \<open>APR_FILEPATH_TRUENAME\<close> (status and result pointer), \<open>stat\<close> is \<open>apr_stat\<close> for the file
  type (status and type). Both failures are logged and the directive is ignored.
\<close>

definition mount_host :: "asp_net_conf \<Rightarrow> string \<Rightarrow> string \<Rightarrow> asp_net_conf \<times> addr" where
  "mount_host g uri root =
     (let key = combined_key uri root in
      case g_hosts g key of
        Some a \<Rightarrow> (g, a)
      | None \<Rightarrow>
          (let a = g_next_host g;
               h = \<lparr>h_combined_len = length uri + length root + 2, h_virtual_path = uri,
                    h_physical_path = root, h_host_key = -1\<rparr>
           in (g\<lparr>g_hosts := (g_hosts g)(key \<mapsto> a),
                 g_host_store := (g_host_store g)(a \<mapsto> h),
                 g_next_host := Suc a\<rparr>, a)))"

definition mount_cmd ::
  "(string \<Rightarrow> apr_status_t \<times> c_ptr) \<Rightarrow> (string \<Rightarrow> apr_status_t \<times> apr_filetype_e) \<Rightarrow>
   asp_net_conf \<Rightarrow> asp_net_srvconf \<Rightarrow> string \<Rightarrow> string \<Rightarrow>
   asp_net_conf \<times> asp_net_srvconf \<times> log_entry list" where
  "mount_cmd fp_merge stat g sc uri rootarg =
     (case fp_merge rootarg of
        (rv, None) \<Rightarrow>
          (g, sc, [LOG APLOG_ERR rv ''mod_aspdotnet: Failed to resolve the full file pathfor AspNetMount \"%s\" \"%s\"''])
      | (rv, Some root) \<Rightarrow>
          if rv \<noteq> APR_SUCCESS then
            (g, sc, [LOG APLOG_ERR rv ''mod_aspdotnet: Failed to resolve the full file pathfor AspNetMount \"%s\" \"%s\"''])
          else
            (case stat root of (rv', ft) \<Rightarrow>
               if rv' \<noteq> APR_SUCCESS \<or> ft \<noteq> APR_DIR then
                 (g, sc, [LOG APLOG_ERR rv' ''mod_aspdotnet: File path is not a directory, or could not stat path for AspNetMount \"%s\" \"%s\"''])
               else
                 (let (g', a) = mount_host g uri root;
                      mount = \<lparr>al_virtual_path_len = length uri, al_virtual_path = uri, al_host = a\<rparr>
                  in (g', sc\<lparr>sc_aliases := (sc_aliases sc)(uri \<mapsto> mount)\<rparr>, []))))"

section \<open>AspNetVersion\<close>

definition version_cmd :: "asp_net_conf \<Rightarrow> string \<Rightarrow> asp_net_conf" where
  "version_cmd g ver = g\<lparr>g_cor_version := Some ver\<rparr>"

section \<open>The AspNet flags\<close>

text \<open>
  The enumeration is written with the C operator \<open>^\<close>, which is exclusive or: the values
  below are the ones the compiler computes.
\<close>

definition ASPNET_OFF :: "32 word" where "ASPNET_OFF = 0"
definition ASPNET_UNSET :: "32 word" where "ASPNET_UNSET = 2 XOR 0"
definition ASPNET_FILES :: "32 word" where "ASPNET_FILES = 2 XOR 1"
definition ASPNET_DIRS :: "32 word" where "ASPNET_DIRS = 2 XOR 2"
definition ASPNET_VIRTUAL :: "32 word" where "ASPNET_VIRTUAL = 2 XOR 3"

lemmas aspnet_flag_defs = ASPNET_OFF_def ASPNET_UNSET_def ASPNET_FILES_def ASPNET_DIRS_def
  ASPNET_VIRTUAL_def

lemma aspnet_flag_values [simp]:
  "ASPNET_OFF = 0" "ASPNET_UNSET = 2" "ASPNET_FILES = 3" "ASPNET_DIRS = 0" "ASPNET_VIRTUAL = 1"
  by (simp_all add: aspnet_flag_defs)

record asp_net_dirconf =
  dc_enable :: "32 word"

definition create_asp_net_dirconf :: asp_net_dirconf where
  "create_asp_net_dirconf = \<lparr>dc_enable = ASPNET_UNSET\<rparr>"

text \<open>The merge computes \<open>res\<close> and returns \<open>add\<close>.\<close>

definition merge_asp_net_dirconf :: "asp_net_dirconf \<Rightarrow> asp_net_dirconf \<Rightarrow> asp_net_dirconf" where
  "merge_asp_net_dirconf base add =
     (let res = \<lparr>dc_enable = (if dc_enable add = ASPNET_UNSET then dc_enable base
                              else dc_enable add)\<rparr>
      in add)"

text \<open>One option word of the directive; \<open>Inl\<close> is the message returned to the core.\<close>

definition enable_option :: "string \<Rightarrow> 32 word \<Rightarrow> string + 32 word" where
  "enable_option w en =
     (if strcasecmp_eq w ''on'' \<or> strcasecmp_eq w ''all''
      then Inr (ASPNET_FILES OR ASPNET_DIRS OR ASPNET_VIRTUAL)
      else if strcasecmp_eq w ''off'' \<or> strcasecmp_eq w ''none'' then Inr ASPNET_OFF
      else if strcasecmp_eq w ''files'' then Inr (en OR ASPNET_FILES)
      else if strcasecmp_eq w ''dirs'' \<or> strcasecmp_eq w ''directories''
      then Inr (en OR ASPNET_DIRS)
      else if strcasecmp_eq w ''virtual'' then Inr (en OR ASPNET_VIRTUAL)
      else Inl (''Unrecognized AspNet option '' @ w))"

text \<open>
  The loop over the raw argument string. \<open>getword\<close> is \<open>ap_getword_conf\<close>: the next word
  and the rest of the line. The loop ends only if the rest gets shorter, which is a
  property of the library, so a run that never ends is the value \<open>None\<close>. The result is
  the flags reached (the directive keeps them even when it fails) and the error returned.
\<close>

partial_function (option) set_aspnet_enable_loop ::
  "(string \<Rightarrow> string \<times> string) \<Rightarrow> 32 word \<Rightarrow> string \<Rightarrow> (32 word \<times> c_ptr) option" where
  "set_aspnet_enable_loop getword en enables =
     (if enables = [] then Some (en, None)
      else case getword enables of (w, rest) \<Rightarrow>
        (case enable_option w en of
           Inl msg \<Rightarrow> Some (en, Some msg)
         | Inr en' \<Rightarrow> set_aspnet_enable_loop getword en' rest))"

definition set_aspnet_enable ::
  "(string \<Rightarrow> string \<times> string) \<Rightarrow> asp_net_dirconf \<Rightarrow> string \<Rightarrow> (asp_net_dirconf \<times> c_ptr) option" where
  "set_aspnet_enable getword dc enables =
     map_option (\<lambda>(en, msg). (dc\<lparr>dc_enable := en\<rparr>, msg))
       (set_aspnet_enable_loop getword ASPNET_OFF enables)"

section \<open>Lemmas on the mount tables\<close>

text \<open>
  The invariant of the tables: every key of the global table is the combined key of the
  record it points to, addresses are fresh from \<open>g_next_host\<close> on, and distinct keys point
  to distinct records.
\<close>

definition hosts_wf :: "asp_net_conf \<Rightarrow> bool" where
  "hosts_wf g \<longleftrightarrow>
     (\<forall>k a. g_hosts g k = Some a \<longrightarrow>
        a < g_next_host g \<and>
        (\<exists>h. g_host_store g a = Some h \<and>
             k = combined_key (h_virtual_path h) (h_physical_path h) \<and>
             h_combined_len h = length k)) \<and>
     (\<forall>a h. g_host_store g a = Some h \<longrightarrow> a < g_next_host g \<and> NUL \<notin> set (h_virtual_path h))"

definition aliases_wf :: "asp_net_conf \<Rightarrow> asp_net_srvconf \<Rightarrow> bool" where
  "aliases_wf g sc \<longleftrightarrow>
     (\<forall>u al. sc_aliases sc u = Some al \<longrightarrow>
        al_virtual_path al = u \<and> al_virtual_path_len al = length u \<and>
        (\<exists>h. g_host_store g (al_host al) = Some h \<and> h_virtual_path h = u))"

lemma hosts_wfD:
  assumes "hosts_wf g" "g_hosts g k = Some a"
  obtains h where "g_host_store g a = Some h" "a < g_next_host g"
    "k = combined_key (h_virtual_path h) (h_physical_path h)" "h_combined_len h = length k"
  using assms unfolding hosts_wf_def by blast

lemma hosts_wf_storeD:
  "hosts_wf g \<Longrightarrow> g_host_store g a = Some h \<Longrightarrow> a < g_next_host g \<and> NUL \<notin> set (h_virtual_path h)"
  by (simp add: hosts_wf_def)

lemma hosts_wf_fresh: "hosts_wf g \<Longrightarrow> g_host_store g (g_next_host g) = None"
  by (cases "g_host_store g (g_next_host g)") (auto dest: hosts_wf_storeD)

lemma hosts_wf_bound: "hosts_wf g \<Longrightarrow> g_hosts g k = Some a \<Longrightarrow> a < g_next_host g"
  by (erule (1) hosts_wfD)

lemma hosts_wf_inj:
  assumes "hosts_wf g" "g_hosts g k = Some a" "g_hosts g k' = Some a"
  shows "k = k'"
proof -
  obtain h where "g_host_store g a = Some h" "k = combined_key (h_virtual_path h) (h_physical_path h)"
    using assms(1,2) by (rule hosts_wfD)
  moreover obtain h' where "g_host_store g a = Some h'"
      "k' = combined_key (h_virtual_path h') (h_physical_path h')"
    using assms(1,3) by (rule hosts_wfD)
  ultimately show ?thesis by simp
qed

text \<open>What \<open>mount_host\<close> returns: a record for exactly this pair of paths.\<close>

lemma mount_host_record:
  assumes wf: "hosts_wf g" and u: "NUL \<notin> set uri" and mh: "mount_host g uri root = (g', a)"
  obtains h where "g_host_store g' a = Some h" "h_virtual_path h = uri" "h_physical_path h = root"
proof (cases "g_hosts g (combined_key uri root)")
  case None
  with mh have "g_host_store g' a =
      Some \<lparr>h_combined_len = length uri + length root + 2, h_virtual_path = uri,
            h_physical_path = root, h_host_key = -1\<rparr>"
    by (auto simp: mount_host_def Let_def)
  then show ?thesis by (rule that) simp_all
next
  case (Some b)
  with mh have eq: "g' = g" "b = a" by (auto simp: mount_host_def)
  obtain h where
    h: "g_host_store g b = Some h"
       "combined_key uri root = combined_key (h_virtual_path h) (h_physical_path h)"
    using wf Some by (rule hosts_wfD)
  have "NUL \<notin> set (h_virtual_path h)" using hosts_wf_storeD [OF wf h(1)] by simp
  from combined_key_inj [OF u this h(2)]
  have "uri = h_virtual_path h \<and> root = h_physical_path h" .
  with h(1) eq show ?thesis by (intro that) auto
qed

lemma mount_host_wf:
  assumes wf: "hosts_wf g" and u: "NUL \<notin> set uri" and mh: "mount_host g uri root = (g', a)"
  shows "hosts_wf g'"
proof (cases "g_hosts g (combined_key uri root)")
  case (Some b)
  with mh wf show ?thesis by (auto simp: mount_host_def)
next
  case None
  let ?h = "\<lparr>h_combined_len = length uri + length root + 2, h_virtual_path = uri,
            h_physical_path = root, h_host_key = -1\<rparr>"
  from None mh have g': "g' = g\<lparr>g_hosts := (g_hosts g)(combined_key uri root \<mapsto> g_next_host g),
       g_host_store := (g_host_store g)(g_next_host g \<mapsto> ?h), g_next_host := Suc (g_next_host g)\<rparr>"
    by (auto simp: mount_host_def Let_def)
  show ?thesis
    unfolding hosts_wf_def
  proof (intro conjI allI impI)
    fix k b assume "g_hosts g' k = Some b"
    then have "b = g_next_host g \<or> g_hosts g k = Some b"
      by (simp add: g' split: if_split_asm)
    then have "b \<le> g_next_host g"
      using hosts_wf_bound [OF wf, of k b] by linarith
    then show "b < g_next_host g'" by (simp add: g')
  next
    fix k b assume k: "g_hosts g' k = Some b"
    show "\<exists>h. g_host_store g' b = Some h \<and>
          k = combined_key (h_virtual_path h) (h_physical_path h) \<and> h_combined_len h = length k"
    proof (cases "k = combined_key uri root")
      case True
      with k show ?thesis by (auto simp: g' length_combined_key)
    next
      case False
      with k have "g_hosts g k = Some b" by (simp add: g')
      then obtain h where "g_host_store g b = Some h" "b < g_next_host g"
          "k = combined_key (h_virtual_path h) (h_physical_path h)" "h_combined_len h = length k"
        by (rule hosts_wfD [OF wf])
      then show ?thesis by (simp add: g')
    qed
  next
    fix b h assume b: "g_host_store g' b = Some h"
    show "b < g_next_host g'" "NUL \<notin> set (h_virtual_path h)"
      using b u hosts_wf_storeD [OF wf, of b h] by (auto simp: g' split: if_splits)
  qed
qed

lemma mount_host_extends:
  assumes wf: "hosts_wf g" and mh: "mount_host g uri root = (g', a)"
    and b: "g_host_store g b = Some h"
  shows "g_host_store g' b = Some h"
proof -
  from b hosts_wf_fresh [OF wf] have "b \<noteq> g_next_host g" by auto
  with mh b show ?thesis
    by (auto simp: mount_host_def Let_def split: option.splits)
qed

lemma mount_host_hosts:
  "mount_host g uri root = (g', a) \<Longrightarrow> g_hosts g' (combined_key uri root) = Some a"
  by (auto simp: mount_host_def Let_def split: option.splits)

lemma aliases_wf_extend:
  assumes "aliases_wf g sc" "hosts_wf g" "mount_host g uri root = (g', a)"
  shows "aliases_wf g' sc"
  using assms mount_host_extends [OF assms(2,3)] unfolding aliases_wf_def by metis

text \<open>\<open>mount_cmd\<close> on the path that mounts.\<close>

lemma mount_cmd_ok:
  assumes "fp_merge rootarg = (APR_SUCCESS, Some root)" "stat root = (APR_SUCCESS, APR_DIR)"
    "mount_host g uri root = (g', a)"
  shows "mount_cmd fp_merge stat g sc uri rootarg =
    (g', sc\<lparr>sc_aliases := (sc_aliases sc)(uri \<mapsto>
        \<lparr>al_virtual_path_len = length uri, al_virtual_path = uri, al_host = a\<rparr>)\<rparr>, [])"
  using assms by (simp add: mount_cmd_def)

section \<open>Lemmas on the AspNet flags\<close>

text \<open>
  \<open>splits getword line ws\<close>: reading \<open>line\<close> word by word gives \<open>ws\<close> and uses the line up.
\<close>

inductive splits :: "(string \<Rightarrow> string \<times> string) \<Rightarrow> string \<Rightarrow> string list \<Rightarrow> bool"
  for getword where
  splits_Nil: "splits getword [] []"
| splits_Cons: "line \<noteq> [] \<Longrightarrow> getword line = (w, rest) \<Longrightarrow> splits getword rest ws \<Longrightarrow>
    splits getword line (w # ws)"

inductive_simps splits_empty [simp]: "splits getword [] ws"

text \<open>The words of a directive, read one after the other.\<close>

fun read_options :: "32 word \<Rightarrow> string list \<Rightarrow> 32 word \<times> c_ptr" where
  "read_options en [] = (en, None)"
| "read_options en (w # ws) =
     (case enable_option w en of Inl msg \<Rightarrow> (en, Some msg) | Inr en' \<Rightarrow> read_options en' ws)"

lemma set_aspnet_enable_loop_splits:
  "splits getword line ws \<Longrightarrow>
     set_aspnet_enable_loop getword en line = Some (read_options en ws)"
proof (induction arbitrary: en rule: splits.induct)
  case splits_Nil
  show ?case by (simp add: set_aspnet_enable_loop.simps)
next
  case (splits_Cons line w rest ws)
  then show ?case
    by (subst set_aspnet_enable_loop.simps) (simp split: sum.split)
qed

lemma getword_splits:
  assumes "\<And>s. s \<noteq> [] \<Longrightarrow> length (snd (getword s)) < length s"
  shows "\<exists>ws. splits getword line ws"
proof (induction "length line" arbitrary: line rule: less_induct)
  case less
  show ?case
  proof (cases "line = []")
    case True
    then show ?thesis by auto
  next
    case False
    obtain w rest where gw: "getword line = (w, rest)" by (cases "getword line")
    with assms [OF False] have "length rest < length line" by simp
    with less obtain ws where "splits getword rest ws" by blast
    with False gw show ?thesis by (blast intro: splits_Cons)
  qed
qed

text \<open>The flag values the directive can leave behind.\<close>

definition flag_values :: "32 word set" where
  "flag_values = {0, 1, 3}"

lemma enable_option_values:
  assumes "enable_option w en = Inr en'" "en \<in> flag_values"
  shows "en' \<in> flag_values"
  using assms by (auto simp: enable_option_def flag_values_def split: if_splits)

lemma read_options_values:
  "en \<in> flag_values \<Longrightarrow> fst (read_options en ws) \<in> flag_values"
  by (induction en ws rule: read_options.induct)
     (auto split: sum.splits dest: enable_option_values)

section \<open>Properties\<close>

text \<open>C37: a successful AspNetMount leaves, at the URI of the directive, an alias whose host
  record holds exactly that virtual path and the resolved physical path and is the entry of
  the global table for the pair; it preserves the invariants of both tables, and every host
  record that existed before (its host key included) is unchanged.\<close>

theorem mount_cmd_correct:
  assumes wf: "hosts_wf g" "aliases_wf g sc" and u: "NUL \<notin> set uri"
    and fp: "fp_merge rootarg = (APR_SUCCESS, Some root)" and st: "stat root = (APR_SUCCESS, APR_DIR)"
    and run: "mount_cmd fp_merge stat g sc uri rootarg = (g', sc', log)"
  shows "(\<exists>al h. sc_aliases sc' uri = Some al \<and> g_host_store g' (al_host al) = Some h \<and>
            h_virtual_path h = uri \<and> h_physical_path h = root \<and>
            g_hosts g' (combined_key uri root) = Some (al_host al)) \<and>
         hosts_wf g' \<and> aliases_wf g' sc' \<and> log = [] \<and>
         (\<forall>b hb. g_host_store g b = Some hb \<longrightarrow> g_host_store g' b = Some hb)"
proof -
  obtain g1 a where mh: "mount_host g uri root = (g1, a)" by (cases "mount_host g uri root")
  have eq: "g' = g1" "log = []" "sc' = sc\<lparr>sc_aliases := (sc_aliases sc)(uri \<mapsto>
        \<lparr>al_virtual_path_len = length uri, al_virtual_path = uri, al_host = a\<rparr>)\<rparr>"
    using run mount_cmd_ok [of fp_merge rootarg root stat g uri g1 a sc, OF fp st mh] by auto
  obtain h where h: "g_host_store g1 a = Some h" "h_virtual_path h = uri" "h_physical_path h = root"
    using mount_host_record [OF wf(1) u mh] by blast
  have "hosts_wf g'" using mount_host_wf [OF wf(1) u mh] by (simp add: eq)
  moreover have "aliases_wf g' sc'"
    using aliases_wf_extend [OF wf(2,1) mh] h by (auto simp: aliases_wf_def eq)
  ultimately show ?thesis
    using h mount_host_hosts [OF mh] mount_host_extends [OF wf(1) mh] by (simp add: eq)
qed

theorem mount_cmd_correct_witness:
  "\<exists>g' sc'. mount_cmd (\<lambda>r. (APR_SUCCESS, Some (''C:/'' @ r))) (\<lambda>_. (APR_SUCCESS, APR_DIR))
       new_asp_net_conf create_asp_net_srvconf ''/app'' ''app'' = (g', sc', []) \<and>
     (\<exists>al h. sc_aliases sc' ''/app'' = Some al \<and> g_host_store g' (al_host al) = Some h \<and>
        h_physical_path h = ''C:/app'')"
proof -
  let ?fp = "\<lambda>r. (APR_SUCCESS, Some (''C:/'' @ r))" and ?st = "\<lambda>_. (APR_SUCCESS, APR_DIR)"
  obtain g' sc' log where run:
    "mount_cmd ?fp ?st new_asp_net_conf create_asp_net_srvconf ''/app'' ''app'' = (g', sc', log)"
    by (metis prod_cases3)
  have "hosts_wf new_asp_net_conf" "aliases_wf new_asp_net_conf create_asp_net_srvconf"
    by (simp_all add: hosts_wf_def aliases_wf_def new_asp_net_conf_def create_asp_net_srvconf_def)
  from mount_cmd_correct [OF this _ _ _ run, of "''C:/app''"] run show ?thesis by auto
qed

text \<open>mounting the same pair of paths again, for any server and on any later pass over the
  configuration, finds the record of the first mount: the global state is unchanged (no host
  key is reset, no record allocated) and the two aliases share one host record.\<close>

theorem mount_cmd_shares_host:
  assumes fp: "fp_merge rootarg = (APR_SUCCESS, Some root)" and st: "stat root = (APR_SUCCESS, APR_DIR)"
    and first: "mount_cmd fp_merge stat g sc uri rootarg = (g1, sc1, log1)"
    and later: "g_hosts g2 (combined_key uri root) = g_hosts g1 (combined_key uri root)"
    and second: "mount_cmd fp_merge stat g2 sc' uri rootarg = (g3, sc3, log3)"
  shows "g3 = g2 \<and> map_option al_host (sc_aliases sc3 uri) = map_option al_host (sc_aliases sc1 uri)"
proof -
  obtain ga a where m1: "mount_host g uri root = (ga, a)" by (cases "mount_host g uri root")
  have eq1: "g1 = ga" "map_option al_host (sc_aliases sc1 uri) = Some a"
    using first mount_cmd_ok [of fp_merge rootarg root stat g uri ga a sc, OF fp st m1] by auto
  from later mount_host_hosts [OF m1] have m2: "mount_host g2 uri root = (g2, a)"
    by (simp add: mount_host_def eq1)
  show ?thesis
    using second mount_cmd_ok [of fp_merge rootarg root stat g2 uri g2 a sc', OF fp st m2] eq1
    by auto
qed

theorem mount_cmd_shares_host_witness:
  "\<exists>g1 sc1 sc3.
     mount_cmd (\<lambda>r. (APR_SUCCESS, Some r)) (\<lambda>_. (APR_SUCCESS, APR_DIR))
       new_asp_net_conf create_asp_net_srvconf ''/a'' ''C:/a'' = (g1, sc1, []) \<and>
     mount_cmd (\<lambda>r. (APR_SUCCESS, Some r)) (\<lambda>_. (APR_SUCCESS, APR_DIR))
       g1 create_asp_net_srvconf ''/a'' ''C:/a'' = (g1, sc3, []) \<and>
     map_option al_host (sc_aliases sc3 ''/a'') = Some 0"
proof -
  let ?fp = "\<lambda>r. (APR_SUCCESS, Some r)" and ?st = "\<lambda>_. (APR_SUCCESS, APR_DIR)"
  obtain g1 sc1 l1 where r1:
    "mount_cmd ?fp ?st new_asp_net_conf create_asp_net_srvconf ''/a'' ''C:/a'' = (g1, sc1, l1)"
    by (metis prod_cases3)
  obtain g3 sc3 l3 where r3: "mount_cmd ?fp ?st g1 create_asp_net_srvconf ''/a'' ''C:/a'' = (g3, sc3, l3)"
    by (metis prod_cases3)
  have "l1 = []" "l3 = []" "map_option al_host (sc_aliases sc1 ''/a'') = Some 0"
    using r1 r3 by (auto simp: mount_cmd_def mount_host_def new_asp_net_conf_def Let_def
        split: prod.splits option.splits)
  with r1 r3 mount_cmd_shares_host [OF _ _ r1 refl r3, of "''C:/a''"] show ?thesis by auto
qed

text \<open>A directive whose path does not resolve, or resolves to something that is no
  directory, changes nothing: exactly one error is logged, and the configuration goes on
  without the mount.\<close>

theorem mount_cmd_error:
  assumes "\<not> (\<exists>root. fp_merge rootarg = (APR_SUCCESS, Some root) \<and> stat root = (APR_SUCCESS, APR_DIR))"
  shows "\<exists>e. mount_cmd fp_merge stat g sc uri rootarg = (g, sc, [e]) \<and> log_level e = APLOG_ERR"
  using assms by (auto simp: mount_cmd_def split: prod.splits option.splits)

theorem mount_cmd_error_witness:
  "\<exists>e. mount_cmd (\<lambda>r. (APR_SUCCESS, Some r)) (\<lambda>_. (APR_SUCCESS, APR_REG))
     new_asp_net_conf create_asp_net_srvconf ''/a'' ''x'' = (new_asp_net_conf, create_asp_net_srvconf, [e])"
  using mount_cmd_error [of "\<lambda>r. (APR_SUCCESS, Some r)" "''x''" "\<lambda>_. (APR_SUCCESS, APR_REG)"
      new_asp_net_conf create_asp_net_srvconf "''/a''"]
  by auto

text \<open>if every word read shortens the rest of the line, the \<open>AspNet\<close> directive returns on
  every line, with the flags of its words read from left to right; the flags it leaves are
  one of 0, 1 and 3, never a value with a bit for directories.\<close>

theorem set_aspnet_enable_returns:
  assumes "\<And>s. s \<noteq> [] \<Longrightarrow> length (snd (getword s)) < length s"
  shows "\<exists>ws dc' msg. splits getword line ws \<and>
           set_aspnet_enable getword dc line = Some (dc', msg) \<and>
           (dc_enable dc', msg) = read_options ASPNET_OFF ws \<and> dc_enable dc' \<in> {0, 1, 3}"
proof -
  obtain ws where ws: "splits getword line ws" using getword_splits [of getword] assms by blast
  obtain en msg where ro: "read_options ASPNET_OFF ws = (en, msg)" by fastforce
  have "en \<in> flag_values"
    using read_options_values [of ASPNET_OFF ws] ro by (simp add: flag_values_def)
  with ws ro set_aspnet_enable_loop_splits [OF ws, of ASPNET_OFF] show ?thesis
    by (auto simp: set_aspnet_enable_def flag_values_def)
qed

theorem set_aspnet_enable_returns_witness:
  "\<exists>dc' msg. set_aspnet_enable (\<lambda>s. (''Dirs'', [])) create_asp_net_dirconf ''Dirs'' = Some (dc', msg) \<and>
     dc_enable dc' \<in> {0, 1, 3}"
  using set_aspnet_enable_returns [of "\<lambda>s. (''Dirs'', [])" "''Dirs''" create_asp_net_dirconf] by auto

end
