(* ===== verification/Module_Handler.thy ===== *)
theory Module_Handler
  imports Module_Config
begin

text \<open>
  The content handler of \<open>mod/mod_aspdotnet.cpp\<close>, \<open>asp_net_handler\<close>: the checks of the
  request, the search of the server's mounts, the initialisation of COM on the thread and
  the call of the host factory, with the three handlers of its exceptions.

  The call of the factory is the parameter \<open>handle\<close> over the factory's state \<open>'f\<close> and the
  request, which it changes. The iteration order of the alias table is the list \<open>iter\<close>.
\<close>

section \<open>The checks of the request\<close>

text \<open>What leaves the \<open>try\<close> block, by the handler that catches it.\<close>

datatype native_exn = ComError hresult c_ptr | HresultExn hresult | UnknownExn

text \<open>A request is answered with a status, or the process follows a null pointer.\<close>

datatype handler_result = Status int | HandlerFault

abbreviation RERR :: "string \<Rightarrow> log_entry" where
  "RERR t \<equiv> LOG (APLOG_ERR OR APLOG_NOERRNO) 0 t"

text \<open>
  The tests up to the search of the mounts: \<open>Some\<close> is an early return with its log
  entries, \<open>None\<close> goes on.
\<close>

definition check_filetype :: "asp_net_dirconf \<Rightarrow> apr_filetype_e \<Rightarrow> (int \<times> log_entry list) option" where
  "check_filetype dc ft =
     (if ft = APR_REG then
        (if dc_enable dc AND ASPNET_FILES = 0 then
           Some (HTTP_FORBIDDEN, [RERR ''mod_aspdotnet: Forbidden, 'AspNet Files' is not enabled for: %s (file %s)''])
         else None)
      else if ft = APR_DIR then
        (if dc_enable dc AND ASPNET_DIRS = 0 then
           Some (HTTP_FORBIDDEN, [RERR ''mod_aspdotnet: Forbidden, 'AspNet Dirs' is not enabled for: %s (directory %s)''])
         else None)
      else if ft = APR_NOFILE then
        (if dc_enable dc AND ASPNET_VIRTUAL = 0 then
           Some (HTTP_NOT_FOUND,
             RERR ''mod_aspdotnet: Forbidden, 'AspNet Virtual'is not enabled for: %s'' #
             (if dc_enable dc AND (ASPNET_FILES OR ASPNET_DIRS) \<noteq> 0
              then [RERR ''mod_aspdotnet: File not found or unable to stat: %s''] else []))
         else None)
      else Some (HTTP_NOT_FOUND,
             [RERR ''mod_aspdotnet: Invalid file type for: %s (it is not a recognized file or directory)'']))"

definition absolute_uri :: "c_ptr \<Rightarrow> bool" where
  "absolute_uri uri = (case uri of Some (c # _) \<Rightarrow> c = CHR ''/'' | _ \<Rightarrow> False)"

definition rejects_path_info :: "request_rec \<Rightarrow> bool" where
  "rejects_path_info r \<longleftrightarrow>
     r_used_path_info r = AP_REQ_REJECT_PATH_INFO \<and>
     (case r_path_info r of Some (_ # _) \<Rightarrow> True | _ \<Rightarrow> False)"

definition check_request :: "asp_net_dirconf \<Rightarrow> request_rec \<Rightarrow> (int \<times> log_entry list) option" where
  "check_request dc r =
     (if r_handler r \<noteq> Some ''asp.net'' then Some (DECLINED, [])
      else if \<not> absolute_uri (r_uri r) then
        Some (HTTP_FORBIDDEN, [RERR ''mod_aspdotnet: Forbidden, request URI was not absolute: %s''])
      else case check_filetype dc (fi_filetype (r_finfo r)) of
        Some e \<Rightarrow> Some e
      | None \<Rightarrow>
          if rejects_path_info r then
            Some (HTTP_NOT_FOUND, [RERR ''mod_aspdotnet: AcceptPathInfo off for %s disallows user's path %s''])
          else None)"

section \<open>The search of the mounts\<close>

fun find_mount :: "asp_net_alias list \<Rightarrow> string \<Rightarrow> addr option" where
  "find_mount [] uri = None"
| "find_mount (al # als) uri =
     (if strncasecmp_eq (al_virtual_path al) uri (al_virtual_path_len al)
      then Some (al_host al) else find_mount als uri)"

section \<open>The handler\<close>

definition co_init :: "hresult \<Rightarrow> hresult \<Rightarrow> hresult" where
  "co_init coinitex coinit = (if coinitex = RPC_E_CHANGED_MODE then coinit else coinitex)"

text \<open>The status and log of the \<open>try\<close> statement around the call of the factory.\<close>

definition handler_status :: "native_exn + int \<Rightarrow> int \<times> log_entry list" where
  "handler_status res =
     (case res of
        Inr st \<Rightarrow> (st, [])
      | Inl (ComError hr desc) \<Rightarrow>
          (HTTP_INTERNAL_SERVER_ERROR,
           LOG APLOG_ERR (APR_FROM_OS_ERROR hr) ''mod_aspdotnet: CreateRequest %s processing failed, file %s'' #
           (case desc of None \<Rightarrow> []
            | Some d \<Rightarrow> [LOG APLOG_ERR (APR_FROM_OS_ERROR hr) (''mod_aspdotnet: '' @ d)]))
      | Inl (HresultExn hr) \<Rightarrow>
          (HTTP_INTERNAL_SERVER_ERROR,
           [LOG APLOG_ERR (APR_FROM_OS_ERROR hr) ''mod_aspdotnet: CreateRequest %s processing failed, file %s''])
      | Inl UnknownExn \<Rightarrow>
          (HTTP_INTERNAL_SERVER_ERROR,
           [RERR ''mod_aspdotnet: CreateRequest %s processing failed, file %s'']))"

definition asp_net_handler ::
  "(int \<Rightarrow> request_rec \<Rightarrow> 'f \<Rightarrow> (native_exn + int) \<times> request_rec \<times> 'f) \<Rightarrow>
   (request_rec \<Rightarrow> request_rec) \<Rightarrow> (request_rec \<Rightarrow> request_rec) \<Rightarrow> hresult \<Rightarrow> hresult \<Rightarrow>
   (asp_net_srvconf \<Rightarrow> asp_net_alias list) \<Rightarrow> asp_net_conf \<Rightarrow> asp_net_srvconf \<Rightarrow> asp_net_dirconf \<Rightarrow>
   request_rec \<Rightarrow> 'f \<Rightarrow> handler_result \<times> request_rec \<times> 'f \<times> log_entry list" where
  "asp_net_handler handle add_common_vars add_cgi_vars coinitex coinit iter g sc dc r f =
     (case check_request dc r of
        Some (st, log) \<Rightarrow> (Status st, r, f, log)
      | None \<Rightarrow>
     (case find_mount (iter sc) (the (r_uri r)) of
        None \<Rightarrow> (Status HTTP_INTERNAL_SERVER_ERROR, r, f,
                   [RERR ''mod_aspdotnet: No AspNetMount URI for request: %s''])
      | Some a \<Rightarrow>
     (let r = add_cgi_vars (add_common_vars r);
          hr = co_init coinitex coinit in
      if FAILED hr then
        (Status HTTP_INTERNAL_SERVER_ERROR, r, f,
         [LOG APLOG_ERR (APR_FROM_OS_ERROR hr) ''mod_aspdotnet: CoInitialize failed!''])
      else
        (case (g_host_store g a, g_pHostFactory g) of
           (Some h, Some _) \<Rightarrow>
             (let (res, r, f) = handle (h_host_key h) r f; (st, log) = handler_status res
              in (Status st, r, f, log))
         | _ \<Rightarrow> (HandlerFault, r, f, [])))))"

section \<open>Lemmas\<close>

text \<open>A mount covers a request URI when its path is a prefix of it, letter case aside.\<close>

definition covers :: "string \<Rightarrow> string \<Rightarrow> bool" where
  "covers path uri \<longleftrightarrow>
     length path \<le> length uri \<and> map c_tolower path = map c_tolower (take (length path) uri)"

lemma find_mount_Some:
  assumes "find_mount als uri = Some a" "\<forall>al \<in> set als. al_virtual_path_len al = length (al_virtual_path al)"
  shows "\<exists>al \<in> set als. al_host al = a \<and> covers (al_virtual_path al) uri"
  using assms
  by (induction als) (auto simp: covers_def strncasecmp_eq_prefix split: if_splits)

lemma find_mount_None:
  assumes "\<forall>al \<in> set als. al_virtual_path_len al = length (al_virtual_path al)"
  shows "find_mount als uri = None \<longleftrightarrow> (\<forall>al \<in> set als. \<not> covers (al_virtual_path al) uri)"
  using assms
  by (induction als) (auto simp: covers_def strncasecmp_eq_prefix)

lemma find_mount_first:
  assumes "covers (al_virtual_path al) uri" "al_virtual_path_len al = length (al_virtual_path al)"
  shows "find_mount (al # als) uri = Some (al_host al)"
  using assms by (simp add: covers_def strncasecmp_eq_prefix)

lemma aliases_wf_len:
  assumes "aliases_wf g sc" "set als = ran (sc_aliases sc)"
  shows "\<forall>al \<in> set als. al_virtual_path_len al = length (al_virtual_path al)"
  using assms by (auto simp: aliases_wf_def ran_def)

lemma aliases_wf_host:
  assumes "aliases_wf g sc" "al \<in> ran (sc_aliases sc)"
  shows "\<exists>h. g_host_store g (al_host al) = Some h \<and> h_virtual_path h = al_virtual_path al"
  using assms by (auto simp: aliases_wf_def ran_def)

lemma find_mount_host:
  assumes "aliases_wf g sc" "set als = ran (sc_aliases sc)" "find_mount als uri = Some a"
  shows "\<exists>h. g_host_store g a = Some h \<and> covers (h_virtual_path h) uri"
proof -
  obtain al where al: "al \<in> set als" "al_host al = a" "covers (al_virtual_path al) uri"
    using find_mount_Some [OF assms(3) aliases_wf_len [OF assms(1,2)]] by blast
  then show ?thesis using aliases_wf_host [OF assms(1), of al] assms(2) by auto
qed

lemma find_mount_iff_covered:
  assumes "aliases_wf g sc" "set als = ran (sc_aliases sc)"
  shows "find_mount als uri = None \<longleftrightarrow> (\<forall>u \<in> dom (sc_aliases sc). \<not> covers u uri)"
proof -
  have "(\<forall>al \<in> ran (sc_aliases sc). \<not> covers (al_virtual_path al) uri) \<longleftrightarrow>
        (\<forall>u \<in> dom (sc_aliases sc). \<not> covers u uri)"
    using assms(1) by (auto simp: aliases_wf_def ran_def dom_def)
  then show ?thesis
    using find_mount_None [OF aliases_wf_len [OF assms]] assms(2) by simp
qed

text \<open>The values a directory configuration can hold: unset, or what the directive leaves.\<close>

lemma flag_cases: "en \<in> insert ASPNET_UNSET flag_values \<longleftrightarrow> en = 0 \<or> en = 1 \<or> en = 2 \<or> en = 3"
  by (auto simp: flag_values_def)

lemma flag_masks [simp]:
  "(0 :: 32 word) AND 3 = 0" "(1 :: 32 word) AND 3 = 1" "(2 :: 32 word) AND 3 = 2"
  "(3 :: 32 word) AND 3 = 3" "(2 :: 32 word) AND 1 = 0" "(3 :: 32 word) AND 1 = 1"
  by simp_all

text \<open>What passes the file type check, over those values.\<close>

lemma check_filetype_None:
  assumes "dc_enable dc \<in> insert ASPNET_UNSET flag_values"
  shows "check_filetype dc ft = None \<longleftrightarrow>
           ft = APR_REG \<and> dc_enable dc \<noteq> 0 \<or> ft = APR_NOFILE \<and> dc_enable dc \<in> {1, 3}"
  using assms unfolding flag_cases
  by (elim disjE) (auto simp: check_filetype_def)

lemma check_filetype_dir:
  "check_filetype dc APR_DIR =
     Some (HTTP_FORBIDDEN, [RERR ''mod_aspdotnet: Forbidden, 'AspNet Dirs' is not enabled for: %s (directory %s)''])"
  by (simp add: check_filetype_def)

text \<open>Every early return has one of four codes.\<close>

lemma check_request_codes:
  "check_request dc r = Some (st, log) \<Longrightarrow> st = DECLINED \<and> log = [] \<or> st \<in> {HTTP_FORBIDDEN, HTTP_NOT_FOUND} \<and> log \<noteq> []"
  by (auto simp: check_request_def check_filetype_def split: if_splits option.splits)

lemma handler_status_exn: "fst (handler_status (Inl e)) = HTTP_INTERNAL_SERVER_ERROR"
  by (cases e) (simp_all add: handler_status_def)

text \<open>A request that passes every test ends in the call of the factory.\<close>

lemma handler_reaches_factory:
  assumes "aliases_wf g sc" "set (iter sc) = ran (sc_aliases sc)" "g_pHostFactory g \<noteq> None"
    "check_request dc r = None" "\<not> FAILED (co_init ciex ci)"
    "u \<in> dom (sc_aliases sc)" "covers u (the (r_uri r))"
  shows "\<exists>a h. g_host_store g a = Some h \<and> covers (h_virtual_path h) (the (r_uri r)) \<and>
           asp_net_handler handle cv cg ciex ci iter g sc dc r f =
             (let (res, r, f) = handle (h_host_key h) (cg (cv r)) f; (st, log) = handler_status res
              in (Status st, r, f, log))"
proof -
  obtain a where a: "find_mount (iter sc) (the (r_uri r)) = Some a"
    using find_mount_iff_covered [OF assms(1,2)] assms(6,7) by fastforce
  obtain h where h: "g_host_store g a = Some h" "covers (h_virtual_path h) (the (r_uri r))"
    using find_mount_host [OF assms(1,2) a] by blast
  have "asp_net_handler handle cv cg ciex ci iter g sc dc r f =
          (let (res, r, f) = handle (h_host_key h) (cg (cv r)) f; (st, log) = handler_status res
           in (Status st, r, f, log))"
    using assms(3-5) a h(1) by (auto simp: asp_net_handler_def Let_def)
  with h show ?thesis by blast
qed

text \<open>A server with one mount, and a request below it, for the concrete instances.\<close>

definition sample_conf :: asp_net_conf where
  "sample_conf = fst (mount_host (new_asp_net_conf\<lparr>g_pHostFactory := Some 1\<rparr>) ''/app'' ''C:/app'')"

definition sample_alias :: asp_net_alias where
  "sample_alias = \<lparr>al_virtual_path_len = 4, al_virtual_path = ''/app'', al_host = 0\<rparr>"

definition sample_srv :: asp_net_srvconf where
  "sample_srv = \<lparr>sc_aliases = [''/app'' \<mapsto> sample_alias]\<rparr>"

definition sample_request :: "string \<Rightarrow> request_rec" where
  "sample_request uri = request_zero\<lparr>r_handler := Some ''asp.net'', r_uri := Some uri,
     r_finfo := finfo_zero\<lparr>fi_filetype := APR_REG\<rparr>\<rparr>"

lemmas sample_defs = sample_conf_def sample_alias_def sample_srv_def sample_request_def
  mount_host_def new_asp_net_conf_def combined_key_def Let_def

lemma sample_wf: "aliases_wf sample_conf sample_srv"
  by (auto simp: aliases_wf_def sample_defs)

lemma sample_ran: "set [sample_alias] = ran (sc_aliases sample_srv)"
  by (simp add: sample_srv_def)

lemma sample_checks: "check_request create_asp_net_dirconf (sample_request (CHR ''/'' # uri)) = None"
  by (simp add: check_request_def check_filetype_def absolute_uri_def rejects_path_info_def
      sample_request_def request_zero_def finfo_zero_def create_asp_net_dirconf_def
      AP_REQ_REJECT_PATH_INFO_def)

section \<open>Properties\<close>

text \<open>C25: which requests the handler passes on, over all values the flags can have: with the
  exclusive or in the enumeration, a file passes under every setting but off, also when the
  directive is not used or says \<open>Virtual\<close>; a request without a file passes when the
  setting has bit 0, that is after \<open>Files\<close> as after \<open>Virtual\<close>; nothing else passes.\<close>

theorem handler_passes_iff:
  assumes "dc_enable dc \<in> insert ASPNET_UNSET flag_values"
  shows "check_request dc r = None \<longleftrightarrow>
           r_handler r = Some ''asp.net'' \<and> absolute_uri (r_uri r) \<and>
           (fi_filetype (r_finfo r) = APR_REG \<and> dc_enable dc \<noteq> ASPNET_OFF \<or>
            fi_filetype (r_finfo r) = APR_NOFILE \<and> dc_enable dc \<in> {ASPNET_VIRTUAL, ASPNET_FILES}) \<and>
           \<not> rejects_path_info r"
  using check_filetype_None [OF assms, of "fi_filetype (r_finfo r)"]
  by (auto simp: check_request_def split: option.splits)

theorem handler_passes_iff_witness:
  "check_request create_asp_net_dirconf
     (request_zero\<lparr>r_handler := Some ''asp.net'', r_uri := Some ''/a.aspx'',
                   r_finfo := finfo_zero\<lparr>fi_filetype := APR_REG\<rparr>\<rparr>) = None"
proof -
  have "dc_enable create_asp_net_dirconf \<in> insert ASPNET_UNSET flag_values"
    by (simp add: create_asp_net_dirconf_def)
  from handler_passes_iff [OF this, of "request_zero\<lparr>r_handler := Some ''asp.net'', r_uri := Some ''/a.aspx'',
                   r_finfo := finfo_zero\<lparr>fi_filetype := APR_REG\<rparr>\<rparr>"]
  show ?thesis
    by (simp add: absolute_uri_def rejects_path_info_def request_zero_def finfo_zero_def
        create_asp_net_dirconf_def AP_REQ_REJECT_PATH_INFO_def)
qed

text \<open>A request that resolves to a directory is forbidden under every setting of the
  directive, \<open>AspNet Directories\<close> and \<open>AspNet All\<close> included: the handler answers 403 at
  once, with the request and the factory untouched.\<close>

theorem handler_refuses_directories:
  assumes "r_handler r = Some ''asp.net''" "absolute_uri (r_uri r)"
    "fi_filetype (r_finfo r) = APR_DIR"
  shows "asp_net_handler handle cv cg ciex ci iter g sc dc r f =
           (Status HTTP_FORBIDDEN, r, f,
            [RERR ''mod_aspdotnet: Forbidden, 'AspNet Dirs' is not enabled for: %s (directory %s)''])"
  using assms by (simp add: asp_net_handler_def check_request_def check_filetype_dir)

theorem handler_refuses_directories_witness:
  "fst (asp_net_handler (\<lambda>k r f. (Inr OK, r, f)) id id S_OK S_OK (\<lambda>_. []) new_asp_net_conf
     create_asp_net_srvconf \<lparr>dc_enable = ASPNET_FILES OR ASPNET_DIRS OR ASPNET_VIRTUAL\<rparr>
     (request_zero\<lparr>r_handler := Some ''asp.net'', r_uri := Some ''/d/'',
                   r_finfo := finfo_zero\<lparr>fi_filetype := APR_DIR\<rparr>\<rparr>) ()) = Status HTTP_FORBIDDEN"
  by (subst handler_refuses_directories) (simp_all add: absolute_uri_def)

text \<open>C7: a request that passes the checks, on a thread where COM initialises, and whose URI a
  mount of the server covers reaches the factory exactly once, with the key of a host whose
  virtual path is a prefix of the URI (letter case aside); what the factory leaves of the
  request and of its own state is kept, its result is the status, and each of the three
  kinds of exception becomes a 500.\<close>

theorem handler_dispatch:
  assumes "aliases_wf g sc" "set (iter sc) = ran (sc_aliases sc)" "g_pHostFactory g \<noteq> None"
    "check_request dc r = None" "\<not> FAILED (co_init ciex ci)"
    "u \<in> dom (sc_aliases sc)" "covers u (the (r_uri r))"
  shows "\<exists>h \<in> ran (g_host_store g). covers (h_virtual_path h) (the (r_uri r)) \<and>
           (case handle (h_host_key h) (cg (cv r)) f of
              (Inr st, r', f') \<Rightarrow>
                asp_net_handler handle cv cg ciex ci iter g sc dc r f = (Status st, r', f', [])
            | (Inl e, r', f') \<Rightarrow>
                asp_net_handler handle cv cg ciex ci iter g sc dc r f =
                  (Status HTTP_INTERNAL_SERVER_ERROR, r', f', snd (handler_status (Inl e))))"
proof -
  obtain a h where h: "g_host_store g a = Some h" "covers (h_virtual_path h) (the (r_uri r))"
    and run: "asp_net_handler handle cv cg ciex ci iter g sc dc r f =
          (let (res, r, f) = handle (h_host_key h) (cg (cv r)) f; (st, log) = handler_status res
           in (Status st, r, f, log))"
    using handler_reaches_factory [where handle = handle and f = f and iter = iter, OF assms] by blast
  moreover have "h \<in> ran (g_host_store g)" using h(1) by (auto simp: ran_def)
  ultimately show ?thesis
    using handler_status_exn
    by (auto simp: handler_status_def split_beta split: sum.split prod.split intro!: bexI [of _ h])
qed

theorem handler_dispatch_witness:
  "fst (asp_net_handler (\<lambda>k r f. (Inl (ComError E_FAIL None), r, f)) id id S_OK S_OK
     (\<lambda>_. [sample_alias]) sample_conf sample_srv create_asp_net_dirconf
     (sample_request ''/APP/x.aspx'') ()) = Status HTTP_INTERNAL_SERVER_ERROR"
proof -
  have uri: "the (r_uri (sample_request ''/APP/x.aspx'')) = ''/APP/x.aspx''"
    by (simp add: sample_request_def)
  have cov: "covers ''/app'' ''/APP/x.aspx''" by code_simp
  show ?thesis
    using handler_dispatch [where iter = "\<lambda>_. [sample_alias]" and u = "''/app''" and ciex = S_OK
        and ci = S_OK and cv = id and cg = id and f = "()"
        and handle = "\<lambda>k r f. (Inl (ComError E_FAIL None), r, f)",
        OF sample_wf sample_ran _ sample_checks [of "''APP/x.aspx''"]] cov
    by (auto simp: uri sample_conf_def mount_host_def Let_def new_asp_net_conf_def co_init_def
        RPC_E_CHANGED_MODE_def S_OK_def FAILED_def sample_srv_def handler_status_def)
qed

text \<open>C22: a request that does not reach the factory cannot change it: when a check fails, no
  mount covers the URI or COM does not initialise, the factory's state is unchanged and the
  answer, which no longer depends on the factory, is declined (only when the request is not
  the module's, and then silently), 403, 404 or 500, the last three with a log entry.\<close>

theorem handler_error_paths:
  assumes "aliases_wf g sc" "set (iter sc) = ran (sc_aliases sc)"
    "check_request dc r \<noteq> None \<or> (\<forall>u \<in> dom (sc_aliases sc). \<not> covers u (the (r_uri r))) \<or>
     FAILED (co_init ciex ci)"
  shows "\<exists>st r' log. asp_net_handler handle cv cg ciex ci iter g sc dc r f = (Status st, r', f, log) \<and>
           asp_net_handler handle' cv cg ciex ci iter g sc dc r f = (Status st, r', f, log) \<and>
           (st = DECLINED \<longleftrightarrow> r_handler r \<noteq> Some ''asp.net'') \<and>
           (st = DECLINED \<and> log = [] \<and> r' = r \<or>
            st \<in> {HTTP_FORBIDDEN, HTTP_NOT_FOUND, HTTP_INTERNAL_SERVER_ERROR} \<and> log \<noteq> [])"
proof (cases "check_request dc r")
  case (Some e)
  obtain st log where e: "e = (st, log)" by fastforce
  have "st = DECLINED \<longleftrightarrow> r_handler r \<noteq> Some ''asp.net''"
    using Some e by (auto simp: check_request_def check_filetype_def http_codes split: if_splits option.splits)
  with check_request_codes [of dc r st log] Some e show ?thesis
    by (auto simp: asp_net_handler_def)
next
  case None
  then have h: "r_handler r = Some ''asp.net''" by (auto simp: check_request_def split: if_splits)
  show ?thesis
  proof (cases "find_mount (iter sc) (the (r_uri r))")
    case None
    with \<open>check_request dc r = None\<close> h show ?thesis by (simp add: asp_net_handler_def http_codes)
  next
    case (Some a)
    with find_mount_iff_covered [OF assms(1,2), of "the (r_uri r)"] assms(3) None
    have "FAILED (co_init ciex ci)" by auto
    with Some None h show ?thesis by (simp add: asp_net_handler_def http_codes Let_def)
  qed
qed

theorem handler_error_paths_witness:
  "fst (asp_net_handler (\<lambda>k r f. (Inr OK, r, f)) id id S_OK S_OK (\<lambda>_. [sample_alias])
     sample_conf sample_srv create_asp_net_dirconf (sample_request ''/'') ()) \<noteq> Status HTTP_OK"
proof -
  have "\<not> covers ''/app'' ''/''" by code_simp
  then have "\<forall>u \<in> dom (sc_aliases sample_srv). \<not> covers u (the (r_uri (sample_request ''/'')))"
    by (simp add: sample_srv_def sample_request_def)
  then show ?thesis
    using handler_error_paths [where iter = "\<lambda>_. [sample_alias]", OF sample_wf sample_ran,
        of create_asp_net_dirconf "sample_request ''/''" S_OK S_OK "\<lambda>k r f. (Inr OK, r, f)" id id "()"
        "\<lambda>k r f. (Inr OK, r, f)"]
    by (auto simp: http_codes)
qed

text \<open>A URI below a nested mount goes to whichever of the two mounts the hash table yields
  first, not to the longest, and a mount takes every URI that continues its letters, at a
  path segment boundary or not.\<close>

theorem find_mount_order:
  assumes "al_virtual_path_len outer = length (al_virtual_path outer)"
    "al_virtual_path_len inner = length (al_virtual_path inner)"
    "covers (al_virtual_path outer) (al_virtual_path inner)"
  shows "find_mount (outer # inner # als) (al_virtual_path inner @ rest) = Some (al_host outer) \<and>
         find_mount (inner # outer # als) (al_virtual_path inner @ rest) = Some (al_host inner)"
proof -
  have "covers (al_virtual_path outer) (al_virtual_path inner @ rest)"
    using assms(3) by (auto simp: covers_def)
  then show ?thesis
    using assms(1,2) by (simp add: find_mount_first) (simp add: covers_def strncasecmp_eq_prefix)
qed

theorem find_mount_order_witness:
  "find_mount [\<lparr>al_virtual_path_len = 4, al_virtual_path = ''/app'', al_host = 0\<rparr>,
               \<lparr>al_virtual_path_len = 8, al_virtual_path = ''/app/sub'', al_host = 1\<rparr>]
     (''/app/sub'' @ ''way/x.aspx'') = Some 0"
proof -
  have "covers ''/app'' ''/app/sub''" by code_simp
  then show ?thesis
    using find_mount_order [of "\<lparr>al_virtual_path_len = 4, al_virtual_path = ''/app'', al_host = 0\<rparr>"
        "\<lparr>al_virtual_path_len = 8, al_virtual_path = ''/app/sub'', al_host = 1\<rparr>" "[]" "''way/x.aspx''"]
    by simp
qed

end
