(* ===== verification/Host.thy ===== *)
theory Host
  imports Dotnet_Text Httpd
begin

text \<open>
  The host object of \<open>Apache.Web/Host.h\<close>: one per mount, living in the application domain
  the framework creates for it. Its state are the two paths, the key in the factory and the
  module index; \<open>Configure\<close> normalises the paths and \<open>MapPath\<close> maps a URI path to a file
  path that starts with the physical one.
\<close>

abbreviation slash :: wch where "slash \<equiv> wc CHR ''/''"
abbreviation backslash :: wch where "backslash \<equiv> wc CHR 0x5C"

section \<open>State and configuration\<close>

record host =
  hs_virtualPath :: nstr
  hs_physicalPath :: nstr
  hs_thisFactory :: ptr
  hs_thisHostKey :: int
  hs_thisModuleIndex :: int

definition new_host :: host where
  "new_host = \<lparr>hs_virtualPath = None, hs_physicalPath = None, hs_thisFactory = None,
     hs_thisHostKey = 0, hs_thisModuleIndex = 0\<rparr>"

text \<open>The framework asks for the lease once; only a lease in its first state takes new times.\<close>

definition InitializeLifetimeService :: "lease \<Rightarrow> lease" where
  "InitializeLifetimeService l =
     (if ls_CurrentState l = LeaseInitial
      then l\<lparr>ls_InitialLeaseTime := FromDays 366, ls_SponsorshipTimeout := FromMinutes 2,
             ls_RenewOnCallTime := FromMinutes 1\<rparr>
      else l)"

text \<open>A trailing separator is cut off, one only.\<close>

definition strip_one :: "culture \<Rightarrow> wch \<Rightarrow> wstr \<Rightarrow> wstr" where
  "strip_one cu c s = (if cu_ends_with cu s [c] then take (length s - 1) s else s)"

definition Configure :: "culture \<Rightarrow> wstr \<Rightarrow> wstr \<Rightarrow> ptr \<Rightarrow> int \<Rightarrow> int \<Rightarrow> host \<Rightarrow> host" where
  "Configure cu VirtualPath PhysicalPath Factory HostKey moduleIndex h =
     h\<lparr>hs_thisFactory := Factory, hs_thisHostKey := HostKey, hs_thisModuleIndex := moduleIndex,
       hs_physicalPath := Some (strip_one cu backslash (Replace PhysicalPath slash backslash)),
       hs_virtualPath := Some (strip_one cu slash (Replace VirtualPath backslash slash))\<rparr>"

definition GetVirtualPath :: "host \<Rightarrow> nstr" where "GetVirtualPath h = hs_virtualPath h"
definition GetPhysicalPath :: "host \<Rightarrow> nstr" where "GetPhysicalPath h = hs_physicalPath h"

section \<open>Logging and dispatch\<close>

text \<open>
  \<open>LogRequestError\<close>: an empty message throws at \<open>&avalue[0]\<close> before anything is logged.
\<close>

definition log_word :: "32 word \<Rightarrow> apr_status_t \<Rightarrow> 32 word" where
  "log_word loglevel rv = loglevel OR (if rv \<noteq> 0 then 0 else APLOG_NOERRNO)"

definition LogRequestError ::
  "encodings \<Rightarrow> nstr \<Rightarrow> 32 word \<Rightarrow> apr_status_t \<Rightarrow> exn + log_entry" where
  "LogRequestError en msg loglevel rv =
     (case msg of
        None \<Rightarrow> Inl ArgumentNull
      | Some m \<Rightarrow>
          (case pin_first (en_utf8 en m) of
             Inl e \<Rightarrow> Inl e
           | Inr _ \<Rightarrow> Inr (LOG (log_word loglevel rv) rv ''mod_aspdotnet: %s'')))"

text \<open>
  \<open>HandleRequest\<close> constructs the worker request and runs its handler, the parameter \<open>run\<close>
  over the state \<open>'w\<close> of the request; every exception of either is logged, its text \<open>e_str\<close>
  after a fixed line, and answered with 500. What logging itself throws leaves the method.
\<close>

definition HandleRequest ::
  "encodings \<Rightarrow> (exn \<Rightarrow> wstr) \<Rightarrow> ('w \<Rightarrow> (exn + int) \<times> 'w) \<Rightarrow> 'w \<Rightarrow> (exn + int) \<times> 'w \<times> log_entry list" where
  "HandleRequest en e_str run w =
     (case run w of
        (Inr status, w') \<Rightarrow> (Inr status, w', [])
      | (Inl e, w') \<Rightarrow>
          (case LogRequestError en (Some (wL ''Failed to create ASP.NET Request, Exception follows'')) APLOG_ERR 0 of
             Inl e' \<Rightarrow> (Inl e', w', [])
           | Inr l1 \<Rightarrow>
               (case LogRequestError en (Some (e_str e)) APLOG_ERR 0 of
                  Inl e' \<Rightarrow> (Inl e', w', [l1])
                | Inr l2 \<Rightarrow> (Inr 500, w', [l1, l2]))))"

section \<open>Mapping paths\<close>

text \<open>
  \<open>String::Compare(a, 0, b, 0, n, true, nullCulture)\<close> compares at most \<open>n\<close> code units of
  each side. A host that was never configured has null paths; using them throws.
\<close>

definition concat_nstr :: "nstr \<Rightarrow> wstr \<Rightarrow> wstr" where
  "concat_nstr p s = (case p of None \<Rightarrow> s | Some x \<Rightarrow> x @ s)"

definition MapPath ::
  "culture \<Rightarrow> encodings \<Rightarrow> host \<Rightarrow> nstr \<Rightarrow> (exn + nstr) \<times> log_entry list" where
  "MapPath cu en h path =
     (case path of
        None \<Rightarrow> (Inr (hs_physicalPath h), [])
      | Some p \<Rightarrow>
          if p = [] then (Inr (hs_physicalPath h), [])
          else
            (let buildpath = Replace p slash backslash;
                 testpath = Replace p backslash slash
             in case hs_virtualPath h of
                  None \<Rightarrow> (Inl NullReference, [])
                | Some v \<Rightarrow>
                    if hd testpath = slash then
                      (if \<not> cu_compare cu (take (length v) testpath) (take (length v) v) then
                         (case LogRequestError en (Some (wL ''MapPath: could not map '' @ p @ wL '' within '' @ v))
                                 APLOG_DEBUG 0 of
                            Inl e \<Rightarrow> (Inl e, [])
                          | Inr l \<Rightarrow> (Inr None, [l]))
                       else if length v < length testpath then
                         (case Substring1 buildpath (length v) of
                            Inl e \<Rightarrow> (Inl e, [])
                          | Inr s \<Rightarrow> (Inr (Some (concat_nstr (hs_physicalPath h) s)), []))
                       else (Inr (hs_physicalPath h), []))
                    else
                      (case Substring1 buildpath (length v) of
                         Inl e \<Rightarrow> (Inl e, [])
                       | Inr s \<Rightarrow> (Inr (Some (concat_nstr (hs_physicalPath h) (backslash # s))), []))))"

section \<open>Lemmas\<close>

text \<open>UTF-8 of a non-empty string has at least one byte: what logging relies on.\<close>

definition utf8_nonempty :: "encodings \<Rightarrow> bool" where
  "utf8_nonempty en \<longleftrightarrow> (\<forall>s. s \<noteq> [] \<longrightarrow> en_utf8 en s \<noteq> [])"

lemma utf8_nonempty_ascii [simp]: "utf8_nonempty ascii_encodings"
  by (simp add: utf8_nonempty_def ascii_encodings_def narrow_def)

lemma LogRequestError_ok:
  "utf8_nonempty en \<Longrightarrow> m \<noteq> [] \<Longrightarrow>
   LogRequestError en (Some m) lvl rv = Inr (LOG (log_word lvl rv) rv ''mod_aspdotnet: %s'')"
  by (simp add: LogRequestError_def pin_first_def utf8_nonempty_def)

lemma slashes_plain [simp]: "plain [slash]" "plain [backslash]" "slash \<noteq> backslash" "backslash \<noteq> slash"
  by (simp_all add: plain_def) code_simp+

lemma slash_bounds [simp]: "32 \<le> slash" "slash < 127" "32 \<le> backslash" "backslash < 127"
  by code_simp+

lemma strip_one_plain:
  assumes "culture_plain cu" "plain s" "plain [c]"
  shows "strip_one cu c s = (if s \<noteq> [] \<and> last s = c then butlast s else s)"
  using culture_ends_withD [OF assms] by (simp add: strip_one_def butlast_conv_take)

lemma strip_one_ends:
  assumes "culture_plain cu" "plain s" "plain [c]"
  shows "set (strip_one cu c s) \<subseteq> set s \<and> (strip_one cu c s = s \<or> strip_one cu c s @ [c] = s) \<and>
         (EndsWith (strip_one cu c s) [c] \<longleftrightarrow> (\<exists>t. s = t @ [c, c]))"
  unfolding strip_one_plain [OF assms]
proof (cases s rule: rev_cases)
  case (snoc t x)
  then show "set (if s \<noteq> [] \<and> last s = c then butlast s else s) \<subseteq> set s \<and>
      ((if s \<noteq> [] \<and> last s = c then butlast s else s) = s \<or>
       (if s \<noteq> [] \<and> last s = c then butlast s else s) @ [c] = s) \<and>
      (EndsWith (if s \<noteq> [] \<and> last s = c then butlast s else s) [c] \<longleftrightarrow> (\<exists>t. s = t @ [c, c]))"
    by (cases t rule: rev_cases) (auto simp: butlast_append)
qed simp

lemma MapPath_absolute:
  assumes cu: "culture_plain cu" "utf8_nonempty en"
    and h: "hs_virtualPath h = Some v" "hs_physicalPath h = Some d"
    and pl: "plain v" "plain p"
    and p: "p \<noteq> []" "hd p = slash \<or> hd p = backslash"
  shows "MapPath cu en h (Some p) =
           (if map ascii_lower (take (length v) (Replace p backslash slash)) = map ascii_lower v
            then (Inr (Some (d @ Replace (drop (length v) p) slash backslash)), [])
            else (Inr None, [LOG (log_word APLOG_DEBUG 0) 0 ''mod_aspdotnet: %s'']))"
proof -
  have t: "hd (Replace p backslash slash) = slash"
    using p by (cases p) (auto simp: Replace_def)
  have "plain (take (length v) (Replace p backslash slash))"
    using pl(2) by (intro plain_take plain_Replace) simp_all
  note cmp = culture_compareD [OF cu(1) this pl(1)]
  have len: "length v \<le> length p"
    if "map ascii_lower (take (length v) (Replace p backslash slash)) = map ascii_lower v"
    using arg_cong [OF that, of length] by simp
  have "drop (length v) (Replace p slash backslash) = Replace (drop (length v) p) slash backslash"
    by (simp add: Replace_def drop_map)
  then show ?thesis
    using p(1) t h cmp len LogRequestError_ok [OF cu(2)]
    by (auto simp: MapPath_def Let_def Substring1_def concat_nstr_def Replace_def)
qed

text \<open>The host of a mount of \<open>/app\<close> on \<open>C:/sites/app/\<close>, for the concrete instances.\<close>

definition sample_host :: host where
  "sample_host = Configure ordinal_culture (wL ''/app'') (wL ''C:/sites/app/'') None 0 0 new_host"

lemma sample_host_paths:
  "hs_virtualPath sample_host = Some (wL ''/app'')"
  "hs_physicalPath sample_host = Some (Replace (wL ''C:/sites/app'') slash backslash)"
  by code_simp+

lemma sample_plain: "plain (wL ''/app'')"
  by code_simp

section \<open>Properties\<close>

text \<open>What \<open>Configure\<close> makes of two paths of printable ASCII: the separators of each are
  its own kind only, at most one trailing separator is gone, and a trailing separator is
  left exactly when the argument ended with two of them, of either kind.\<close>

theorem configure_normalises:
  assumes "culture_plain cu" "plain v" "plain d"
  shows "\<exists>v' d'. hs_virtualPath (Configure cu v d f k m h) = Some v' \<and>
           hs_physicalPath (Configure cu v d f k m h) = Some d' \<and>
           backslash \<notin> set v' \<and> slash \<notin> set d' \<and>
           (v' = Replace v backslash slash \<or> v' @ [slash] = Replace v backslash slash) \<and>
           (d' = Replace d slash backslash \<or> d' @ [backslash] = Replace d slash backslash) \<and>
           (EndsWith v' [slash] \<longleftrightarrow> (\<exists>t. Replace v backslash slash = t @ [slash, slash])) \<and>
           (EndsWith d' [backslash] \<longleftrightarrow> (\<exists>t. Replace d slash backslash = t @ [backslash, backslash]))"
proof -
  have pv: "plain (Replace v backslash slash)" and pd: "plain (Replace d slash backslash)"
    using assms by (simp_all add: plain_Replace)
  have "backslash \<notin> set (Replace v backslash slash)" "slash \<notin> set (Replace d slash backslash)"
    by (simp_all add: Replace_not_in)
  with strip_one_ends [OF assms(1) pv, of slash] strip_one_ends [OF assms(1) pd, of backslash]
  show ?thesis
    by (simp add: Configure_def del: EndsWith_single) blast
qed

theorem configure_normalises_witness:
  "\<exists>d'. hs_physicalPath (Configure ordinal_culture (wL ''/'') (wL ''C:/a//'') None 0 0 new_host) = Some d' \<and>
        EndsWith d' [backslash]"
proof -
  have "plain (wL ''/'')" "plain (wL ''C:/a//'')" by code_simp+
  from configure_normalises [OF culture_plain_ordinal this, of None 0 0 new_host]
  obtain d' where "hs_physicalPath (Configure ordinal_culture (wL ''/'') (wL ''C:/a//'') None 0 0 new_host) = Some d'"
    "EndsWith d' [backslash] \<longleftrightarrow> (\<exists>t. Replace (wL ''C:/a//'') slash backslash = t @ [backslash, backslash])"
    by blast
  moreover have "Replace (wL ''C:/a//'') slash backslash =
      Replace (wL ''C:/a'') slash backslash @ [backslash, backslash]" by code_simp
  ultimately show ?thesis by blast
qed

text \<open>The physical directory itself, or a path that goes on below it after a separator.\<close>

definition at_or_below :: "wstr \<Rightarrow> wstr \<Rightarrow> bool" where
  "at_or_below d x \<longleftrightarrow> x = d \<or> (\<exists>t. x = d @ backslash # t)"

text \<open>C38: an absolute URI path, with either separator, is mapped exactly if the virtual path is a
  prefix of it up to letter case: to the physical path followed by the rest of it with backslashes.
  The result is the physical directory or lies below it exactly when the virtual path ends where a
  segment of the URI path ends; a URI path that goes on with other letters leads outside of it. Any
  other absolute path maps to null, with one debug entry.\<close>

theorem map_path_absolute:
  assumes "culture_plain cu" "utf8_nonempty en"
    "hs_virtualPath h = Some v" "hs_physicalPath h = Some d" "plain v" "plain p"
    "p \<noteq> []" "hd p = slash \<or> hd p = backslash" "slash \<notin> set d"
  shows "(map ascii_lower (take (length v) (Replace p backslash slash)) = map ascii_lower v \<longrightarrow>
            (\<exists>r. MapPath cu en h (Some p) = (Inr (Some (d @ r)), []) \<and> length r = length p - length v \<and>
                 r = Replace (drop (length v) p) slash backslash \<and> slash \<notin> set (d @ r) \<and>
                 (at_or_below d (d @ r) \<longleftrightarrow> length p = length v \<or> p ! length v \<in> {slash, backslash}))) \<and>
         (map ascii_lower (take (length v) (Replace p backslash slash)) \<noteq> map ascii_lower v \<longrightarrow>
            MapPath cu en h (Some p) = (Inr None, [LOG (log_word APLOG_DEBUG 0) 0 ''mod_aspdotnet: %s'']))"
proof -
  let ?r = "Replace (drop (length v) p) slash backslash"
  have "at_or_below d (d @ ?r) \<longleftrightarrow> length p = length v \<or> p ! length v \<in> {slash, backslash}"
    if "map ascii_lower (take (length v) (Replace p backslash slash)) = map ascii_lower v"
  proof -
    have l: "length v \<le> length p" using arg_cong [OF that, of length] by (simp add: Replace_def)
    show ?thesis
    proof (cases "drop (length v) p")
      case Nil
      with l show ?thesis by (simp add: at_or_below_def Replace_def)
    next
      case (Cons c s)
      then have "length v < length p" by (metis drop_eq_Nil list.distinct(1) not_le)
      with Cons have "p ! length v = c" by (metis Cons_nth_drop_Suc list.inject)
      with Cons \<open>length v < length p\<close> show ?thesis by (auto simp: at_or_below_def Replace_def)
    qed
  qed
  then show ?thesis using MapPath_absolute [OF assms(1-8)] assms(9) Replace_not_in [of slash backslash] by auto
qed

text \<open>A path of the mount, in other letters and with a backslash, and the application beside it.\<close>

theorem map_path_absolute_witness:
  "(\<exists>r. MapPath ordinal_culture ascii_encodings sample_host (Some (wL ''/APP'' @ backslash # wL ''x/y'')) =
       (Inr (Some (Replace (wL ''C:/sites/app'') slash backslash @ r)), []) \<and>
     r = Replace (wL ''/x/y'') slash backslash \<and>
     at_or_below (Replace (wL ''C:/sites/app'') slash backslash) (Replace (wL ''C:/sites/app'') slash backslash @ r)) \<and>
   (\<exists>r. MapPath ordinal_culture ascii_encodings sample_host (Some (wL ''/app2/x'')) =
       (Inr (Some (Replace (wL ''C:/sites/app'') slash backslash @ r)), []) \<and>
     \<not> at_or_below (Replace (wL ''C:/sites/app'') slash backslash) (Replace (wL ''C:/sites/app'') slash backslash @ r))"
proof -
  let ?d = "Replace (wL ''C:/sites/app'') slash backslash"
  let ?p = "wL ''/APP'' @ backslash # wL ''x/y''" and ?q = "wL ''/app2/x''"
  have d: "slash \<notin> set ?d" by code_simp
  have p: "plain ?p" "?p \<noteq> []" "hd ?p = slash \<or> hd ?p = backslash"
    "map ascii_lower (take (length (wL ''/app'')) (Replace ?p backslash slash)) = map ascii_lower (wL ''/app'')"
    "?p ! length (wL ''/app'') \<in> {slash, backslash}"
    "Replace (drop (length (wL ''/app'')) ?p) slash backslash = Replace (wL ''/x/y'') slash backslash" by code_simp+
  have q: "plain ?q" "?q \<noteq> []" "hd ?q = slash \<or> hd ?q = backslash"
    "map ascii_lower (take (length (wL ''/app'')) (Replace ?q backslash slash)) = map ascii_lower (wL ''/app'')"
    "length ?q \<noteq> length (wL ''/app'')" "?q ! length (wL ''/app'') \<notin> {slash, backslash}" by code_simp+
  note m = map_path_absolute [OF culture_plain_ordinal utf8_nonempty_ascii sample_host_paths sample_plain _ _ _ d]
  from m [OF p(1-3)] p(4-6) have "\<exists>r. MapPath ordinal_culture ascii_encodings sample_host (Some ?p) = (Inr (Some (?d @ r)), []) \<and>
      r = Replace (wL ''/x/y'') slash backslash \<and> at_or_below ?d (?d @ r)" by metis
  moreover from m [OF q(1-3)] q(4-6) have "\<exists>r. MapPath ordinal_culture ascii_encodings sample_host (Some ?q) =
      (Inr (Some (?d @ r)), []) \<and> \<not> at_or_below ?d (?d @ r)" by metis
  ultimately show ?thesis by blast
qed

text \<open>\<open>MapPath\<close> does not look for a segment boundary after the virtual path: a path that
  continues its letters is mapped by continuing the letters of the physical path, to a file
  that is not below the physical directory.\<close>

theorem map_path_sibling:
  assumes "culture_plain cu" "utf8_nonempty en"
    "hs_virtualPath h = Some v" "hs_physicalPath h = Some d" "plain v" "plain q"
    "v \<noteq> []" "hd v = slash" "backslash \<notin> set v" "q \<noteq> []" "hd q \<noteq> slash" "hd q \<noteq> backslash"
  shows "\<exists>r. MapPath cu en h (Some (v @ q)) = (Inr (Some r), []) \<and> (\<nexists>t. r = d @ backslash # t) \<and> r \<noteq> d"
proof -
  have "take (length v) (Replace (v @ q) backslash slash) = v"
    using Replace_idle [OF assms(9)] by (simp add: Replace_def)
  then have "MapPath cu en h (Some (v @ q)) = (Inr (Some (d @ Replace q slash backslash)), [])"
    using MapPath_absolute [OF assms(1-5), of "v @ q"] assms(5-8) by simp
  moreover have "hd (Replace q slash backslash) \<noteq> backslash" "Replace q slash backslash \<noteq> []"
    using assms(10-12) by (cases q; simp add: Replace_def)+
  then have "\<nexists>t. Replace q slash backslash = backslash # t" by auto
  ultimately show ?thesis using \<open>Replace q slash backslash \<noteq> []\<close> by auto
qed

theorem map_path_sibling_witness:
  "MapPath ordinal_culture ascii_encodings sample_host (Some (wL ''/app'' @ wL ''2/web.config'')) =
     (Inr (Some (Replace (wL ''C:/sites/app2/web.config'') slash backslash)), []) \<and>
   (\<exists>r. MapPath ordinal_culture ascii_encodings sample_host (Some (wL ''/app'' @ wL ''2/web.config'')) =
     (Inr (Some r), []) \<and> (\<nexists>t. r = Replace (wL ''C:/sites/app'') slash backslash @ backslash # t))"
proof -
  have "plain (wL ''2/web.config'')" "hd (wL ''/app'') = slash" "backslash \<notin> set (wL ''/app'')"
    "hd (wL ''2/web.config'') \<noteq> slash" "hd (wL ''2/web.config'') \<noteq> backslash"
    "wL ''/app'' \<noteq> []" "wL ''2/web.config'' \<noteq> []" by code_simp+
  with map_path_sibling [OF culture_plain_ordinal utf8_nonempty_ascii sample_host_paths sample_plain,
      of "wL ''2/web.config''"]
  have "\<exists>r. MapPath ordinal_culture ascii_encodings sample_host (Some (wL ''/app'' @ wL ''2/web.config'')) =
     (Inr (Some r), []) \<and> (\<nexists>t. r = Replace (wL ''C:/sites/app'') slash backslash @ backslash # t)" by blast
  moreover have "MapPath ordinal_culture ascii_encodings sample_host (Some (wL ''/app'' @ wL ''2/web.config'')) =
     (Inr (Some (Replace (wL ''C:/sites/app2/web.config'') slash backslash)), [])" by code_simp
  ultimately show ?thesis by blast
qed

text \<open>A relative path loses as many leading code units as the virtual path has, although
  they are its own; a shorter one makes \<open>MapPath\<close> throw.\<close>

theorem map_path_relative:
  assumes "hs_virtualPath h = Some v" "hs_physicalPath h = Some d"
    "p \<noteq> []" "hd p \<noteq> slash" "hd p \<noteq> backslash"
  shows "MapPath cu en h (Some p) =
           (if length p < length v then (Inl ArgumentOutOfRange, [])
            else (Inr (Some (d @ backslash # Replace (drop (length v) p) slash backslash)), []))"
proof -
  have "hd (Replace p backslash slash) \<noteq> slash"
    using assms(3-5) by (cases p) (auto simp: Replace_def)
  then show ?thesis
    using assms by (auto simp: MapPath_def Let_def Substring1_def concat_nstr_def Replace_def drop_map)
qed

theorem map_path_relative_witness:
  "MapPath ordinal_culture ascii_encodings sample_host (Some (wL ''a.x'')) = (Inl ArgumentOutOfRange, [])"
proof -
  have "wL ''a.x'' \<noteq> []" "hd (wL ''a.x'') \<noteq> slash" "hd (wL ''a.x'') \<noteq> backslash" by code_simp+
  from map_path_relative [OF sample_host_paths this] show ?thesis by simp
qed

text \<open>\<open>HandleRequest\<close> lets no exception of the request out: its result is the handler's
  status, or 500 with exactly two entries of level error in the log.\<close>

theorem handle_request_total:
  assumes "utf8_nonempty en" "\<forall>e. e_str e \<noteq> []"
  shows "HandleRequest en e_str run w =
           (case run w of
              (Inr st, w') \<Rightarrow> (Inr st, w', [])
            | (Inl e, w') \<Rightarrow> (Inr HTTP_INTERNAL_SERVER_ERROR, w',
                replicate 2 (LOG (APLOG_ERR OR APLOG_NOERRNO) 0 ''mod_aspdotnet: %s'')))"
  using LogRequestError_ok [OF assms(1)] assms(2)
  by (auto simp: HandleRequest_def wL_def log_word_def numeral_2_eq_2 HTTP_INTERNAL_SERVER_ERROR_def
      split: prod.split sum.split)

theorem handle_request_total_witness:
  "fst (HandleRequest ascii_encodings (\<lambda>e. wL ''System.Exception'') (\<lambda>w. (Inl NullReference, w)) ()) = Inr 500"
  using handle_request_total [OF utf8_nonempty_ascii, of "\<lambda>e. wL ''System.Exception''"
      "\<lambda>w. (Inl NullReference, w)" "()"]
  by (simp add: wL_def HTTP_INTERNAL_SERVER_ERROR_def)

end
