(* ===== verification/Factory_Interface.thy ===== *)
theory Factory_Interface
  imports Httpd
begin

text \<open>
  The contract of \<open>IApacheWebHostFactory::CreateHost\<close> (\<open>Apache.Web/Apache.Web.h\<close>) as the
  native module relies on it: a host key names one pair of paths for the life of the
  factory. The locale is interpreted in \<open>Host_Factory\<close> on the factory's own definitions;
  the module's lemmas about it are in \<open>Module_Hosts\<close>.
\<close>

text \<open>
  \<open>CreateHost\<close> behind the COM wrapper: \<open>Inl hr\<close> is a \<open>_com_error\<close>, \<open>Inr k\<close> the key it
  returns, \<open>-1\<close> for none; \<open>'f\<close> is the state of the factory.
\<close>

type_synonym 'f creator = "wstr \<Rightarrow> wstr \<Rightarrow> ptr \<Rightarrow> 'f \<Rightarrow> (hresult + int) \<times> 'f"

locale host_factory =
  fixes create :: "'f creator"
    and inv :: "'f \<Rightarrow> bool"
    and norm :: "wstr \<Rightarrow> wstr"
    and entry :: "'f \<Rightarrow> int \<Rightarrow> (wstr \<times> wstr) option"
  assumes create_inv: "inv f \<Longrightarrow> create v p s f = (r, f') \<Longrightarrow> inv f'"
    and create_key: "inv f \<Longrightarrow> create v p s f = (Inr k, f') \<Longrightarrow> k \<noteq> -1 \<Longrightarrow>
          entry f' k = Some (v, norm p)"
    and create_fresh: "inv f \<Longrightarrow> create v p s f = (Inr k, f') \<Longrightarrow> k \<noteq> -1 \<Longrightarrow> entry f k = None"
    and create_frame: "inv f \<Longrightarrow> create v p s f = (r, f') \<Longrightarrow> entry f k = Some e \<Longrightarrow>
          entry f' k = Some e"

end
