(* ===== verification/Module_Engine.thy ===== *)
theory Module_Engine
  imports Module_Config Factory_Interface
begin

text \<open>
  Start-up and shut-down of the module (\<open>mod/mod_aspdotnet.cpp\<close>): loading and starting the
  .NET runtime, obtaining the \<open>Apache.Web.HostFactory\<close> through COM, and the pre-config,
  post-config and clean-up hooks.

  The COM runtime is outside the repository. Each call the code makes is a field of the
  record \<open>clr_env\<close> with the \<open>HRESULT\<close> it returns and, where it has one, the interface
  pointer it stores; \<open>e_Description\<close> is what \<open>_com_error::Description\<close> says of an error the start
  raises, none when the error has no description; the code's own decisions, the state it changes, the log it writes and
  the order in which it acquires and releases interfaces are modelled. The module is
  compiled with synchronous C++ exception handling, so following a null pointer is not
  caught by \<open>catch (...)\<close>: it is the outcome \<open>Fault\<close>, which ends the process.
\<close>

section \<open>The version strings\<close>

text \<open>
  \<open>Apache.Web.Version.h\<close>: the assembly version the module asks the runtime for, from the
  version macros of httpd's \<open>ap_release.h\<close>, and the component added to the server string.
\<close>

definition APACHE_WEB_VER_BUILD :: nat where "APACHE_WEB_VER_BUILD = 2199"

definition APACHE_WEB_VER_SUBVS :: "nat \<Rightarrow> nat \<Rightarrow> nat" where
  "APACHE_WEB_VER_SUBVS major patch = (if major mod 2 \<noteq> 0 then patch else 0)"

definition APACHE_WEB_VERSION :: "nat \<Rightarrow> nat \<Rightarrow> nat \<Rightarrow> string" where
  "APACHE_WEB_VERSION major minor patch =
     dec_digits major @ ''.'' @ dec_digits minor @ ''.'' @
     dec_digits (APACHE_WEB_VER_SUBVS major patch) @ ''.'' @ dec_digits APACHE_WEB_VER_BUILD"

definition version_component :: "nat \<Rightarrow> nat \<Rightarrow> string" where
  "version_component major minor = ''mod_aspdotnet/'' @ dec_digits major @ ''.'' @ dec_digits minor"

lemma APACHE_WEB_VERSION_24: "APACHE_WEB_VERSION 2 4 n = ''2.4.0.2199''"
  by code_simp

section \<open>The COM environment\<close>

record clr_env =
  e_win98 :: bool
  e_module_name :: "hresult option"
  e_LoadLibrary :: ptr
  e_CLRCreateInstance :: "hresult \<times> ptr"
  e_GetRuntime :: "hresult \<times> ptr"
  e_GetInterface :: "hresult \<times> ptr"
  e_CorBindToRuntimeEx :: "hresult \<times> ptr"
  e_Start :: hresult
  e_GetDefaultDomain :: "hresult \<times> ptr"
  e_QI_AppDomain :: "hresult \<times> ptr"
  e_CreateInstance :: "hresult \<times> ptr"
  e_Unwrap :: "hresult \<times> ptr"
  e_QI_HostFactory :: "hresult \<times> ptr"
  e_Configure :: hresult
  e_Description :: "string option"

text \<open>
  The calls that change the state of the process, in order. \<open>Acquired\<close> marks an interface
  pointer handed to the module, \<open>Released\<close> the call that gives it back.
\<close>

datatype com_event =
    Acquired nat
  | Released nat
  | ModuleLocked ptr
  | CleanupRegistered
  | RuntimeStarted
  | RuntimeStopped
  | FactoryConfigured
  | FactoryDestroyed
  | VersionComponent string

record engine_state =
  es_conf :: asp_net_conf
  es_log :: "log_entry list"
  es_events :: "com_event list"

text \<open>
  How a start can end other than by returning: a \<open>_com_error\<close> with its code, or the process
  following a null pointer.
\<close>

datatype engine_exn = Raised hresult | Fault

type_synonym 'a eng = "(engine_state, engine_exn, 'a) run"

definition es_logs :: "log_entry \<Rightarrow> unit eng" where
  "es_logs e = omap (\<lambda>s. s\<lparr>es_log := es_log s @ [e]\<rparr>)"

definition es_emit :: "com_event \<Rightarrow> unit eng" where
  "es_emit e = omap (\<lambda>s. s\<lparr>es_events := es_events s @ [e]\<rparr>)"

text \<open>An out parameter: the pointer stored by the callee, if any, is acquired.\<close>

definition es_acquire :: "ptr \<Rightarrow> unit eng" where
  "es_acquire p = (case p of None \<Rightarrow> oreturn () | Some a \<Rightarrow> es_emit (Acquired a))"

definition es_release :: "ptr \<Rightarrow> unit eng" where
  "es_release p = (case p of None \<Rightarrow> oreturn () | Some a \<Rightarrow> es_emit (Released a))"

definition es_upd :: "(asp_net_conf \<Rightarrow> asp_net_conf) \<Rightarrow> unit eng" where
  "es_upd f = omap (\<lambda>s. s\<lparr>es_conf := f (es_conf s)\<rparr>)"

text \<open>Using an interface pointer: a null one is the end of the process.\<close>

definition es_deref :: "ptr \<Rightarrow> nat eng" where
  "es_deref p = (case p of None \<Rightarrow> othrow Fault | Some a \<Rightarrow> oreturn a)"

lemmas es_defs = es_logs_def es_emit_def es_acquire_def es_release_def es_upd_def es_deref_def

section \<open>Loading the runtime\<close>

definition init_runtime_version :: "string \<Rightarrow> unit eng" where
  "init_runtime_version v = es_upd (\<lambda>g. g\<lparr>g_cor_version := Some v\<rparr>)"

definition init_clr4_runtime :: "clr_env \<Rightarrow> hresult eng" where
  "init_clr4_runtime env =
     (let (hr, ri) = e_GetRuntime env in
      obind (es_acquire ri) (\<lambda>_.
      obind (if FAILED hr then oreturn hr
             else
               obind (es_deref ri) (\<lambda>_.
               let (hr', cor) = e_GetInterface env in
               obind (es_acquire cor) (\<lambda>_.
               obind (es_upd (\<lambda>g. g\<lparr>g_pCorRuntime := cor\<rparr>)) (\<lambda>_.
               if FAILED hr' then oreturn hr'
               else obind (init_runtime_version ''v4.0.30319'') (\<lambda>_. oreturn hr'))))) (\<lambda>hr.
      obind (es_release ri) (\<lambda>_.
      oreturn hr))))"

definition init_clr2_runtime :: "clr_env \<Rightarrow> hresult eng" where
  "init_clr2_runtime env =
     (let (hr, cor) = e_CorBindToRuntimeEx env in
      obind (es_acquire cor) (\<lambda>_.
      obind (es_upd (\<lambda>g. g\<lparr>g_pCorRuntime := cor\<rparr>)) (\<lambda>_.
      if FAILED hr then oreturn hr
      else obind (init_runtime_version ''v2.0.50727'') (\<lambda>_. oreturn hr))))"

definition init_clr_runtime :: "clr_env \<Rightarrow> hresult eng" where
  "init_clr_runtime env =
     (let (hr, mh) = e_CLRCreateInstance env in
      obind (es_acquire mh) (\<lambda>_.
      obind (if SUCCEEDED hr then obind (es_deref mh) (\<lambda>_. init_clr4_runtime env)
             else init_clr2_runtime env) (\<lambda>hr.
      obind (es_release mh) (\<lambda>_.
      oreturn hr))))"

section \<open>Starting the host factory\<close>

definition asp_module_lock98 :: "clr_env \<Rightarrow> unit eng" where
  "asp_module_lock98 env =
     (case e_module_name env of
        Some hr \<Rightarrow>
          obind (es_logs (LOG APLOG_ERR (APR_FROM_OS_ERROR hr)
             ''mod_aspdotnet: Failed to discover the full file path to mod_aspdotnet.so.  (Was it renamed?)''))
            (\<lambda>_. othrow (Raised hr))
      | None \<Rightarrow>
          obind (es_upd (\<lambda>g. g\<lparr>g_lock_module := e_LoadLibrary env\<rparr>)) (\<lambda>_.
          es_emit (ModuleLocked (e_LoadLibrary env))))"

definition asp_module_lock :: "clr_env \<Rightarrow> unit eng" where
  "asp_module_lock env =
     (case e_module_name env of
        Some hr \<Rightarrow>
          obind (es_logs (LOG APLOG_ERR (APR_FROM_OS_ERROR hr)
             ''mod_aspdotnet: Failed to discover the full file path to mod_aspdotnet.so.  (Was it renamed?)''))
            (\<lambda>_. othrow (Raised hr))
      | None \<Rightarrow>
          obind (es_upd (\<lambda>g. g\<lparr>g_lock_module := e_LoadLibrary env\<rparr>)) (\<lambda>_.
          es_emit (ModuleLocked (e_LoadLibrary env))))"

text \<open>
  The two tests the code makes after a call with an out parameter: a failing \<open>HRESULT\<close> is
  logged and raised; a null pointer is logged (with the successful \<open>HRESULT\<close>) and raised as
  \<open>E_NOINTERFACE\<close>.
\<close>

definition es_fail :: "hresult \<Rightarrow> string \<Rightarrow> unit eng" where
  "es_fail hr msg =
     (if FAILED hr
      then obind (es_logs (LOG APLOG_ERR (APR_FROM_OS_ERROR hr) msg)) (\<lambda>_. othrow (Raised hr))
      else oreturn ())"

definition es_check :: "hresult \<Rightarrow> ptr \<Rightarrow> string \<Rightarrow> string \<Rightarrow> nat eng" where
  "es_check hr p msg1 msg2 =
     obind (es_fail hr msg1) (\<lambda>_.
       case p of
         None \<Rightarrow> obind (es_logs (LOG APLOG_ERR (APR_FROM_OS_ERROR hr) msg2)) (\<lambda>_. othrow (Raised E_NOINTERFACE))
       | Some a \<Rightarrow> oreturn a)"

definition es_debug :: "string \<Rightarrow> unit eng" where
  "es_debug msg = es_logs (LOG (APLOG_DEBUG OR APLOG_NOERRNO) 0 msg)"

text \<open>
  \<open>init_asp_engine\<close> in its four stretches: the lock of the module and the load of the runtime,
  whose result is not looked at; the start of the runtime; the default application domain;
  the host factory in it.
\<close>

definition lock_and_load :: "clr_env \<Rightarrow> unit eng" where
  "lock_and_load env =
     obind (es_upd (\<lambda>g. g\<lparr>g_osver := (if e_win98 env then 1 else 2)\<rparr>)) (\<lambda>_.
     obind (if e_win98 env then asp_module_lock98 env else asp_module_lock env) (\<lambda>_.
     obind (es_emit CleanupRegistered) (\<lambda>_.
     obind (es_debug ''mod_aspdotnet: Module initialization commencing...'') (\<lambda>_.
     obind (init_clr_runtime env) (\<lambda>_.
     es_logs (LOG (APLOG_NOTICE OR APLOG_NOERRNO) 0
                ''mod_aspdotnet: It has loaded version %s of the .NET CLR engine.''))))))"

definition start_runtime :: "clr_env \<Rightarrow> unit eng" where
  "start_runtime env =
     obind (oget (\<lambda>s. g_pCorRuntime (es_conf s))) (\<lambda>cor.
     obind (es_deref cor) (\<lambda>_.
     obind (es_fail (e_Start env) ''mod_aspdotnet: Could not start the .NET CLR engine.'') (\<lambda>_.
     obind (es_emit RuntimeStarted) (\<lambda>_.
     es_debug ''mod_aspdotnet: Module started .NET CLR...''))))"

definition default_domain :: "clr_env \<Rightarrow> nat eng" where
  "default_domain env =
     (let (hr, dom) = e_GetDefaultDomain env in
      obind (es_acquire dom) (\<lambda>_.
      obind (es_check hr dom
        ''mod_aspdotnet: Could not retrieve the .NET default application domain.''
        ''mod_aspdotnet: Could not retrieve the .NET default application domain's interface.'') (\<lambda>dom.
      let (hr, ad) = e_QI_AppDomain env in
      obind (es_acquire ad) (\<lambda>_.
      obind (es_emit (Released dom)) (\<lambda>_.
      obind (es_check hr ad
        ''mod_aspdotnet: Could not retrieve the .NET default application domain's _AppDomain interface.''
        ''mod_aspdotnet: Could not retrieve the .NET default application domain _AppDomain interface.'') (\<lambda>ad.
      obind (es_debug ''mod_aspdotnet: Module initialized .NET default AppDomain...'') (\<lambda>_.
      oreturn ad)))))))"

definition make_factory :: "clr_env \<Rightarrow> nat \<Rightarrow> unit eng" where
  "make_factory env ad =
     (let (hr, oh) = e_CreateInstance env in
      obind (es_acquire oh) (\<lambda>_.
      obind (es_emit (Released ad)) (\<lambda>_.
      obind (es_check hr oh
        ''mod_aspdotnet: Could not create the .NET interface for the Apache.Web.HostFactory.''
        ''mod_aspdotnet: Could not retrieve the .NET object for the Apache.Web.HostFactory.'') (\<lambda>_.
      let (hr, vhf) = e_Unwrap env in
      obind (es_acquire vhf) (\<lambda>_.
      obind (es_check hr vhf
        ''mod_aspdotnet: Could not unwrap the COM interface for the Apache.Web.HostFactory.''
        ''mod_aspdotnet: Could not retrieve the unknown COM interface for the Apache.Web.HostFactory.'') (\<lambda>vhf.
      let (hr, hf) = e_QI_HostFactory env in
      obind (es_acquire hf) (\<lambda>_.
      obind (es_upd (\<lambda>g. g\<lparr>g_pHostFactory := hf\<rparr>)) (\<lambda>_.
      obind (es_emit (Released vhf)) (\<lambda>_.
      obind (es_fail hr
        ''mod_aspdotnet: Could not retrieve the COM interface for the Apache.Web.HostFactory.'') (\<lambda>_.
      obind (es_debug ''mod_aspdotnet: Module initialized HostFactory...'') (\<lambda>_.
      obind (es_deref hf) (\<lambda>_.
      obind (es_emit FactoryConfigured) (\<lambda>_.
      obind (es_fail (e_Configure env)
        ''mod_aspdotnet: Could not correctly configure the Apache.Web.HostFactory.'') (\<lambda>_.
      es_debug ''mod_aspdotnet: HostFactory configuration complete.''))))))))))))))"

definition init_asp_engine :: "clr_env \<Rightarrow> hresult eng" where
  "init_asp_engine env =
     obind (lock_and_load env) (\<lambda>_.
     obind (start_runtime env) (\<lambda>_.
     obind (default_domain env) (\<lambda>ad.
     obind (make_factory env ad) (\<lambda>_.
     oreturn S_OK))))"

section \<open>Shutting down\<close>

definition asp_net_stop :: "asp_net_conf \<Rightarrow> com_event list" where
  "asp_net_stop g =
     (case g_pHostFactory g of None \<Rightarrow> [] | Some f \<Rightarrow> [FactoryDestroyed, Released f]) @
     (case g_pCorRuntime g of None \<Rightarrow> [] | Some c \<Rightarrow> [RuntimeStopped, Released c])"

section \<open>The configuration hooks\<close>

text \<open>
  \<open>asp_net_pre_config\<close>: the structure kept as user data of the process pool, or a new one
  when there is none. \<open>found\<close> is the result of \<open>apr_pool_userdata_get\<close>.
\<close>

definition asp_net_pre_config :: "apr_status_t \<times> asp_net_conf option \<Rightarrow> asp_net_conf" where
  "asp_net_pre_config found =
     (case found of
        (rv, None) \<Rightarrow> new_asp_net_conf
      | (rv, Some g) \<Rightarrow> (if rv \<noteq> APR_SUCCESS then new_asp_net_conf else g))"

text \<open>
  One pass over the host table: the order of \<open>apr_hash_first\<close>/\<open>apr_hash_next\<close> is the list
  of record addresses. \<open>create\<close> is the factory's \<open>CreateHost\<close> behind its COM wrapper
  (\<open>Inl hr\<close> a \<open>_com_error\<close>), over the factory's own state \<open>'f\<close>. \<open>u8w\<close> is
  \<open>MultiByteToWideChar(CP_UTF8, ..)\<close>, \<open>None\<close> when it converts nothing, and \<open>acp\<close> the default
  multibyte conversion of \<open>_bstr_t\<close>. An address that is in no record is skipped; the
  invariant \<open>hosts_wf\<close> excludes it.
\<close>

definition to_bstr :: "(string \<Rightarrow> wstr option) \<Rightarrow> (string \<Rightarrow> wstr) \<Rightarrow> string \<Rightarrow> wstr" where
  "to_bstr u8w acp s = (case u8w s of Some w \<Rightarrow> w | None \<Rightarrow> acp s)"

definition set_host_key :: "addr \<Rightarrow> int \<Rightarrow> asp_net_conf \<Rightarrow> asp_net_conf" where
  "set_host_key a k g =
     g\<lparr>g_host_store := (g_host_store g)(a := map_option (\<lambda>h. h\<lparr>h_host_key := k\<rparr>) (g_host_store g a))\<rparr>"

fun create_hosts ::
  "'f creator \<Rightarrow> (string \<Rightarrow> wstr) \<Rightarrow> ptr \<Rightarrow> addr list \<Rightarrow> asp_net_conf \<Rightarrow> 'f \<Rightarrow>
   int \<times> asp_net_conf \<times> 'f \<times> log_entry list" where
  "create_hosts create bstr server [] g f = (OK, g, f, [])"
| "create_hosts create bstr server (a # as) g f =
     (case g_host_store g a of
        None \<Rightarrow> create_hosts create bstr server as g f
      | Some h \<Rightarrow>
          if h_host_key h \<noteq> -1 then create_hosts create bstr server as g f
          else
            (case create (bstr (h_virtual_path h)) (bstr (h_physical_path h)) server f of
               (Inl hr, f') \<Rightarrow>
                 (1, g, f', [LOG APLOG_CRIT (APR_FROM_OS_ERROR hr) ''mod_aspdotnet: Failed to create Host connector for %s mapped to %s'',
                             LOG APLOG_CRIT (APR_FROM_OS_ERROR hr) ''mod_aspdotnet: %s''])
             | (Inr k, f') \<Rightarrow>
                 let g' = set_host_key a k g in
                 if k = -1 then
                   (1, g', f', [LOG APLOG_CRIT (APR_FROM_OS_ERROR E_NOINTERFACE) ''mod_aspdotnet: Failed to create Host connector for %s mapped to %s'',
                                LOG APLOG_CRIT (APR_FROM_OS_ERROR E_NOINTERFACE) ''mod_aspdotnet: %s''])
                 else
                   (case create_hosts create bstr server as g' f' of
                      (st, g'', f'', log) \<Rightarrow>
                        (st, g'', f'',
                         LOG (APLOG_DEBUG OR APLOG_NOERRNO) 0 ''mod_aspdotnet: Sucessfully created Host for %s mapped to %s'' # log))))"

text \<open>
  \<open>asp_net_post_config\<close>. \<open>coinit\<close> and \<open>coinitex\<close> are the results of \<open>CoInitialize\<close> and
  \<open>CoInitializeEx\<close>; \<open>None\<close> as the status is a fault of the process.
\<close>

definition start_engine :: "clr_env \<Rightarrow> hresult \<Rightarrow> hresult \<Rightarrow> engine_state \<Rightarrow> int option \<times> engine_state" where
  "start_engine env coinit coinitex s =
     (if g_pCorRuntime (es_conf s) = None \<or> g_pHostFactory (es_conf s) = None then
        (let hr = (if coinit = RPC_E_CHANGED_MODE then coinitex else coinit) in
         if FAILED hr then
           (Some 1, snd (es_logs (LOG APLOG_CRIT (APR_FROM_OS_ERROR hr)
              ''mod_aspdotnet: Failed to CoInitialize the threaded COM engine for .NET CLR interop!'') s))
         else
           (case init_asp_engine env s of
              (Inl Fault, s) \<Rightarrow> (None, s)
            | (Inl (Raised hr), s) \<Rightarrow>
                (let s = snd (es_logs (LOG APLOG_CRIT (APR_FROM_OS_ERROR hr)
                           ''mod_aspdotnet: Failed to start Asp.Net Apache.Web host factory'') s)
                 in (Some 1,
                     case e_Description env of
                       None \<Rightarrow> s
                     | Some desc \<Rightarrow> snd (es_logs (LOG APLOG_CRIT (APR_FROM_OS_ERROR hr) (''mod_aspdotnet: '' @ desc)) s)))
            | (Inr _, s) \<Rightarrow> (Some OK, s)))
      else (Some OK, s))"

definition asp_net_post_config ::
  "clr_env \<Rightarrow> hresult \<Rightarrow> hresult \<Rightarrow> 'f creator \<Rightarrow> (string \<Rightarrow> wstr option) \<Rightarrow> (string \<Rightarrow> wstr) \<Rightarrow>
   ptr \<Rightarrow> (asp_net_conf \<Rightarrow> addr list) \<Rightarrow> engine_state \<Rightarrow> 'f \<Rightarrow> int option \<times> engine_state \<times> 'f" where
  "asp_net_post_config env coinit coinitex create u8w acp server iter s f =
     (let s = snd (es_emit (VersionComponent (version_component 2 4)) s) in
      case start_engine env coinit coinitex s of
        (None, s) \<Rightarrow> (None, s, f)
      | (Some st, s) \<Rightarrow>
          if st \<noteq> OK then (Some st, s, f)
          else
            (case create_hosts create (to_bstr u8w acp) server (iter (es_conf s)) (es_conf s) f of
               (st, g, f', log) \<Rightarrow>
                 (Some st, s\<lparr>es_conf := g, es_log := es_log s @ log\<rparr>, f')))"

end
