(* ===== verification/Module_Hosts.thy ===== *)
theory Module_Hosts
  imports Module_Engine
begin

text \<open>
  What \<open>asp_net_post_config\<close> makes of the host table, proved from the contract of the
  factory: after it succeeds, every mounted host has a key, and the key names the factory
  entry created from that host's own paths.
\<close>

section \<open>Keys and entries agree\<close>

text \<open>
  Every record with a key is registered in the factory under it with its own paths, and no
  two records share a key.
\<close>

definition keys_agree ::
  "('f \<Rightarrow> int \<Rightarrow> (wstr \<times> wstr) option) \<Rightarrow> (wstr \<Rightarrow> wstr) \<Rightarrow> (string \<Rightarrow> wstr) \<Rightarrow>
   asp_net_conf \<Rightarrow> 'f \<Rightarrow> bool" where
  "keys_agree entry norm bstr g f \<longleftrightarrow>
     (\<forall>a h. g_host_store g a = Some h \<longrightarrow> h_host_key h \<noteq> -1 \<longrightarrow>
        entry f (h_host_key h) = Some (bstr (h_virtual_path h), norm (bstr (h_physical_path h)))) \<and>
     (\<forall>a b h k. g_host_store g a = Some h \<longrightarrow> g_host_store g b = Some k \<longrightarrow>
        h_host_key h = h_host_key k \<longrightarrow> h_host_key h \<noteq> -1 \<longrightarrow> a = b)"

text \<open>The records differ from before in their keys at most, and only where there was none.\<close>

definition keys_extend :: "asp_net_conf \<Rightarrow> asp_net_conf \<Rightarrow> bool" where
  "keys_extend g g' \<longleftrightarrow>
     g_hosts g' = g_hosts g \<and> g_next_host g' = g_next_host g \<and>
     (\<forall>a. case g_host_store g a of
            None \<Rightarrow> g_host_store g' a = None
          | Some h \<Rightarrow> \<exists>k. g_host_store g' a = Some (h\<lparr>h_host_key := k\<rparr>) \<and>
                          (h_host_key h \<noteq> -1 \<longrightarrow> k = h_host_key h))"

lemma same_key [simp]:
  "\<exists>k. x = x\<lparr>h_host_key := k\<rparr> \<and> (h_host_key x \<noteq> -1 \<longrightarrow> k = h_host_key x)"
  by (rule exI [of _ "h_host_key x"]) simp

lemma keys_extend_refl [simp]: "keys_extend g g"
  by (auto simp: keys_extend_def split: option.splits)

lemma keys_extendD:
  assumes "keys_extend g g'" "g_host_store g a = Some h"
  obtains k where "g_host_store g' a = Some (h\<lparr>h_host_key := k\<rparr>)" "h_host_key h \<noteq> -1 \<longrightarrow> k = h_host_key h"
proof -
  from assms have "\<exists>k. g_host_store g' a = Some (h\<lparr>h_host_key := k\<rparr>) \<and> (h_host_key h \<noteq> -1 \<longrightarrow> k = h_host_key h)"
    unfolding keys_extend_def by (auto split: option.splits dest: spec [of _ a])
  then show ?thesis using that by blast
qed

lemma keys_extend_None: "keys_extend g g' \<Longrightarrow> g_host_store g a = None \<Longrightarrow> g_host_store g' a = None"
  unfolding keys_extend_def by (auto split: option.splits dest: spec [of _ a])

lemma keys_extend_trans:
  assumes "keys_extend g g'" "keys_extend g' g''"
  shows "keys_extend g g''"
  unfolding keys_extend_def
proof (intro conjI allI)
  show "g_hosts g'' = g_hosts g" "g_next_host g'' = g_next_host g"
    using assms by (simp_all add: keys_extend_def)
  fix a
  show "case g_host_store g a of
          None \<Rightarrow> g_host_store g'' a = None
        | Some h \<Rightarrow> \<exists>k. g_host_store g'' a = Some (h\<lparr>h_host_key := k\<rparr>) \<and>
                        (h_host_key h \<noteq> -1 \<longrightarrow> k = h_host_key h)"
  proof (cases "g_host_store g a")
    case None
    then show ?thesis using assms by (simp add: keys_extend_None)
  next
    case (Some h)
    obtain k where k: "g_host_store g' a = Some (h\<lparr>h_host_key := k\<rparr>)" "h_host_key h \<noteq> -1 \<longrightarrow> k = h_host_key h"
      by (rule keys_extendD [OF assms(1) Some])
    obtain m where "g_host_store g'' a = Some (h\<lparr>h_host_key := k\<rparr>\<lparr>h_host_key := m\<rparr>)"
        "h_host_key (h\<lparr>h_host_key := k\<rparr>) \<noteq> -1 \<longrightarrow> m = h_host_key (h\<lparr>h_host_key := k\<rparr>)"
      by (rule keys_extendD [OF assms(2) k(1)])
    with k Some show ?thesis by auto
  qed
qed

lemma set_host_key_extend:
  "g_host_store g a = Some h \<Longrightarrow> h_host_key h = -1 \<Longrightarrow> keys_extend g (set_host_key a k g)"
  by (auto simp: keys_extend_def set_host_key_def split: option.splits)

section \<open>The pass over the host table\<close>

context host_factory
begin

lemma set_host_key_agree:
  assumes agree: "keys_agree entry norm bstr g f" and inv: "inv f"
    and h: "g_host_store g a = Some h"
    and run: "create (bstr (h_virtual_path h)) (bstr (h_physical_path h)) s f = (Inr k, f')"
    and k: "k \<noteq> -1"
  shows "keys_agree entry norm bstr (set_host_key a k g) f'"
proof -
  have fresh: "entry f k = None" and new: "entry f' k = Some (bstr (h_virtual_path h), norm (bstr (h_physical_path h)))"
    using create_fresh [OF inv run k] create_key [OF inv run k] by simp_all
  have old: "entry f' (h_host_key x) = Some (bstr (h_virtual_path x), norm (bstr (h_physical_path x)))"
       "h_host_key x \<noteq> k"
    if "g_host_store g b = Some x" "h_host_key x \<noteq> -1" for b x
  proof -
    have "entry f (h_host_key x) = Some (bstr (h_virtual_path x), norm (bstr (h_physical_path x)))"
      using agree that by (simp add: keys_agree_def)
    then show "entry f' (h_host_key x) = Some (bstr (h_virtual_path x), norm (bstr (h_physical_path x)))"
      "h_host_key x \<noteq> k"
      using create_frame [OF inv run] fresh by auto
  qed
  show ?thesis
    unfolding keys_agree_def
  proof (intro conjI allI impI)
    fix b x assume "g_host_store (set_host_key a k g) b = Some x" "h_host_key x \<noteq> -1"
    then show "entry f' (h_host_key x) = Some (bstr (h_virtual_path x), norm (bstr (h_physical_path x)))"
      using h new old(1) by (auto simp: set_host_key_def split: if_splits)
  next
    fix b c x y
    assume "g_host_store (set_host_key a k g) b = Some x" "g_host_store (set_host_key a k g) c = Some y"
      "h_host_key x = h_host_key y" "h_host_key x \<noteq> -1"
    moreover have "g_host_store g b = Some x \<Longrightarrow> g_host_store g c = Some y \<Longrightarrow>
        h_host_key x = h_host_key y \<Longrightarrow> h_host_key x \<noteq> -1 \<Longrightarrow> b = c"
      using agree unfolding keys_agree_def by blast
    ultimately show "b = c"
      using h by (auto simp: set_host_key_def split: if_splits dest: old(2))
  qed
qed

lemma create_agree:
  assumes agree: "keys_agree entry norm bstr g f" and inv: "inv f" and run: "create v p s f = (r, f')"
  shows "keys_agree entry norm bstr g f'"
  using agree create_frame [OF inv run] by (simp add: keys_agree_def)

text \<open>One pass: nothing registered is lost, and success means every host of the list has a key.\<close>

lemma create_hosts_correct:
  assumes "create_hosts create bstr server as g f = (st, g', f', log)"
    and "keys_agree entry norm bstr g f" "inv f"
  shows "keys_extend g g' \<and> keys_agree entry norm bstr g' f' \<and> inv f' \<and>
         (st = OK \<longrightarrow> (\<forall>a \<in> set as. \<forall>h. g_host_store g' a = Some h \<longrightarrow> h_host_key h \<noteq> -1))"
  using assms
proof (induction as arbitrary: g f st g' f' log)
  case Nil
  then show ?case by simp
next
  case (Cons a as)
  show ?case
  proof (cases "\<exists>h. g_host_store g a = Some h \<and> h_host_key h = -1")
    case False
    with Cons.prems(1) have rec: "create_hosts create bstr server as g f = (st, g', f', log)"
      by (auto split: option.splits)
    note IH = Cons.IH [OF rec Cons.prems(2,3)]
    have "h_host_key h \<noteq> -1" if "g_host_store g' a = Some h" for h
    proof (cases "g_host_store g a")
      case None
      with IH that keys_extend_None show ?thesis by fastforce
    next
      case (Some x)
      obtain k where "g_host_store g' a = Some (x\<lparr>h_host_key := k\<rparr>)" "h_host_key x \<noteq> -1 \<longrightarrow> k = h_host_key x"
        using IH Some by (blast elim: keys_extendD)
      with False Some that show ?thesis by auto
    qed
    with IH show ?thesis by auto
  next
    case True
    then obtain h where h: "g_host_store g a = Some h" "h_host_key h = -1" by blast
    obtain r f1 where run: "create (bstr (h_virtual_path h)) (bstr (h_physical_path h)) server f = (r, f1)"
      by fastforce
    note inv1 = create_inv [OF Cons.prems(3) run]
    show ?thesis
    proof (cases r)
      case (Inl hr)
      with Cons.prems(1) h run have "st = 1" "g' = g" "f' = f1" by auto
      then show ?thesis
        using inv1 create_agree [OF Cons.prems(2,3) run] by (simp add: OK_def)
    next
      case (Inr k)
      note run' = run [unfolded Inr]
      let ?g1 = "set_host_key a k g"
      have ext: "keys_extend g ?g1" by (rule set_host_key_extend [OF h])
      show ?thesis
      proof (cases "k = -1")
        case True
        with Cons.prems(1) h run' have "st = 1" "g' = ?g1" "f' = f1" by (auto simp: Let_def)
        moreover have "h\<lparr>h_host_key := -1\<rparr> = h" using h(2) by (metis asp_net_host_conf.surjective asp_net_host_conf.update_convs(4) asp_net_host_conf.select_convs(4))
        then have "?g1 = g"
          using h True by (simp add: set_host_key_def fun_upd_idem)
        ultimately show ?thesis
          using inv1 create_agree [OF Cons.prems(2,3) run] by (simp add: OK_def)
      next
        case False
        obtain log1 where rec: "create_hosts create bstr server as ?g1 f1 = (st, g', f', log1)"
          using Cons.prems(1) h run' False by (auto simp: Let_def split: prod.splits)
        note IH = Cons.IH [OF rec set_host_key_agree [OF Cons.prems(2,3) h(1) run' False] inv1]
        have a1: "g_host_store ?g1 a = Some (h\<lparr>h_host_key := k\<rparr>)" using h by (simp add: set_host_key_def)
        have ext1: "keys_extend ?g1 g'" using IH by simp
        obtain m where m: "g_host_store g' a = Some (h\<lparr>h_host_key := k\<rparr>\<lparr>h_host_key := m\<rparr>)"
            "h_host_key (h\<lparr>h_host_key := k\<rparr>) \<noteq> -1 \<longrightarrow> m = h_host_key (h\<lparr>h_host_key := k\<rparr>)"
          by (rule keys_extendD [OF ext1 a1])
        have "\<forall>x. g_host_store g' a = Some x \<longrightarrow> h_host_key x \<noteq> -1"
          using m False by simp
        then show ?thesis using IH keys_extend_trans [OF ext ext1] by simp
      qed
    qed
  qed
qed

end

end
