(* ===== verification/Host_Factory.thy ===== *)
theory Host_Factory
  imports Host Module_Hosts
begin

text \<open>
  The host factory of \<open>Apache.Web/HostFactory.h\<close>: the four parallel lists of the mounts, the
  creation and restart of host objects, and the dispatch of a request to a host. The
  framework's \<open>CreateApplicationHost\<close>, the remoted calls of a host and the text of an
  exception are the fields of \<open>app_env\<close>, over the state \<open>'w\<close> of everything outside of the
  factory (application domains, the request). The factory keeps the contract of
  \<open>Factory_Interface\<close>, by an interpretation of its locale.
\<close>

section \<open>State\<close>

text \<open>
  An \<open>ArrayList^\<close> is \<open>None\<close> when null. A host object is the reference to its proxy, a
  number; \<open>f_locks\<close> is how often the calling thread holds the monitor of the factory.
\<close>

record factory =
  f_utf8_encoding :: bool
  f_hostURI :: "wstr list option"
  f_hostDir :: "wstr list option"
  f_hostObj :: "ptr list option"
  f_hostSvr :: "ptr list option"
  f_module_index :: int
  f_locks :: nat

definition new_factory :: factory where
  "new_factory = \<lparr>f_utf8_encoding = True, f_hostURI = Some [], f_hostDir = Some [],
     f_hostObj = Some [], f_hostSvr = Some [], f_module_index = 0, f_locks = 0\<rparr>"

definition factory_InitializeLifetimeService :: "lease \<Rightarrow> lease" where
  "factory_InitializeLifetimeService l =
     (if ls_CurrentState l = LeaseInitial
      then l\<lparr>ls_InitialLeaseTime := FromDays 366, ls_SponsorshipTimeout := FromMinutes 2,
             ls_RenewOnCallTime := FromMinutes 1\<rparr>
      else l)"

record 'w fstate =
  fs_fac :: factory
  fs_world :: 'w
  fs_log :: "log_entry list"

record 'w app_env =
  ae_encodings :: encodings
  ae_culture :: culture
  ae_ToString :: "exn \<Rightarrow> wstr"
  ae_CreateApplicationHost :: "wstr \<Rightarrow> wstr \<Rightarrow> ('w, ptr) meth"
  ae_Configure :: "nat \<Rightarrow> wstr \<Rightarrow> wstr \<Rightarrow> int \<Rightarrow> int \<Rightarrow> ('w, unit) meth"
  ae_HandleRequest :: "nat \<Rightarrow> ('w, int) meth"

text \<open>A call that leaves the factory alone.\<close>

definition in_world :: "('w, 'a) meth \<Rightarrow> ('w fstate, 'a) meth" where
  "in_world m s = (case m (fs_world s) of (r, w) \<Rightarrow> (r, s\<lparr>fs_world := w\<rparr>))"

definition upd_fac :: "(factory \<Rightarrow> factory) \<Rightarrow> ('w fstate, unit) meth" where
  "upd_fac g = omap (\<lambda>s. s\<lparr>fs_fac := g (fs_fac s)\<rparr>)"

text \<open>Reading and writing an element of an \<open>ArrayList^\<close>.\<close>

definition list_item :: "'a list option \<Rightarrow> int \<Rightarrow> exn + 'a" where
  "list_item l k =
     (case l of
        None \<Rightarrow> Inl NullReference
      | Some xs \<Rightarrow> if 0 \<le> k \<and> k < int (length xs) then Inr (xs ! nat k) else Inl ArgumentOutOfRange)"

definition get_item :: "(factory \<Rightarrow> 'a list option) \<Rightarrow> int \<Rightarrow> ('w fstate, 'a) meth" where
  "get_item sel k = obind (oget (\<lambda>s. sel (fs_fac s))) (\<lambda>l. olift (list_item l k))"

definition set_hostObj :: "int \<Rightarrow> ptr \<Rightarrow> ('w fstate, unit) meth" where
  "set_hostObj k p =
     obind (get_item f_hostObj k) (\<lambda>_.
       upd_fac (\<lambda>f. f\<lparr>f_hostObj := map_option (\<lambda>xs. xs[nat k := p]) (f_hostObj f)\<rparr>))"

section \<open>Logging\<close>

definition LogServerError ::
  "'w app_env \<Rightarrow> wstr \<Rightarrow> 32 word \<Rightarrow> apr_status_t \<Rightarrow> ('w fstate, unit) meth" where
  "LogServerError env msg loglevel rv =
     obind (oget (\<lambda>s. f_utf8_encoding (fs_fac s))) (\<lambda>u.
       if \<not> u then othrow NullReference
       else obind (olift (pin_first (en_utf8 (ae_encodings env) msg))) (\<lambda>_.
         omap (\<lambda>s. s\<lparr>fs_log := fs_log s @ [LOG (log_word loglevel rv) rv ''mod_aspdotnet: %s'']\<rparr>)))"

section \<open>Configuration and destruction\<close>

text \<open>\<open>valid\<close> is the result of \<open>CodeValidate\<close>, tested in a debug build only.\<close>

definition factory_Configure :: "bool \<Rightarrow> bool \<Rightarrow> int \<Rightarrow> ('w fstate, hresult) meth" where
  "factory_Configure debug valid module_index =
     obind (upd_fac (\<lambda>f. f\<lparr>f_module_index := module_index\<rparr>)) (\<lambda>_.
       oreturn (if debug \<and> \<not> valid then E_FAIL else S_OK))"

definition Destroy :: "('w fstate, unit) meth" where
  "Destroy =
     obind (oget (\<lambda>s. f_utf8_encoding (fs_fac s))) (\<lambda>u.
       if \<not> u then oreturn ()
       else
         obind (upd_fac (\<lambda>f. f\<lparr>f_utf8_encoding := False\<rparr>)) (\<lambda>_.
         obind (oget (\<lambda>s. f_hostObj (fs_fac s))) (\<lambda>objs.
         case objs of
           None \<Rightarrow> othrow NullReference
         | Some xs \<Rightarrow>
             obind (upd_fac (\<lambda>f. f\<lparr>f_hostObj := Some (replicate (length xs) None)\<rparr>)) (\<lambda>_.
             upd_fac (\<lambda>f. f\<lparr>f_hostURI := None, f_hostDir := None, f_hostObj := None, f_hostSvr := None\<rparr>)))))"

text \<open>The destructor, \<open>~HostFactory\<close>.\<close>

definition HostFactory_destructor :: "('w fstate, unit) meth" where
  "HostFactory_destructor = Destroy"

section \<open>Connecting a host\<close>

definition connect_failed :: "'w app_env \<Rightarrow> int \<Rightarrow> exn \<Rightarrow> ('w fstate, bool) meth" where
  "connect_failed env HostKey e =
     obind (get_item f_hostSvr HostKey) (\<lambda>_.
     obind (LogServerError env (wL ''mod_aspdotnet: CreateApplicationHost failed, Exception follows'') APLOG_ERR 0) (\<lambda>_.
     obind (LogServerError env (ae_ToString env e) APLOG_ERR 0) (\<lambda>_.
     obind (set_hostObj HostKey None) (\<lambda>_.
     oreturn False))))"

definition ConnectHost :: "'w app_env \<Rightarrow> int \<Rightarrow> ('w fstate, bool) meth" where
  "ConnectHost env HostKey =
     otry
       (obind (get_item f_hostURI HostKey) (\<lambda>uri.
        obind (get_item f_hostDir HostKey) (\<lambda>dir.
        obind (in_world (ae_CreateApplicationHost env uri dir)) (\<lambda>newHost.
        obind (set_hostObj HostKey newHost) (\<lambda>_.
        case newHost of
          Some h \<Rightarrow>
            obind (get_item f_hostURI HostKey) (\<lambda>uri.
            obind (get_item f_hostDir HostKey) (\<lambda>dir.
            obind (oget (\<lambda>s. f_module_index (fs_fac s))) (\<lambda>mi.
            obind (in_world (ae_Configure env h uri dir HostKey mi)) (\<lambda>_.
            oreturn True))))
        | None \<Rightarrow>
            obind (get_item f_hostSvr HostKey) (\<lambda>_.
            obind (LogServerError env (wL ''mod_aspdotnet: CreateApplicationHost returned NULL, perhaps the AspNetMount paths were invalid'')
              APLOG_ERR 0) (\<lambda>_.
            oreturn False)))))))
       (connect_failed env HostKey)"

text \<open>The monitor: leaving it without holding it throws.\<close>

definition monitor_enter :: "('w fstate, unit) meth" where
  "monitor_enter = upd_fac (\<lambda>f. f\<lparr>f_locks := Suc (f_locks f)\<rparr>)"

definition monitor_exit :: "('w fstate, unit) meth" where
  "monitor_exit =
     obind (oget (\<lambda>s. f_locks (fs_fac s))) (\<lambda>n.
       if n = 0 then othrow OtherException
       else upd_fac (\<lambda>f. f\<lparr>f_locks := f_locks f - 1\<rparr>))"

definition HostFinalized :: "int \<Rightarrow> nat \<Rightarrow> ('w fstate, unit) meth" where
  "HostFinalized HostKey thisHost =
     obind monitor_enter (\<lambda>_.
     obind (get_item f_hostObj HostKey) (\<lambda>obj.
     obind (if obj = Some thisHost then otry (set_hostObj HostKey None) (\<lambda>_. oreturn ()) else oreturn ()) (\<lambda>_.
     monitor_exit)))"

text \<open>\<open>ArrayList::Add\<close> on the four lists; a null list throws, before the later ones grow.\<close>

definition add_item ::
  "(factory \<Rightarrow> 'a list option) \<Rightarrow> (('a list option \<Rightarrow> 'a list option) \<Rightarrow> factory \<Rightarrow> factory) \<Rightarrow> 'a \<Rightarrow>
   ('w fstate, unit) meth" where
  "add_item sel upd x =
     obind (oget (\<lambda>s. sel (fs_fac s))) (\<lambda>l.
       case l of None \<Rightarrow> othrow NullReference | Some xs \<Rightarrow> upd_fac (upd (\<lambda>_. Some (xs @ [x]))))"

definition CreateHost :: "'w app_env \<Rightarrow> wstr \<Rightarrow> wstr \<Rightarrow> ptr \<Rightarrow> ('w fstate, int) meth" where
  "CreateHost env virtualPath physicalPath ServerRecPtr =
     (let physicalPath = Replace physicalPath slash backslash in
     obind (oget (\<lambda>s. f_hostObj (fs_fac s))) (\<lambda>objs.
     case objs of
       None \<Rightarrow> othrow NullReference
     | Some xs \<Rightarrow>
        (let newHostKey = int (length xs) in
         obind (add_item f_hostSvr f_hostSvr_update ServerRecPtr) (\<lambda>_.
         obind (add_item f_hostURI f_hostURI_update virtualPath) (\<lambda>_.
         obind (add_item f_hostDir f_hostDir_update physicalPath) (\<lambda>_.
         obind (add_item f_hostObj f_hostObj_update None) (\<lambda>_.
         obind (ConnectHost env newHostKey) (\<lambda>connected.
         if connected then oreturn newHostKey
         else
           obind (get_item f_hostURI newHostKey) (\<lambda>uri.
           obind (get_item f_hostDir newHostKey) (\<lambda>dir.
           obind (LogServerError env (wL ''Mount failure creating host '' @ uri @ wL '' mapped to '' @ dir)
             APLOG_ERR 0) (\<lambda>_.
           oreturn (-1))))))))))))"

section \<open>Handling a request\<close>

text \<open>
  The text of a message about a host concatenates its two paths, read from the lists.
\<close>

definition log_host ::
  "'w app_env \<Rightarrow> string \<Rightarrow> int \<Rightarrow> 32 word \<Rightarrow> ('w fstate, unit) meth" where
  "log_host env pre HostKey loglevel =
     obind (get_item f_hostURI HostKey) (\<lambda>uri.
     obind (get_item f_hostDir HostKey) (\<lambda>dir.
     LogServerError env (wL pre @ uri @ wL '' mapped to '' @ dir) loglevel 0))"

text \<open>
  The first attempt, when the list has an object: \<open>Some\<close> is the status to return, \<open>None\<close>
  falls through to the restart. The two exceptions that say the object is gone are
  reported at debug level.
\<close>

definition first_attempt :: "'w app_env \<Rightarrow> ptr \<Rightarrow> ('w fstate, int option) meth" where
  "first_attempt env obj =
     (case obj of
        None \<Rightarrow> oreturn None
      | Some h \<Rightarrow>
          otry (obind (in_world (ae_HandleRequest env h)) (\<lambda>st. oreturn (Some st)))
            (\<lambda>e. if e = Remoting then
                   obind (LogServerError env (wL ''RemotingException; '' @ ae_ToString env e) APLOG_DEBUG 0)
                     (\<lambda>_. oreturn None)
                 else if e = AppDomainUnloaded then
                   obind (LogServerError env (wL ''AppDomainUnloadedException; '' @ ae_ToString env e) APLOG_DEBUG 0)
                     (\<lambda>_. oreturn None)
                 else
                   obind (LogServerError env (wL ''HandleRequest: Failed with unexpected Exception; '' @ ae_ToString env e)
                     APLOG_ERR 0) (\<lambda>_. oreturn (Some 500))))"

text \<open>
  The restart under the monitor. \<open>interfere\<close> is what the other threads did to the factory
  and the world between the first reading of the list and the moment the monitor is
  entered. \<open>Inl\<close> is a status to return at once, \<open>Inr\<close> the object to use.
\<close>

definition restart_body :: "'w app_env \<Rightarrow> int \<Rightarrow> ptr \<Rightarrow> ('w fstate, int + ptr) meth" where
  "restart_body env HostKey obj =
     obind (get_item f_hostObj HostKey) (\<lambda>tryobj.
     obind (if tryobj = obj then otry (set_hostObj HostKey None) (\<lambda>_. oreturn ()) else oreturn ()) (\<lambda>_.
     (let obj = (if tryobj = obj then tryobj else obj) in
      if obj = None then
        obind (ConnectHost env HostKey) (\<lambda>connected.
        if \<not> connected then
          obind monitor_exit (\<lambda>_.
          obind (log_host env ''Mount failed to connect to the restarting host '' HostKey APLOG_ERR) (\<lambda>_.
          oreturn (Inl 500)))
        else
          obind (get_item f_hostObj HostKey) (\<lambda>obj.
          if obj = None then
            obind monitor_exit (\<lambda>_.
            obind (log_host env ''Mount failed to query the restarting host '' HostKey APLOG_ERR) (\<lambda>_.
            oreturn (Inl 500)))
          else obind monitor_exit (\<lambda>_. oreturn (Inr obj))))
      else obind monitor_exit (\<lambda>_. oreturn (Inr obj)))))"

definition restart :: "'w app_env \<Rightarrow> int \<Rightarrow> ptr \<Rightarrow> ('w fstate, int + ptr) meth" where
  "restart env HostKey obj =
     obind monitor_enter (\<lambda>_.
       otry (restart_body env HostKey obj)
         (\<lambda>e. obind monitor_exit (\<lambda>_.
              obind (log_host env ''Mount failure restarting host '' HostKey APLOG_ERR) (\<lambda>_.
              obind (LogServerError env (wL ''Mount failure exception restarting host; '' @ ae_ToString env e)
                APLOG_ERR 0) (\<lambda>_.
              oreturn (Inl 500))))))"

definition last_attempt :: "'w app_env \<Rightarrow> ptr \<Rightarrow> ('w fstate, int) meth" where
  "last_attempt env obj =
     otry (case obj of None \<Rightarrow> othrow NullReference | Some h \<Rightarrow> in_world (ae_HandleRequest env h))
       (\<lambda>e. obind (LogServerError env (wL ''RequestHandler; failure following host restart; '' @ ae_ToString env e)
              APLOG_ERR 0) (\<lambda>_. oreturn 500))"

definition HandleHostRequest ::
  "'w app_env \<Rightarrow> ('w fstate \<Rightarrow> 'w fstate) \<Rightarrow> int \<Rightarrow> ('w fstate, int) meth" where
  "HandleHostRequest env interfere HostKey =
     obind (get_item f_hostObj HostKey) (\<lambda>obj.
     obind (first_attempt env obj) (\<lambda>done1.
     case done1 of
       Some status \<Rightarrow> oreturn status
     | None \<Rightarrow>
         obind (log_host env ''Restarting host of '' HostKey APLOG_INFO) (\<lambda>_.
         obind (omap interfere) (\<lambda>_.
         obind (restart env HostKey obj) (\<lambda>r.
         case r of Inl status \<Rightarrow> oreturn status | Inr obj \<Rightarrow> last_attempt env obj)))))"

section \<open>The invariant of the factory\<close>

text \<open>
  A live factory has its encoding and four lists of the same length. A host key is an index
  into them, and the pair of paths at a key never changes.
\<close>

definition factory_wf :: "factory \<Rightarrow> bool" where
  "factory_wf f \<longleftrightarrow>
     f_utf8_encoding f \<and>
     (\<exists>us ds os ss. f_hostURI f = Some us \<and> f_hostDir f = Some ds \<and> f_hostObj f = Some os \<and>
        f_hostSvr f = Some ss \<and> length ds = length us \<and> length os = length us \<and> length ss = length us)"

definition factory_entry :: "factory \<Rightarrow> int \<Rightarrow> (wstr \<times> wstr) option" where
  "factory_entry f k =
     (case (list_item (f_hostURI f) k, list_item (f_hostDir f) k) of
        (Inr u, Inr d) \<Rightarrow> Some (u, d) | _ \<Rightarrow> None)"

text \<open>What connecting, restarting and dispatching may change: the objects only.\<close>

definition same_mounts :: "factory \<Rightarrow> factory \<Rightarrow> bool" where
  "same_mounts f f' \<longleftrightarrow>
     f_utf8_encoding f' = f_utf8_encoding f \<and> f_hostURI f' = f_hostURI f \<and> f_hostDir f' = f_hostDir f \<and>
     f_hostSvr f' = f_hostSvr f \<and> f_module_index f' = f_module_index f \<and>
     map_option length (f_hostObj f') = map_option length (f_hostObj f)"

lemma same_mounts_refl [simp]: "same_mounts f f"
  by (simp add: same_mounts_def)

lemma same_mounts_trans: "same_mounts f g \<Longrightarrow> same_mounts g h \<Longrightarrow> same_mounts f h"
  by (simp add: same_mounts_def)

lemma same_mounts_wf: "same_mounts f f' \<Longrightarrow> factory_wf f \<Longrightarrow> factory_wf f'"
  by (auto simp: same_mounts_def factory_wf_def)

lemma same_mounts_entry: "same_mounts f f' \<Longrightarrow> factory_entry f' k = factory_entry f k"
  by (simp add: same_mounts_def factory_entry_def)

text \<open>
  \<open>kept f n\<close>: the mounts are those of \<open>f\<close> and the thread holds the monitor \<open>n\<close> times.
\<close>

definition kept :: "factory \<Rightarrow> nat \<Rightarrow> 'w fstate \<Rightarrow> bool" where
  "kept f n s \<longleftrightarrow> same_mounts f (fs_fac s) \<and> f_locks (fs_fac s) = n"

lemma keeps_in_world [keeps_intros]: "keeps (kept f n) (in_world m)"
  by (auto simp: keeps_def in_world_def kept_def split: prod.splits)

lemma keeps_get_item [keeps_intros]: "keeps P (get_item sel k)"
  unfolding get_item_def by (intro keeps_intros)

lemma keeps_set_hostObj [keeps_intros]: "keeps (kept f n) (set_hostObj k p)"
  unfolding set_hostObj_def upd_fac_def
  by (intro keeps_intros) (auto simp: kept_def same_mounts_def option.map_comp comp_def)

lemma keeps_LogServerError [keeps_intros]: "keeps (kept f n) (LogServerError env msg lvl rv)"
  unfolding LogServerError_def by (intro keeps_intros) (simp_all add: kept_def)

lemma keeps_log_host [keeps_intros]: "keeps (kept f n) (log_host env pre k lvl)"
  unfolding log_host_def by (intro keeps_intros)

lemma keeps_case_ptr [keeps_intros]:
  "keeps P m \<Longrightarrow> (\<And>h. keeps P (m' h)) \<Longrightarrow> keeps P (case p of None \<Rightarrow> m | Some h \<Rightarrow> m' h)"
  by (cases p) simp_all

lemma keeps_ConnectHost [keeps_intros]: "keeps (kept f n) (ConnectHost env k)"
  unfolding ConnectHost_def connect_failed_def by (intro keeps_intros)

lemma keeps_first_attempt [keeps_intros]: "keeps (kept f n) (first_attempt env obj)"
  unfolding first_attempt_def by (intro keeps_intros)

lemma keeps_last_attempt [keeps_intros]: "keeps (kept f n) (last_attempt env obj)"
  unfolding last_attempt_def by (intro keeps_intros)

lemma kept_self: "kept (fs_fac s) (f_locks (fs_fac s)) s"
  by (simp add: kept_def)

section \<open>What cannot fail on a live factory\<close>

definition valid_key :: "factory \<Rightarrow> int \<Rightarrow> bool" where
  "valid_key f k \<longleftrightarrow> (\<exists>us. f_hostURI f = Some us \<and> 0 \<le> k \<and> k < int (length us))"

definition texts_ok :: "'w app_env \<Rightarrow> bool" where
  "texts_ok env \<longleftrightarrow> utf8_nonempty (ae_encodings env) \<and> (\<forall>e. ae_ToString env e \<noteq> [])"

lemma valid_key_mounts: "same_mounts f f' \<Longrightarrow> valid_key f' k \<longleftrightarrow> valid_key f k"
  by (simp add: valid_key_def same_mounts_def)

lemma factory_entry_valid: "factory_wf f \<Longrightarrow> (\<exists>e. factory_entry f k = Some e) \<longleftrightarrow> valid_key f k"
  by (auto simp: factory_wf_def factory_entry_def valid_key_def list_item_def split: if_splits)

lemma get_item_ok:
  assumes "factory_wf (fs_fac s)" "valid_key (fs_fac s) k"
  shows "\<exists>x. get_item f_hostURI k s = (Inr x, s)" "\<exists>x. get_item f_hostDir k s = (Inr x, s)"
    "\<exists>x. get_item f_hostSvr k s = (Inr x, s)" "\<exists>x. get_item f_hostObj k s = (Inr x, s)"
  using assms by (auto simp: factory_wf_def valid_key_def get_item_def list_item_def)

text \<open>The object at a key, and the state with another object there.\<close>

definition obj_at :: "factory \<Rightarrow> int \<Rightarrow> ptr" where
  "obj_at f k = (case f_hostObj f of Some os \<Rightarrow> os ! nat k | None \<Rightarrow> None)"

definition put_obj :: "int \<Rightarrow> ptr \<Rightarrow> 'w fstate \<Rightarrow> 'w fstate" where
  "put_obj k p s = s\<lparr>fs_fac := (fs_fac s)\<lparr>f_hostObj := map_option (\<lambda>xs. xs[nat k := p]) (f_hostObj (fs_fac s))\<rparr>\<rparr>"

lemma get_hostObj:
  "factory_wf (fs_fac s) \<Longrightarrow> valid_key (fs_fac s) k \<Longrightarrow> get_item f_hostObj k s = (Inr (obj_at (fs_fac s) k), s)"
  by (auto simp: factory_wf_def valid_key_def get_item_def list_item_def obj_at_def)

lemma set_hostObj_ok:
  "factory_wf (fs_fac s) \<Longrightarrow> valid_key (fs_fac s) k \<Longrightarrow> set_hostObj k p s = (Inr (), put_obj k p s)"
  by (simp add: set_hostObj_def obind_Inr [OF get_hostObj] upd_fac_def put_obj_def)

lemma put_obj_simps [simp]:
  "fs_world (put_obj k p s) = fs_world s" "fs_log (put_obj k p s) = fs_log s"
  "f_locks (fs_fac (put_obj k p s)) = f_locks (fs_fac s)"
  by (simp_all add: put_obj_def)

lemma put_obj_mounts [simp]: "same_mounts (fs_fac s) (fs_fac (put_obj k p s))"
  by (auto simp: put_obj_def same_mounts_def option.map_comp comp_def)

lemma obj_at_put_obj:
  "factory_wf (fs_fac s) \<Longrightarrow> valid_key (fs_fac s) k \<Longrightarrow> obj_at (fs_fac (put_obj k p s)) k = p"
  by (auto simp: factory_wf_def valid_key_def obj_at_def put_obj_def)

lemma LogServerError_ok:
  assumes "f_utf8_encoding (fs_fac s)" "texts_ok env" "m \<noteq> []"
  shows "LogServerError env m lvl rv s =
           (Inr (), s\<lparr>fs_log := fs_log s @ [LOG (log_word lvl rv) rv ''mod_aspdotnet: %s'']\<rparr>)"
proof -
  have "pin_first (en_utf8 (ae_encodings env) m) = Inr (en_utf8 (ae_encodings env) m)"
    using assms(2,3) by (simp add: pin_first_def texts_ok_def utf8_nonempty_def)
  then show ?thesis using assms(1) by (simp add: LogServerError_def meth_defs)
qed

lemma wL_app_nonempty [simp]: "wL (c # cs) @ s \<noteq> []" "wL (c # cs) \<noteq> []"
  by (simp_all add: wL_def)

lemma in_world_run: "m (fs_world s) = (r, w) \<Longrightarrow> in_world m s = (r, s\<lparr>fs_world := w\<rparr>)"
  by (simp add: in_world_def)

lemma kept_simps [simp]:
  "kept f n (s\<lparr>fs_log := l\<rparr>) = kept f n s" "kept f n (s\<lparr>fs_world := w\<rparr>) = kept f n s"
  by (simp_all add: kept_def)

lemma kept_put_obj: "kept f n s \<Longrightarrow> kept f n (put_obj k p s)"
  by (auto simp: kept_def intro: same_mounts_trans)

lemma kept_live:
  assumes "kept f n s" "factory_wf f" "valid_key f k"
  shows "factory_wf (fs_fac s)" "valid_key (fs_fac s) k" "f_utf8_encoding (fs_fac s)"
  using assms same_mounts_wf [of f "fs_fac s"] valid_key_mounts [of f "fs_fac s" k]
  by (auto simp: kept_def factory_wf_def)

lemma connect_failed_ok:
  assumes wf: "factory_wf f" "valid_key f k" "texts_ok env" and s: "kept f n s"
  shows "\<exists>s'. connect_failed env k e s = (Inr False, s') \<and> kept f n s' \<and>
              obj_at (fs_fac s') k = None \<and> fs_world s' = fs_world s"
proof -
  note live = kept_live [OF s wf(1,2)]
  have e: "ae_ToString env e \<noteq> []" using wf(3) by (simp add: texts_ok_def)
  obtain x where x: "get_item f_hostSvr k s = (Inr x, s)" using get_item_ok(3) [OF live(1,2)] by blast
  define s2 where "s2 = s\<lparr>fs_log := fs_log s @ replicate 2 (LOG (log_word APLOG_ERR 0) 0 ''mod_aspdotnet: %s'')\<rparr>"
  have "connect_failed env k e s = (Inr False, put_obj k None s2)"
    using x live e wf(3)
    by (simp add: connect_failed_def obind_def LogServerError_ok set_hostObj_ok s2_def numeral_2_eq_2)
  moreover have "kept f n s2" using s by (simp add: s2_def)
  ultimately show ?thesis
    using kept_put_obj [of f n s2 k None] obj_at_put_obj [of s2 k None] live by (simp add: s2_def)
qed

text \<open>Connecting never throws on a live factory, and the list tells its result.\<close>

lemma ConnectHost_ok:
  assumes wf: "factory_wf f" "valid_key f k" "texts_ok env" and s: "kept f n s"
  shows "\<exists>b s'. ConnectHost env k s = (Inr b, s') \<and> kept f n s' \<and> (b \<longleftrightarrow> obj_at (fs_fac s') k \<noteq> None)"
proof -
  note live = kept_live [OF s wf(1,2)]
  obtain u d v where ud: "get_item f_hostURI k s = (Inr u, s)" "get_item f_hostDir k s = (Inr d, s)"
    using get_item_ok [OF live(1,2)] by blast
  obtain r w where r: "ae_CreateApplicationHost env u d (fs_world s) = (r, w)" by fastforce
  define s1 where "s1 = s\<lparr>fs_world := w\<rparr>"
  have k1: "kept f n s1" using s by (simp add: s1_def)
  note live1 = kept_live [OF k1 wf(1,2)]
  have in1: "in_world (ae_CreateApplicationHost env u d) s = (r, s1)"
    using r by (simp add: in_world_def s1_def)
  show ?thesis
  proof (cases r)
    case (Inl e)
    with ud in1 have "ConnectHost env k s = connect_failed env k e s1"
      by (simp add: ConnectHost_def obind_def otry_def)
    with connect_failed_ok [OF wf k1, of e] show ?thesis by auto
  next
    case (Inr p)
    define s2 where "s2 = put_obj k p s1"
    have k2: "kept f n s2" using kept_put_obj [OF k1] by (simp add: s2_def)
    note live2 = kept_live [OF k2 wf(1,2)]
    have o2: "obj_at (fs_fac s2) k = p" using obj_at_put_obj live1 by (simp add: s2_def)
    have set2: "set_hostObj k p s1 = (Inr (), s2)" using set_hostObj_ok live1 by (simp add: s2_def)
    obtain u' d' v' where ud': "get_item f_hostURI k s2 = (Inr u', s2)" "get_item f_hostDir k s2 = (Inr d', s2)"
      "get_item f_hostSvr k s2 = (Inr v', s2)"
      using get_item_ok [OF live2(1,2)] by blast
    show ?thesis
    proof (cases p)
      case None
      with ud in1 Inr set2 ud'(3) live2 wf(3) have
        "ConnectHost env k s = (Inr False, s2\<lparr>fs_log := fs_log s2 @ [LOG (log_word APLOG_ERR 0) 0 ''mod_aspdotnet: %s'']\<rparr>)"
        by (simp add: ConnectHost_def obind_def otry_def LogServerError_ok)
      with None o2 k2 show ?thesis by auto
    next
      case (Some h)
      obtain r' w' where r': "ae_Configure env h u' d' k (f_module_index (fs_fac s2)) (fs_world s2) = (r', w')"
        by fastforce
      define s3 where "s3 = s2\<lparr>fs_world := w'\<rparr>"
      have k3: "kept f n s3" using k2 by (simp add: s3_def)
      have run: "ConnectHost env k s =
          (case r' of Inl e \<Rightarrow> connect_failed env k e s3 | Inr _ \<Rightarrow> (Inr True, s3))"
        using Some ud in1 Inr set2 ud' r'
        by (simp add: ConnectHost_def obind_def otry_def in_world_def s3_def split: sum.split)
      show ?thesis
      proof (cases r')
        case (Inl e)
        with run connect_failed_ok [OF wf k3, of e] show ?thesis by auto
      next
        case (Inr x)
        with run o2 Some k3 show ?thesis by (auto simp: s3_def)
      qed
    qed
  qed
qed

lemma entry_items:
  "factory_entry (fs_fac s) k = Some (u, d) \<Longrightarrow>
   get_item f_hostURI k s = (Inr u, s) \<and> get_item f_hostDir k s = (Inr d, s)"
  by (auto simp: factory_entry_def get_item_def split: sum.splits)

lemma put_obj_world [simp]: "put_obj k p (s\<lparr>fs_world := w\<rparr>) = (put_obj k p s)\<lparr>fs_world := w\<rparr>"
  by (simp add: put_obj_def)

lemma ConnectHost_success:
  assumes wf: "factory_wf f" "valid_key f k" and s: "kept f n s" and e: "factory_entry f k = Some (u, d)"
    and create: "ae_CreateApplicationHost env u d (fs_world s) = (Inr (Some h), w1)"
    and conf: "ae_Configure env h u d k (f_module_index f) w1 = (Inr (), w2)"
  shows "ConnectHost env k s = (Inr True, (put_obj k (Some h) s)\<lparr>fs_world := w2\<rparr>)"
proof -
  define s1 where "s1 = s\<lparr>fs_world := w1\<rparr>"
  define s2 where "s2 = put_obj k (Some h) s1"
  have k1: "kept f n s1" and k2: "kept f n s2"
    using s kept_put_obj by (simp_all add: s1_def s2_def)
  have es: "factory_entry (fs_fac s) k = Some (u, d)" "factory_entry (fs_fac s2) k = Some (u, d)"
    using s k2 e same_mounts_entry [of f "fs_fac s" k] same_mounts_entry [of f "fs_fac s2" k]
    by (simp_all add: kept_def)
  have mi: "f_module_index (fs_fac s2) = f_module_index f" "fs_world s2 = w1"
    using k2 by (simp_all add: kept_def same_mounts_def s2_def s1_def)
  have "set_hostObj k (Some h) s1 = (Inr (), s2)"
    using set_hostObj_ok kept_live [OF k1 wf] by (simp add: s2_def)
  then have "ConnectHost env k s = (Inr True, s2\<lparr>fs_world := w2\<rparr>)"
    using entry_items [OF es(1)] entry_items [OF es(2)] create conf mi
    by (simp add: ConnectHost_def obind_def otry_def in_world_def s1_def [symmetric])
  then show ?thesis by (simp add: s2_def s1_def)
qed

section \<open>Restarting and dispatching on a live factory\<close>

lemma log_host_ok:
  assumes wf: "factory_wf f" "valid_key f k" "texts_ok env" and s: "kept f n s" and ne: "pre \<noteq> []"
  shows "log_host env pre k lvl s =
           (Inr (), s\<lparr>fs_log := fs_log s @ [LOG (log_word lvl 0) 0 ''mod_aspdotnet: %s'']\<rparr>)"
proof -
  note live = kept_live [OF s wf(1,2)]
  obtain u d where "get_item f_hostURI k s = (Inr u, s)" "get_item f_hostDir k s = (Inr d, s)"
    using get_item_ok [OF live(1,2)] by blast
  moreover have "wL pre @ m \<noteq> []" for m using ne by (cases pre) simp_all
  ultimately show ?thesis using live wf(3) by (simp add: log_host_def obind_def LogServerError_ok)
qed

text \<open>The state with the monitor held once more.\<close>

definition locked :: "'w fstate \<Rightarrow> 'w fstate" where
  "locked s = s\<lparr>fs_fac := (fs_fac s)\<lparr>f_locks := Suc (f_locks (fs_fac s))\<rparr>\<rparr>"

definition unlocked :: "'w fstate \<Rightarrow> 'w fstate" where
  "unlocked s = s\<lparr>fs_fac := (fs_fac s)\<lparr>f_locks := f_locks (fs_fac s) - 1\<rparr>\<rparr>"

lemma monitor_enter_run: "monitor_enter s = (Inr (), locked s)"
  by (simp add: monitor_enter_def upd_fac_def locked_def)

lemma monitor_exit_run: "kept f (Suc n) s \<Longrightarrow> monitor_exit s = (Inr (), unlocked s)"
  by (simp add: monitor_exit_def upd_fac_def unlocked_def kept_def)

lemma kept_locked: "kept f n s \<Longrightarrow> kept f (Suc n) (locked s)"
  by (auto simp: kept_def locked_def same_mounts_def)

lemma kept_unlocked: "kept f (Suc n) s \<Longrightarrow> kept f n (unlocked s)"
  by (auto simp: kept_def unlocked_def same_mounts_def)

lemma obj_at_locks [simp]:
  "obj_at (fs_fac (locked s)) k = obj_at (fs_fac s) k" "obj_at (fs_fac (unlocked s)) k = obj_at (fs_fac s) k"
  by (simp_all add: locked_def unlocked_def obj_at_def)

lemma put_obj_locked: "unlocked (put_obj k p (locked s)) = put_obj k p s"
  by (simp add: locked_def unlocked_def put_obj_def)

lemma unlocked_locked [simp]: "unlocked (locked s) = s"
  by (simp add: locked_def unlocked_def)

text \<open>With an object in hand the restart connects nothing: it clears the list entry, if that
  is still the object, and hands the same object back.\<close>

lemma restart_stale:
  assumes wf: "factory_wf f" "valid_key f k" and s: "kept f n s"
  shows "restart env k (Some h) s =
           (Inr (Inr (Some h)), if obj_at (fs_fac s) k = Some h then put_obj k None s else s)"
proof -
  note kl = kept_locked [OF s]
  note live = kept_live [OF kl wf]
  have "kept f (Suc n) (put_obj k None (locked s))" by (rule kept_put_obj [OF kl])
  note ex = monitor_exit_run [OF this]
  show ?thesis
    using get_hostObj [OF live(1,2)] set_hostObj_ok [OF live(1,2), of None] ex monitor_exit_run [OF kl]
    by (simp add: restart_def restart_body_def obind_def otry_def monitor_enter_run put_obj_locked)
qed

text \<open>Without one it connects the host, and reports a failure with 500.\<close>

lemma restart_null:
  assumes wf: "factory_wf f" "valid_key f k" "texts_ok env" and s: "kept f n s"
  shows "\<exists>b s1 l. ConnectHost env k (if obj_at (fs_fac s) k = None then put_obj k None (locked s) else locked s) = (Inr b, s1) \<and>
           kept f (Suc n) s1 \<and>
           restart env k None s =
             (if b then (Inr (Inr (obj_at (fs_fac s1) k)), unlocked s1)
              else (Inr (Inl 500), (unlocked s1)\<lparr>fs_log := fs_log s1 @ [l]\<rparr>)) \<and>
           (b \<longleftrightarrow> obj_at (fs_fac s1) k \<noteq> None)"
proof -
  define s0 where "s0 = (if obj_at (fs_fac s) k = None then put_obj k None (locked s) else locked s)"
  note kl = kept_locked [OF s]
  note live = kept_live [OF kl wf(1,2)]
  have k0: "kept f (Suc n) s0" using kl kept_put_obj [OF kl] by (simp add: s0_def)
  obtain b s1 where c: "ConnectHost env k s0 = (Inr b, s1)" "kept f (Suc n) s1" "b \<longleftrightarrow> obj_at (fs_fac s1) k \<noteq> None"
    using ConnectHost_ok [OF wf k0] by blast
  note live1 = kept_live [OF c(2) wf(1,2)]
  have tail: "restart env k None s =
     otry (obind (ConnectHost env k) (\<lambda>connected.
        if \<not> connected then
          obind monitor_exit (\<lambda>_.
          obind (log_host env ''Mount failed to connect to the restarting host '' k APLOG_ERR) (\<lambda>_.
          oreturn (Inl 500)))
        else
          obind (get_item f_hostObj k) (\<lambda>obj.
          if obj = None then
            obind monitor_exit (\<lambda>_.
            obind (log_host env ''Mount failed to query the restarting host '' k APLOG_ERR) (\<lambda>_.
            oreturn (Inl 500)))
          else obind monitor_exit (\<lambda>_. oreturn (Inr obj)))))
       (\<lambda>e. obind monitor_exit (\<lambda>_.
              obind (log_host env ''Mount failure restarting host '' k APLOG_ERR) (\<lambda>_.
              obind (LogServerError env (wL ''Mount failure exception restarting host; '' @ ae_ToString env e)
                APLOG_ERR 0) (\<lambda>_.
              oreturn (Inl 500))))) s0"
    using get_hostObj [OF live(1,2)] set_hostObj_ok [OF live(1,2), of None]
    by (simp add: restart_def restart_body_def obind_def otry_def monitor_enter_run s0_def Let_def)
  have ex: "monitor_exit s1 = (Inr (), unlocked s1)" by (rule monitor_exit_run [OF c(2)])
  have fl: "fs_log (unlocked s1) = fs_log s1" by (simp add: unlocked_def)
  have "restart env k None s =
          (if b then (Inr (Inr (obj_at (fs_fac s1) k)), unlocked s1)
           else (Inr (Inl 500), (unlocked s1)\<lparr>fs_log := fs_log s1 @ [LOG (log_word APLOG_ERR 0) 0 ''mod_aspdotnet: %s'']\<rparr>))"
    using c ex get_hostObj [OF live1(1,2)] log_host_ok [OF wf kept_unlocked [OF c(2)]]
    unfolding tail by (simp add: obind_def otry_def fl)
  with c show ?thesis unfolding s0_def by blast
qed

lemma restart_ok:
  assumes wf: "factory_wf f" "valid_key f k" "texts_ok env" and s: "kept f n s"
  shows "\<exists>r s'. restart env k obj s = (Inr r, s') \<and> kept f n s' \<and>
           (case r of Inl st \<Rightarrow> st = 500 | Inr p \<Rightarrow> p \<noteq> None)"
proof (cases obj)
  case None
  then show ?thesis
    using restart_null [OF wf s] kept_unlocked by (fastforce split: if_splits)
next
  case (Some h)
  then show ?thesis using restart_stale [OF wf(1,2) s, of env h] s kept_put_obj [OF s, of k None] by simp
qed

lemma last_attempt_ok:
  assumes wf: "factory_wf f" "valid_key f k" "texts_ok env" and s: "kept f n s"
  shows "\<exists>st s'. last_attempt env p s = (Inr st, s') \<and> kept f n s'"
proof -
  have log: "\<exists>s'. LogServerError env (wL ''RequestHandler; failure following host restart; '' @ ae_ToString env e) APLOG_ERR 0 t
       = (Inr (), s') \<and> kept f n s'" if "kept f n t" for e t
    using LogServerError_ok [OF kept_live(3) [OF that wf(1,2)] wf(3)] that by simp
  show ?thesis
  proof (cases p)
    case None
    with log [OF s, of NullReference] show ?thesis by (auto simp: last_attempt_def obind_def otry_def)
  next
    case (Some h)
    obtain r w where r: "ae_HandleRequest env h (fs_world s) = (r, w)" by fastforce
    have kw: "kept f n (s\<lparr>fs_world := w\<rparr>)" using s by simp
    show ?thesis
    proof (cases r)
      case (Inl e)
      with Some r log [OF kw, of e] show ?thesis by (auto simp: last_attempt_def obind_def otry_def in_world_def)
    next
      case (Inr st)
      with Some r kw show ?thesis by (simp add: last_attempt_def obind_def otry_def in_world_def)
    qed
  qed
qed

lemma first_attempt_ok:
  assumes wf: "factory_wf f" "valid_key f k" "texts_ok env" and s: "kept f n s"
  shows "\<exists>r s'. first_attempt env p s = (Inr r, s') \<and> kept f n s' \<and> fs_fac s' = fs_fac s \<and>
           (case p of None \<Rightarrow> r = None \<and> s' = s
            | Some h \<Rightarrow>
                (case ae_HandleRequest env h (fs_world s) of
                   (Inr st, w) \<Rightarrow> r = Some st \<and> s' = s\<lparr>fs_world := w\<rparr>
                 | (Inl e, w) \<Rightarrow> fs_world s' = w \<and>
                     r = (if e = Remoting \<or> e = AppDomainUnloaded then None else Some 500)))"
proof (cases p)
  case None
  then show ?thesis using s by (simp add: first_attempt_def)
next
  case (Some h)
  obtain r w where r: "ae_HandleRequest env h (fs_world s) = (r, w)" by fastforce
  define s1 where "s1 = s\<lparr>fs_world := w\<rparr>"
  have k1: "kept f n s1" using s by (simp add: s1_def)
  have log: "LogServerError env (wL (c # cs) @ m) lvl 0 s1 =
       (Inr (), s1\<lparr>fs_log := fs_log s1 @ [LOG (log_word lvl 0) 0 ''mod_aspdotnet: %s'']\<rparr>)" for c cs m lvl
    by (rule LogServerError_ok [OF kept_live(3) [OF k1 wf(1,2)] wf(3)]) simp
  show ?thesis
  proof (cases r)
    case (Inl e)
    with Some r k1 log show ?thesis
      by (auto simp: first_attempt_def obind_def otry_def in_world_def s1_def [symmetric]) (auto simp: s1_def)
  next
    case (Inr st)
    with Some r k1 show ?thesis by (simp add: first_attempt_def obind_def otry_def in_world_def s1_def)
  qed
qed

section \<open>The factory keeps its contract\<close>

text \<open>\<open>CreateHost\<close> behind the COM wrapper, which turns an exception into an \<open>HRESULT\<close>.\<close>

definition com_create :: "'w app_env \<Rightarrow> (exn \<Rightarrow> hresult) \<Rightarrow> 'w fstate creator" where
  "com_create env hr_of v p svr s =
     (case CreateHost env v p svr s of
        (Inl e, s') \<Rightarrow> (Inl (hr_of e), s')
      | (Inr k, s') \<Rightarrow> (Inr k, s'))"

text \<open>The four lists grown by one mount.\<close>

definition grown :: "wstr \<Rightarrow> wstr \<Rightarrow> ptr \<Rightarrow> 'w fstate \<Rightarrow> 'w fstate" where
  "grown v p svr s =
     s\<lparr>fs_fac := (fs_fac s)\<lparr>
        f_hostSvr := map_option (\<lambda>xs. xs @ [svr]) (f_hostSvr (fs_fac s)),
        f_hostURI := map_option (\<lambda>xs. xs @ [v]) (f_hostURI (fs_fac s)),
        f_hostDir := map_option (\<lambda>xs. xs @ [Replace p slash backslash]) (f_hostDir (fs_fac s)),
        f_hostObj := map_option (\<lambda>xs. xs @ [None]) (f_hostObj (fs_fac s))\<rparr>\<rparr>"

definition mounts :: "factory \<Rightarrow> int" where
  "mounts f = (case f_hostURI f of Some us \<Rightarrow> int (length us) | None \<Rightarrow> 0)"

lemma grown_wf: "factory_wf (fs_fac s) \<Longrightarrow> factory_wf (fs_fac (grown v p svr s))"
  by (auto simp: factory_wf_def grown_def)

lemma grown_key:
  assumes "factory_wf (fs_fac s)"
  shows "valid_key (fs_fac (grown v p svr s)) (mounts (fs_fac s))"
    "factory_entry (fs_fac (grown v p svr s)) (mounts (fs_fac s)) = Some (v, Replace p slash backslash)"
    "factory_entry (fs_fac s) (mounts (fs_fac s)) = None"
    "0 \<le> mounts (fs_fac s)"
  using assms
  by (auto simp: factory_wf_def grown_def valid_key_def mounts_def factory_entry_def list_item_def nth_append)

lemma grown_entry:
  assumes "factory_wf (fs_fac s)" "factory_entry (fs_fac s) k = Some e"
  shows "factory_entry (fs_fac (grown v p svr s)) k = Some e"
  using assms by (auto simp: factory_wf_def grown_def factory_entry_def list_item_def nth_append split: if_splits)

lemma CreateHost_run:
  assumes "factory_wf (fs_fac s)"
  shows "CreateHost env v p svr s =
     obind (ConnectHost env (mounts (fs_fac s))) (\<lambda>connected.
       if connected then oreturn (mounts (fs_fac s))
       else obind (log_host env ''Mount failure creating host '' (mounts (fs_fac s)) APLOG_ERR) (\<lambda>_. oreturn (-1)))
     (grown v p svr s)"
proof -
  obtain us ds os ss where l: "f_hostURI (fs_fac s) = Some us" "f_hostDir (fs_fac s) = Some ds"
      "f_hostObj (fs_fac s) = Some os" "f_hostSvr (fs_fac s) = Some ss" "length os = length us"
    using assms by (auto simp: factory_wf_def)
  have m: "mounts (fs_fac s) = int (length os)" using l by (simp add: mounts_def)
  have assoc: "obind (log_host env ''Mount failure creating host '' k APLOG_ERR) (\<lambda>_. oreturn (-1)) =
     obind (get_item f_hostURI k) (\<lambda>uri. obind (get_item f_hostDir k) (\<lambda>dir.
       obind (LogServerError env (wL ''Mount failure creating host '' @ uri @ wL '' mapped to '' @ dir) APLOG_ERR 0)
         (\<lambda>_. oreturn (-1))))" for k :: int
    by (rule ext) (simp add: log_host_def obind_def split: prod.split sum.split)
  show ?thesis
    unfolding assoc m using l
    by (simp add: CreateHost_def Let_def add_item_def upd_fac_def obind_def grown_def)
qed

lemma CreateHost_ok:
  assumes wf: "factory_wf (fs_fac s)" "texts_ok env"
  shows "\<exists>k s'. CreateHost env v p svr s = (Inr k, s') \<and>
           kept (fs_fac (grown v p svr s)) (f_locks (fs_fac s)) s' \<and>
           (k = mounts (fs_fac s) \<and> obj_at (fs_fac s') k \<noteq> None \<or>
            k = -1 \<and> obj_at (fs_fac s') (mounts (fs_fac s)) = None)"
proof -
  let ?g = "grown v p svr s" let ?k = "mounts (fs_fac s)"
  have kg: "kept (fs_fac ?g) (f_locks (fs_fac s)) ?g" by (simp add: kept_def grown_def)
  note live = grown_wf [OF wf(1), of v p svr] grown_key(1) [OF wf(1), of v p svr]
  obtain b s1 where c: "ConnectHost env ?k ?g = (Inr b, s1)" "kept (fs_fac ?g) (f_locks (fs_fac s)) s1"
      "b \<longleftrightarrow> obj_at (fs_fac s1) ?k \<noteq> None"
    using ConnectHost_ok [OF live wf(2) kg] by blast
  show ?thesis
    using c log_host_ok [OF live wf(2) c(2)]
    unfolding CreateHost_run [OF wf(1)] by (cases b) (auto simp: obind_def)
qed

lemma CreateHost_keeps:
  assumes "factory_wf (fs_fac s)" "CreateHost env v p svr s = (r, s')"
  shows "same_mounts (fs_fac (grown v p svr s)) (fs_fac s')"
    and "r = Inr k \<Longrightarrow> k = mounts (fs_fac s) \<or> k = -1"
proof -
  let ?g = "grown v p svr s"
  have "keeps (kept (fs_fac ?g) (f_locks (fs_fac ?g)))
     (obind (ConnectHost env (mounts (fs_fac s))) (\<lambda>connected.
       if connected then oreturn (mounts (fs_fac s))
       else obind (log_host env ''Mount failure creating host '' (mounts (fs_fac s)) APLOG_ERR) (\<lambda>_. oreturn (-1))))"
    by (intro keeps_intros)
  from keepsD [OF this kept_self] show "same_mounts (fs_fac ?g) (fs_fac s')"
    using assms(2) unfolding CreateHost_run [OF assms(1)] by (simp add: kept_def)
  show "r = Inr k \<Longrightarrow> k = mounts (fs_fac s) \<or> k = -1"
    using assms(2) unfolding CreateHost_run [OF assms(1)]
    by (auto simp: obind_def split: prod.splits sum.splits if_splits)
qed

lemma com_create_keeps:
  assumes "factory_wf (fs_fac s)" "com_create env hr_of v p svr s = (r, s')"
  shows "same_mounts (fs_fac (grown v p svr s)) (fs_fac s')"
    and "r = Inr k \<Longrightarrow> k = mounts (fs_fac s) \<or> k = -1"
  using assms CreateHost_keeps [OF assms(1)]
  by (auto simp: com_create_def split: prod.splits sum.splits)

interpretation hf: host_factory "com_create env hr_of" "\<lambda>s. factory_wf (fs_fac s)"
  "\<lambda>p. Replace p slash backslash" "\<lambda>s. factory_entry (fs_fac s)"
proof (unfold_locales, goal_cases)
  case (1 s v p svr r s')
  then show ?case using com_create_keeps(1) [OF 1] grown_wf [OF 1(1)] same_mounts_wf by blast
next
  case (2 s v p svr k s')
  then show ?case
    using com_create_keeps [OF 2(1,2)] grown_key(2) [OF 2(1)] same_mounts_entry by fastforce
next
  case (3 s v p svr k s')
  then show ?case using com_create_keeps(2) [OF 3(1,2)] grown_key(3) [OF 3(1)] by auto
next
  case (4 s v p svr r s' k e)
  then show ?case
    using com_create_keeps(1) [OF 4(1,2)] grown_entry [OF 4(1,3)] same_mounts_entry by fastforce
qed

end
