(* ===== verification/Factory_Dispatch.thy ===== *)
theory Factory_Dispatch
  imports Host_Factory
begin

text \<open>
  The properties of the host factory (\<open>Apache.Web/HostFactory.h\<close>): what creating,
  finalising, restarting and dispatching do to the lists and the monitor, and what the
  factory answers when the application domain of a host is gone.
\<close>

section \<open>A concrete environment\<close>

text \<open>
  For the concrete instances: the world counts the application domains created; domain \<open>n\<close>
  answers 200 if it is the latest one and is gone otherwise; creation fails for a domain
  with an empty virtual path.
\<close>

definition sample_env :: "nat app_env" where
  "sample_env = \<lparr>ae_encodings = ascii_encodings, ae_culture = ordinal_culture,
     ae_ToString = (\<lambda>_. wL ''System.Exception''),
     ae_CreateApplicationHost = (\<lambda>v p w. if v = [] then (Inl OtherException, w) else (Inr (Some (Suc w)), Suc w)),
     ae_Configure = (\<lambda>h v p k m w. (Inr (), w)),
     ae_HandleRequest = (\<lambda>h w. if h = w then (Inr 200, w) else (Inl AppDomainUnloaded, w))\<rparr>"

definition sample_state :: "ptr \<Rightarrow> nat \<Rightarrow> nat fstate" where
  "sample_state p w =
     \<lparr>fs_fac = \<lparr>f_utf8_encoding = True, f_hostURI = Some [wL ''/app''], f_hostDir = Some [wL ''C:''],
        f_hostObj = Some [p], f_hostSvr = Some [Some 1], f_module_index = 0, f_locks = 0\<rparr>,
      fs_world = w, fs_log = []\<rparr>"

lemma sample_texts [simp]: "texts_ok sample_env"
  by (simp add: texts_ok_def sample_env_def wL_def)

lemma sample_live [simp]:
  "factory_wf (fs_fac (sample_state p w))" "valid_key (fs_fac (sample_state p w)) 0"
  by (simp_all add: sample_state_def factory_wf_def valid_key_def)

lemma sample_obj [simp]: "obj_at (fs_fac (sample_state p w)) 0 = p"
  "f_locks (fs_fac (sample_state p w)) = 0" "fs_world (sample_state p w) = w"
  by (simp_all add: sample_state_def obj_at_def)

section \<open>Runs of a request\<close>

lemma log_restart_ok:
  assumes wf: "factory_wf f" "valid_key f k" "texts_ok env" and s: "kept f n s"
  shows "\<exists>s'. log_host env ''Restarting host of '' k lvl s = (Inr (), s') \<and> kept f n s' \<and>
              fs_fac s' = fs_fac s \<and> fs_world s' = fs_world s"
  using log_host_ok [OF wf s, of "''Restarting host of ''" lvl] s by simp

text \<open>The steps after the first attempt gave up.\<close>

lemma HandleHostRequest_restart:
  assumes wf: "factory_wf (fs_fac s)" "valid_key (fs_fac s) k" "texts_ok env"
    and first: "first_attempt env (obj_at (fs_fac s) k) s = (Inr None, s1)"
  shows "\<exists>s2. HandleHostRequest env interfere k s =
           obind (restart env k (obj_at (fs_fac s) k))
             (\<lambda>r. case r of Inl status \<Rightarrow> oreturn status | Inr p \<Rightarrow> last_attempt env p) (interfere s2) \<and>
           kept (fs_fac s) (f_locks (fs_fac s)) s2 \<and> fs_fac s2 = fs_fac s \<and> fs_world s2 = fs_world s1"
proof -
  have k1: "kept (fs_fac s) (f_locks (fs_fac s)) s1" "fs_fac s1 = fs_fac s"
    using first_attempt_ok [OF wf kept_self, of "obj_at (fs_fac s) k"] first by auto
  obtain s2 where s2: "log_host env ''Restarting host of '' k APLOG_INFO s1 = (Inr (), s2)"
      "kept (fs_fac s) (f_locks (fs_fac s)) s2" "fs_fac s2 = fs_fac s1" "fs_world s2 = fs_world s1"
    using log_restart_ok [OF wf k1(1)] by blast
  have "HandleHostRequest env interfere k s =
     obind (restart env k (obj_at (fs_fac s) k))
       (\<lambda>r. case r of Inl status \<Rightarrow> oreturn status | Inr p \<Rightarrow> last_attempt env p) (interfere s2)"
    using first s2(1) get_hostObj [OF wf(1,2)] by (simp add: HandleHostRequest_def obind_def)
  with s2 k1 show ?thesis by auto
qed

lemma HandleHostRequest_returns:
  assumes "factory_wf (fs_fac s)" "valid_key (fs_fac s) k" "texts_ok env"
    "\<forall>t. kept (fs_fac s) (f_locks (fs_fac s)) t \<longrightarrow> kept (fs_fac s) (f_locks (fs_fac s)) (interfere t)"
  shows "\<exists>st s'. HandleHostRequest env interfere k s = (Inr st, s') \<and>
           f_locks (fs_fac s') = f_locks (fs_fac s) \<and> same_mounts (fs_fac s) (fs_fac s')"
proof -
  note wf = assms(1-3)
  obtain r s1 where r: "first_attempt env (obj_at (fs_fac s) k) s = (Inr r, s1)"
      "kept (fs_fac s) (f_locks (fs_fac s)) s1"
    using first_attempt_ok [OF wf kept_self] by blast
  show ?thesis
  proof (cases r)
    case (Some st)
    with r get_hostObj [OF wf(1,2)] show ?thesis by (simp add: HandleHostRequest_def obind_def kept_def)
  next
    case None
    obtain s2 where s2: "HandleHostRequest env interfere k s =
           obind (restart env k (obj_at (fs_fac s) k))
             (\<lambda>r. case r of Inl status \<Rightarrow> oreturn status | Inr p \<Rightarrow> last_attempt env p) (interfere s2)"
        "kept (fs_fac s) (f_locks (fs_fac s)) s2"
      using HandleHostRequest_restart [OF wf] r None by blast
    have ki: "kept (fs_fac s) (f_locks (fs_fac s)) (interfere s2)" using assms(4) s2(2) by blast
    obtain q s3 where q: "restart env k (obj_at (fs_fac s) k) (interfere s2) = (Inr q, s3)"
        "kept (fs_fac s) (f_locks (fs_fac s)) s3"
      using restart_ok [OF wf ki] by blast
    show ?thesis
    proof (cases q)
      case (Inl st)
      with s2(1) q show ?thesis by (simp add: obind_def kept_def)
    next
      case (Inr p)
      obtain st s' where "last_attempt env p s3 = (Inr st, s')" "kept (fs_fac s) (f_locks (fs_fac s)) s'"
        using last_attempt_ok [OF wf q(2)] by blast
      with s2(1) q Inr show ?thesis by (simp add: obind_def kept_def)
    qed
  qed
qed

section \<open>Properties\<close>

text \<open>C14: on a live factory and a key of one of its mounts, and whatever other threads do to the
  objects of the hosts meanwhile, \<open>HandleHostRequest\<close> always returns a status, never throws,
  leaves the monitor as often held as before and changes nothing of the factory but host
  objects.\<close>

theorem HandleHostRequest_total:
  assumes "factory_wf (fs_fac s)" "valid_key (fs_fac s) k" "texts_ok env"
    "\<forall>t. kept (fs_fac s) (f_locks (fs_fac s)) t \<longrightarrow> kept (fs_fac s) (f_locks (fs_fac s)) (interfere t)"
  shows "\<exists>st s'. HandleHostRequest env interfere k s = (Inr st, s') \<and>
           f_locks (fs_fac s') = f_locks (fs_fac s) \<and> same_mounts (fs_fac s) (fs_fac s')"
  by (rule HandleHostRequest_returns [OF assms])

theorem HandleHostRequest_total_witness:
  "\<exists>st s'. HandleHostRequest sample_env (put_obj 0 None) 0 (sample_state (Some 1) 2) = (Inr st, s') \<and>
     f_locks (fs_fac s') = 0"
  using HandleHostRequest_total [of "sample_state (Some 1) 2" 0 sample_env "put_obj 0 None"]
  by (auto simp: kept_put_obj)

text \<open>C20: when the application domain of a host is gone, the request that finds it out is not
  served by a new one: the list entry is cleared, no host is connected, and the request goes
  to the same dead object again, whose second answer is the result, 500 if it throws again.\<close>

theorem HandleHostRequest_stale:
  assumes "factory_wf (fs_fac s)" "valid_key (fs_fac s) k" "texts_ok env"
    "obj_at (fs_fac s) k = Some h"
    "ae_HandleRequest env h (fs_world s) = (Inl e, w1)" "e = Remoting \<or> e = AppDomainUnloaded"
    "ae_HandleRequest env h w1 = (r, w2)"
  shows "\<exists>s'. HandleHostRequest env id k s = (Inr (case r of Inr st \<Rightarrow> st | Inl _ \<Rightarrow> 500), s') \<and>
           obj_at (fs_fac s') k = None \<and> fs_world s' = w2"
proof -
  note wf = assms(1-3)
  obtain s1 where s1: "first_attempt env (Some h) s = (Inr None, s1)" "fs_world s1 = w1"
    using first_attempt_ok [OF wf kept_self, of "Some h"] assms(5,6) by auto
  obtain s2 where s2: "HandleHostRequest env id k s =
           obind (restart env k (Some h))
             (\<lambda>r. case r of Inl status \<Rightarrow> oreturn status | Inr p \<Rightarrow> last_attempt env p) s2"
      "kept (fs_fac s) (f_locks (fs_fac s)) s2" "fs_fac s2 = fs_fac s" "fs_world s2 = w1"
    using HandleHostRequest_restart [OF wf, of s1 id] s1 assms(4) by auto
  have rs: "restart env k (Some h) s2 = (Inr (Inr (Some h)), put_obj k None s2)"
    using restart_stale [OF wf(1,2) s2(2)] s2(3) assms(4) by simp
  define s3 where "s3 = (put_obj k None s2)\<lparr>fs_world := w2\<rparr>"
  have o3: "obj_at (fs_fac s3) k = None"
    using obj_at_put_obj [of s2 k None] s2(3) wf by (simp add: s3_def)
  have iw: "in_world (ae_HandleRequest env h) (put_obj k None s2) = (r, s3)"
    using assms(7) s2(4) by (simp add: in_world_def s3_def)
  have k3: "f_utf8_encoding (fs_fac s3)"
    using kept_live(3) [OF kept_put_obj [OF s2(2)] wf(1,2)] by (simp add: s3_def)
  have lg: "LogServerError env (wL ''RequestHandler; failure following host restart; '' @ m) APLOG_ERR 0 s3 =
      (Inr (), s3\<lparr>fs_log := fs_log s3 @ [LOG (log_word APLOG_ERR 0) 0 ''mod_aspdotnet: %s'']\<rparr>)" for m
    by (rule LogServerError_ok [OF k3 wf(3)]) simp
  have run: "HandleHostRequest env id k s = last_attempt env (Some h) (put_obj k None s2)"
    unfolding s2(1) using rs by (simp add: obind_def)
  have w3: "fs_world s3 = w2" by (simp add: s3_def)
  show ?thesis
    unfolding run using iw o3 lg w3 by (cases r) (auto simp: last_attempt_def otry_def obind_def)
qed

theorem HandleHostRequest_stale_witness:
  "\<exists>s'. HandleHostRequest sample_env id 0 (sample_state (Some 1) 2) = (Inr 500, s') \<and>
     obj_at (fs_fac s') 0 = None \<and> fs_world s' = 2"
  using HandleHostRequest_stale [of "sample_state (Some 1) 2" 0 sample_env 1 AppDomainUnloaded 2 "Inl AppDomainUnloaded" 2]
  by (simp add: sample_env_def texts_ok_def wL_def)

text \<open>A request that finds no host object connects one, when no other thread interferes: the
  new object is in the list and its answer to the request is the result.\<close>

theorem HandleHostRequest_reconnects:
  assumes "factory_wf (fs_fac s)" "valid_key (fs_fac s) k" "texts_ok env"
    "obj_at (fs_fac s) k = None" "factory_entry (fs_fac s) k = Some (u, d)"
    "ae_CreateApplicationHost env u d (fs_world s) = (Inr (Some h), w1)"
    "ae_Configure env h u d k (f_module_index (fs_fac s)) w1 = (Inr (), w2)"
    "ae_HandleRequest env h w2 = (Inr st, w3)"
  shows "\<exists>s'. HandleHostRequest env id k s = (Inr st, s') \<and> obj_at (fs_fac s') k = Some h \<and> fs_world s' = w3"
proof -
  note wf = assms(1-3)
  have s1: "first_attempt env None s = (Inr None, s)" by (simp add: first_attempt_def)
  obtain s2 where s2: "HandleHostRequest env id k s =
           obind (restart env k None)
             (\<lambda>r. case r of Inl status \<Rightarrow> oreturn status | Inr p \<Rightarrow> last_attempt env p) s2"
      "kept (fs_fac s) (f_locks (fs_fac s)) s2" "fs_fac s2 = fs_fac s" "fs_world s2 = fs_world s"
    using HandleHostRequest_restart [OF wf, of s id] s1 assms(4) by auto
  define s0 where "s0 = put_obj k None (locked s2)"
  have k0: "kept (fs_fac s) (Suc (f_locks (fs_fac s))) s0"
    using kept_put_obj [OF kept_locked [OF s2(2)]] by (simp add: s0_def)
  have w0: "fs_world s0 = fs_world s" using s2(4) by (simp add: s0_def locked_def)
  define s1 where "s1 = (put_obj k (Some h) s0)\<lparr>fs_world := w2\<rparr>"
  have "ConnectHost env k s0 = (Inr True, s1)"
    unfolding s1_def
    using ConnectHost_success [OF wf(1,2) k0 assms(5), of env h w1 w2] assms(6,7) w0 by simp
  moreover have o1: "obj_at (fs_fac s1) k = Some h"
    using obj_at_put_obj [OF kept_live(1,2) [OF k0 wf(1,2)]] by (simp add: s1_def)
  ultimately have rs: "restart env k None s2 = (Inr (Inr (Some h)), unlocked s1)"
    using restart_null [OF wf s2(2)] s2(3) assms(4) by (auto simp: s0_def)
  have run: "HandleHostRequest env id k s = last_attempt env (Some h) (unlocked s1)"
    unfolding s2(1) using rs by (simp add: obind_def)
  have "fs_world (unlocked s1) = w2" "obj_at (fs_fac (unlocked s1)) k = Some h"
    using o1 by (simp_all add: unlocked_def s1_def obj_at_def)
  then show ?thesis
    unfolding run using assms(8) by (simp add: last_attempt_def otry_def in_world_def)
qed

theorem HandleHostRequest_reconnects_witness:
  "\<exists>s'. HandleHostRequest sample_env id 0 (sample_state None 2) = (Inr 200, s') \<and>
     obj_at (fs_fac s') 0 = Some 3 \<and> fs_world s' = 3"
proof -
  have "factory_entry (fs_fac (sample_state None 2)) 0 = Some (wL ''/app'', wL ''C:'')"
    by (simp add: sample_state_def factory_entry_def list_item_def)
  then show ?thesis
    using HandleHostRequest_reconnects [of "sample_state None 2" 0 sample_env "wL ''/app''" "wL ''C:''" 3 3 3 200 3]
    by (simp add: sample_env_def texts_ok_def wL_def)
qed

text \<open>C21: \<open>CreateHost\<close> on a live factory never throws: it adds one mount to the four lists, with
  the separators of the physical path turned, keeps every earlier mount and the monitor,
  and returns the new key with a connected host behind it, or -1; a failure leaves the new
  entry in the lists, without a host.\<close>

theorem CreateHost_correct:
  assumes "factory_wf (fs_fac s)" "texts_ok env"
  shows "\<exists>k s'. CreateHost env v p svr s = (Inr k, s') \<and> factory_wf (fs_fac s') \<and>
           f_locks (fs_fac s') = f_locks (fs_fac s) \<and>
           factory_entry (fs_fac s) (mounts (fs_fac s)) = None \<and>
           factory_entry (fs_fac s') (mounts (fs_fac s)) = Some (v, Replace p slash backslash) \<and>
           (\<forall>j e. factory_entry (fs_fac s) j = Some e \<longrightarrow> factory_entry (fs_fac s') j = Some e) \<and>
           (k = mounts (fs_fac s) \<and> obj_at (fs_fac s') k \<noteq> None \<or>
            k = -1 \<and> obj_at (fs_fac s') (mounts (fs_fac s)) = None)"
proof -
  obtain k s' where run: "CreateHost env v p svr s = (Inr k, s')"
      and kp: "kept (fs_fac (grown v p svr s)) (f_locks (fs_fac s)) s'"
      and res: "k = mounts (fs_fac s) \<and> obj_at (fs_fac s') k \<noteq> None \<or>
            k = -1 \<and> obj_at (fs_fac s') (mounts (fs_fac s)) = None"
    using CreateHost_ok [OF assms, of v p svr] by (elim exE conjE) (rule that)
  have sm: "same_mounts (fs_fac (grown v p svr s)) (fs_fac s')" using kp by (simp add: kept_def)
  note entry = same_mounts_entry [OF sm]
  have "factory_wf (fs_fac s')" by (rule same_mounts_wf [OF sm grown_wf [OF assms(1)]])
  moreover have "\<forall>j e. factory_entry (fs_fac s) j = Some e \<longrightarrow> factory_entry (fs_fac s') j = Some e"
    using grown_entry [OF assms(1)] entry by simp
  moreover have "f_locks (fs_fac s') = f_locks (fs_fac s)" using kp by (simp add: kept_def)
  moreover have "factory_entry (fs_fac s') (mounts (fs_fac s)) = Some (v, Replace p slash backslash)"
    using grown_key(2) [OF assms(1), of v p svr] entry [of "mounts (fs_fac s)"] by simp
  ultimately show ?thesis using run res grown_key(3) [OF assms(1)] by (intro exI conjI)
qed

theorem CreateHost_correct_witness:
  "\<exists>k s'. CreateHost sample_env [] (wL ''D:'') None (sample_state (Some 1) 1) = (Inr k, s') \<and>
     factory_entry (fs_fac s') 0 = Some (wL ''/app'', wL ''C:'')"
proof -
  have "factory_entry (fs_fac (sample_state (Some 1) 1)) 0 = Some (wL ''/app'', wL ''C:'')"
    by (simp add: sample_state_def factory_entry_def list_item_def)
  with CreateHost_correct [OF sample_live(1) sample_texts, of "[]" "wL ''D:''" None "Some 1" 1]
  show ?thesis by blast
qed

text \<open>the finalizer of a host clears the entry of its key only if that still is this host,
  and gives the monitor back; with a key the lists do not have, or after the factory is
  destroyed, it throws with the monitor still held.\<close>

lemma HostFinalized_cases:
  assumes "factory_wf (fs_fac s)"
  shows "(valid_key (fs_fac s) k \<longrightarrow>
            HostFinalized k h s = (Inr (), if obj_at (fs_fac s) k = Some h then put_obj k None s else s)) \<and>
         (\<not> valid_key (fs_fac s) k \<longrightarrow> HostFinalized k h s = (Inl ArgumentOutOfRange, locked s)) \<and>
         (HostFinalized k h (snd (Destroy s)) = (Inl NullReference, locked (snd (Destroy s))))"
proof (intro conjI impI)
  have k0: "kept (fs_fac s) (Suc (f_locks (fs_fac s))) (locked s)" by (rule kept_locked [OF kept_self])
  show "HostFinalized k h s = (Inr (), if obj_at (fs_fac s) k = Some h then put_obj k None s else s)"
    if "valid_key (fs_fac s) k"
    using kept_live [OF k0 assms that] monitor_exit_run [OF k0] monitor_exit_run [OF kept_put_obj [OF k0]]
    by (simp add: HostFinalized_def obind_def otry_def monitor_enter_run get_hostObj set_hostObj_ok put_obj_locked)
  show "HostFinalized k h s = (Inl ArgumentOutOfRange, locked s)" if "\<not> valid_key (fs_fac s) k"
    using assms that
    by (auto simp: HostFinalized_def obind_def monitor_enter_run get_item_def list_item_def locked_def
        factory_wf_def valid_key_def)
  show "HostFinalized k h (snd (Destroy s)) = (Inl NullReference, locked (snd (Destroy s)))"
    using assms
    by (auto simp: HostFinalized_def obind_def monitor_enter_run get_item_def list_item_def locked_def
        factory_wf_def Destroy_def upd_fac_def)
qed

lemma HostFinalized_stale_key:
  "HostFinalized 7 1 (sample_state (Some 1) 1) = (Inl ArgumentOutOfRange, locked (sample_state (Some 1) 1))"
  using HostFinalized_cases [OF sample_live(1), of "Some 1" 1 7 1]
  by (simp add: valid_key_def sample_state_def)

text \<open>\<open>Destroy\<close> succeeds on a live factory, the destructor then finds nothing to do, and afterwards creating a host
  and handling a request throw a null reference without changing the factory or calling
  out of it.\<close>

theorem Destroy_correct:
  assumes "factory_wf (fs_fac s)"
  shows "\<exists>s'. Destroy s = (Inr (), s') \<and> HostFactory_destructor s' = (Inr (), s') \<and>
           HandleHostRequest env interfere k s' = (Inl NullReference, s') \<and>
           CreateHost env v p svr s' = (Inl NullReference, s') \<and>
           f_locks (fs_fac s') = f_locks (fs_fac s) \<and> fs_world s' = fs_world s"
proof -
  obtain os where l: "f_hostObj (fs_fac s) = Some os" "f_utf8_encoding (fs_fac s)"
    using assms by (auto simp: factory_wf_def)
  define s' where "s' = s\<lparr>fs_fac := (fs_fac s)\<lparr>f_utf8_encoding := False, f_hostURI := None,
     f_hostDir := None, f_hostObj := None, f_hostSvr := None\<rparr>\<rparr>"
  have gone: "f_hostObj (fs_fac s') = None" "\<not> f_utf8_encoding (fs_fac s')"
    by (simp_all add: s'_def)
  have "Destroy s = (Inr (), s')" using l by (simp add: Destroy_def upd_fac_def s'_def)
  moreover have "HostFactory_destructor s' = (Inr (), s')" using gone by (simp add: HostFactory_destructor_def Destroy_def)
  moreover have "get_item f_hostObj k s' = (Inl NullReference, s')"
    using gone by (simp add: get_item_def list_item_def)
  then have "HandleHostRequest env interfere k s' = (Inl NullReference, s')"
    by (simp add: HandleHostRequest_def obind_Inl)
  moreover have "CreateHost env v p svr s' = (Inl NullReference, s')"
    using gone by (simp add: CreateHost_def)
  ultimately show ?thesis by (simp add: s'_def)
qed

theorem Destroy_correct_witness:
  "\<exists>s'. Destroy (sample_state (Some 1) 1) = (Inr (), s') \<and>
     HandleHostRequest sample_env id 0 s' = (Inl NullReference, s')"
  using Destroy_correct [OF sample_live(1), of "Some 1" 1 sample_env id 0] by blast

end
