(* ===== verification/Module_Startup.thy ===== *)
theory Module_Startup
  imports Module_Handler Factory_Dispatch
begin

text \<open>
  The properties of the module's start (\<open>mod/mod_aspdotnet.cpp\<close>): what the engine's start
  does to the configuration, to the COM interfaces it acquires and to the process when no
  runtime loads, and what a successful \<open>asp_net_post_config\<close> guarantees to the handler, with
  the factory's own \<open>CreateHost\<close> behind the pointer.
\<close>

section \<open>What the start of the engine keeps\<close>

text \<open>The tables of the configuration are not the engine's business.\<close>

definition tables :: "engine_state \<Rightarrow> (string \<rightharpoonup> addr) \<times> (addr \<rightharpoonup> asp_net_host_conf) \<times> addr" where
  "tables s = (g_hosts (es_conf s), g_host_store (es_conf s), g_next_host (es_conf s))"

lemma keeps_tables_upd [keeps_intros]:
  "(\<And>g. g_hosts (f g) = g_hosts g \<and> g_host_store (f g) = g_host_store g \<and> g_next_host (f g) = g_next_host g) \<Longrightarrow>
   keeps (\<lambda>s. tables s = t) (es_upd f)"
  by (simp add: es_upd_def keeps_def tables_def)

lemma keeps_tables_log [keeps_intros]:
  "keeps (\<lambda>s. tables s = t) (es_logs e)" "keeps (\<lambda>s. tables s = t) (es_emit ev)"
  "keeps (\<lambda>s. tables s = t) (es_acquire p)" "keeps (\<lambda>s. tables s = t) (es_release p)"
  "keeps (\<lambda>s. tables s = t) (es_deref p)"
  by (simp_all add: es_defs keeps_def tables_def split: option.split)

lemmas stage_defs = lock_and_load_def start_runtime_def default_domain_def make_factory_def

lemmas step_defs = asp_module_lock98_def asp_module_lock_def init_clr_runtime_def
  init_clr4_runtime_def init_clr2_runtime_def init_runtime_version_def es_fail_def es_check_def
  es_debug_def

lemma keeps_tables_engine: "keeps (\<lambda>s. tables s = t) (init_asp_engine env)"
  unfolding init_asp_engine_def stage_defs step_defs Let_def split_beta
  by (intro keeps_intros) simp_all

lemma start_engine_tables: "start_engine env ci ciex s = (st, s') \<Longrightarrow> tables s' = tables s"
  using keepsD [OF keeps_tables_engine [of "tables s" env], of s]
  by (auto simp: start_engine_def Let_def es_logs_def omap_def tables_def
      split: if_splits prod.splits sum.splits engine_exn.splits option.splits)

section \<open>What a successful start has done\<close>

lemma obind_InrE:
  assumes "obind m k s = (Inr y, s')"
  obtains x s1 where "m s = (Inr x, s1)" "k x s1 = (Inr y, s')"
  using assms by (auto simp: obind_def split: prod.splits sum.splits)

text \<open>How often an interface has been acquired more than released.\<close>

fun net :: "com_event list \<Rightarrow> nat \<Rightarrow> int" where
  "net [] p = 0"
| "net (Acquired q # ev) p = (if p = q then 1 else 0) + net ev p"
| "net (Released q # ev) p = (if p = q then -1 else 0) + net ev p"
| "net (_ # ev) p = net ev p"

lemma net_append [simp]: "net (ev @ ev') p = net ev p + net ev' p"
  by (induction ev p rule: net.induct) simp_all

lemma es_fail_Inr [simp]: "es_fail hr msg s = (Inr x, s') \<longleftrightarrow> \<not> FAILED hr \<and> s' = s"
  by (auto simp: es_fail_def es_logs_def)

lemma es_check_Inr [simp]:
  "es_check hr p m1 m2 s = (Inr a, s') \<longleftrightarrow> \<not> FAILED hr \<and> p = Some a \<and> s' = s"
  by (auto simp: es_check_def es_fail_def es_logs_def split: option.splits)

lemma default_domain_success:
  assumes "default_domain env s = (Inr ad, s')"
  shows "es_conf s' = es_conf s \<and>
         (\<exists>dom. es_events s' = es_events s @ [Acquired dom, Acquired ad, Released dom])"
  using assms
  by (auto simp: default_domain_def es_check_def es_fail_def es_defs es_debug_def Let_def
      split: prod.splits if_splits option.splits)

lemma make_factory_success:
  assumes "make_factory env ad s = (Inr x, s')"
  shows "\<exists>oh vhf hf. snd (e_CreateInstance env) = Some oh \<and>
           es_conf s' = (es_conf s)\<lparr>g_pHostFactory := Some hf\<rparr> \<and>
           es_events s' = es_events s @
             [Acquired oh, Released ad, Acquired vhf, Acquired hf, Released vhf, FactoryConfigured]"
  using assms
  by (auto simp: make_factory_def es_check_def es_fail_def es_defs es_debug_def Let_def
      split: prod.splits if_splits option.splits)

lemma start_runtime_success:
  assumes "start_runtime env s = (Inr x, s')"
  shows "es_conf s' = es_conf s \<and> es_events s' = es_events s @ [RuntimeStarted] \<and>
         g_pCorRuntime (es_conf s) \<noteq> None"
  using assms
  by (auto simp: start_runtime_def es_fail_def es_defs es_debug_def split: if_splits option.splits)

lemma clr_runtime_success:
  assumes "init_clr_runtime env s = (Inr hr, s')" "g_pCorRuntime (es_conf s) = None"
  shows "g_pHostFactory (es_conf s') = g_pHostFactory (es_conf s) \<and>
         (\<exists>ev. es_events s' = es_events s @ ev \<and>
            (\<forall>p. net ev p = (if g_pCorRuntime (es_conf s') = Some p then 1 else 0)))"
  using assms
  by (auto simp: init_clr_runtime_def init_clr4_runtime_def init_clr2_runtime_def init_runtime_version_def
      es_defs Let_def split: prod.splits if_splits option.splits)

lemma lock_and_load_success:
  assumes "lock_and_load env s = (Inr x, s')" "g_pCorRuntime (es_conf s) = None"
  shows "\<exists>hr s1 s2. init_clr_runtime env s1 = (Inr hr, s2) \<and> es_conf s' = es_conf s2 \<and>
           es_events s' = es_events s2 \<and> e_module_name env = None \<and>
           es_conf s1 = (es_conf s)\<lparr>g_osver := (if e_win98 env then 1 else 2), g_lock_module := e_LoadLibrary env\<rparr> \<and>
           es_events s1 = es_events s @ [ModuleLocked (e_LoadLibrary env), CleanupRegistered]"
  using assms
  apply (auto simp: lock_and_load_def asp_module_lock98_def asp_module_lock_def es_defs es_debug_def
      elim!: obind_InrE split: if_splits option.splits)
   apply (rule exI, rule exI, rule exI, rule conjI, assumption, simp)+
  done

lemma engine_success:
  assumes "init_asp_engine env s = (Inr hr, s')"
  obtains s1 s2 s3 ad where "lock_and_load env s = (Inr (), s1)" "start_runtime env s1 = (Inr (), s2)"
    "default_domain env s2 = (Inr ad, s3)" "make_factory env ad s3 = (Inr (), s')" "hr = S_OK"
  using assms unfolding init_asp_engine_def
  by (elim obind_InrE) (auto intro: that)

text \<open>What COM promises of a failing call: no interface pointer is stored.\<close>

definition com_out_ok :: "clr_env \<Rightarrow> bool" where
  "com_out_ok env \<longleftrightarrow>
     (FAILED (fst (e_GetInterface env)) \<longrightarrow> snd (e_GetInterface env) = None) \<and>
     (FAILED (fst (e_CorBindToRuntimeEx env)) \<longrightarrow> snd (e_CorBindToRuntimeEx env) = None)"

text \<open>The two versions of the runtime, the only ones the module can load.\<close>

definition loaded_version :: "clr_env \<Rightarrow> string" where
  "loaded_version env = (if SUCCEEDED (fst (e_CLRCreateInstance env)) then ''v4.0.30319'' else ''v2.0.50727'')"

lemma clr_runtime_version:
  assumes "init_clr_runtime env s = (Inr hr, s')" "g_pCorRuntime (es_conf s) = None" "com_out_ok env"
    "g_pCorRuntime (es_conf s') \<noteq> None"
  shows "g_cor_version (es_conf s') = Some (loaded_version env)"
  using assms
  by (auto simp: init_clr_runtime_def init_clr4_runtime_def init_clr2_runtime_def init_runtime_version_def
      es_defs Let_def com_out_ok_def loaded_version_def split: prod.splits if_splits option.splits)

text \<open>An environment in which everything succeeds, for the concrete instances.\<close>

definition good_env :: clr_env where
  "good_env = \<lparr>e_win98 = False, e_module_name = None, e_LoadLibrary = Some 1,
     e_CLRCreateInstance = (S_OK, Some 2), e_GetRuntime = (S_OK, Some 3), e_GetInterface = (S_OK, Some 4),
     e_CorBindToRuntimeEx = (E_FAIL, None), e_Start = S_OK, e_GetDefaultDomain = (S_OK, Some 5),
     e_QI_AppDomain = (S_OK, Some 6), e_CreateInstance = (S_OK, Some 7), e_Unwrap = (S_OK, Some 8),
     e_QI_HostFactory = (S_OK, Some 9), e_Configure = S_OK, e_Description = None\<rparr>"

definition fresh_state :: engine_state where
  "fresh_state = \<lparr>es_conf = new_asp_net_conf, es_log = [], es_events = []\<rparr>"

lemmas good_run_defs = good_env_def fresh_state_def new_asp_net_conf_def init_asp_engine_def stage_defs
  step_defs es_defs SUCCEEDED_iff

lemma good_run: "\<exists>s'. init_asp_engine good_env fresh_state = (Inr S_OK, s')"
  by (simp add: good_run_defs)

lemma good_run_version:
  "\<exists>s'. init_asp_engine good_env (fresh_state\<lparr>es_conf := version_cmd new_asp_net_conf v\<rparr>) = (Inr S_OK, s')"
  by (simp add: good_run_defs version_cmd_def)

section \<open>Properties of the engine\<close>

text \<open>C39: a start that succeeds and the clean-up of the process pool together give back every
  interface the module acquired, once each, but the object handle of the factory, which is
  acquired from \<open>CreateInstance\<close> and never released.\<close>

theorem engine_interfaces_balanced:
  assumes "init_asp_engine env s = (Inr hr, s')" "g_pCorRuntime (es_conf s) = None" "es_events s = []"
  shows "\<exists>oh. snd (e_CreateInstance env) = Some oh \<and>
           (\<forall>p. net (es_events s' @ asp_net_stop (es_conf s')) p = (if p = oh then 1 else 0))"
proof -
  obtain s1 s2 s3 ad where st: "lock_and_load env s = (Inr (), s1)" "start_runtime env s1 = (Inr (), s2)"
      "default_domain env s2 = (Inr ad, s3)" "make_factory env ad s3 = (Inr (), s')"
    by (rule engine_success [OF assms(1)]) (rule that)
  obtain t t' hr' where ll: "init_clr_runtime env t = (Inr hr', t')" "es_conf s1 = es_conf t'"
      "es_events s1 = es_events t'" "es_events t = es_events s @ [ModuleLocked (e_LoadLibrary env), CleanupRegistered]"
      "es_conf t = (es_conf s)\<lparr>g_osver := (if e_win98 env then 1 else 2), g_lock_module := e_LoadLibrary env\<rparr>"
    using lock_and_load_success [OF st(1) assms(2)] by (elim exE conjE) (rule that)
  have "g_pCorRuntime (es_conf t) = None" using ll(5) assms(2) by simp
  from clr_runtime_success [OF ll(1) this] obtain ev where ev: "es_events t' = es_events t @ ev"
      "\<forall>p. net ev p = (if g_pCorRuntime (es_conf t') = Some p then 1 else 0)" by blast
  note rt = start_runtime_success [OF st(2)]
  obtain dom where dd: "es_conf s3 = es_conf s2" "es_events s3 = es_events s2 @ [Acquired dom, Acquired ad, Released dom]"
    using default_domain_success [OF st(3)] by blast
  obtain oh vhf hf where mf: "snd (e_CreateInstance env) = Some oh" "es_conf s' = (es_conf s3)\<lparr>g_pHostFactory := Some hf\<rparr>"
      "es_events s' = es_events s3 @ [Acquired oh, Released ad, Acquired vhf, Acquired hf, Released vhf, FactoryConfigured]"
    using make_factory_success [OF st(4)] by blast
  obtain c where c: "g_pCorRuntime (es_conf t') = Some c" using rt ll(2) by auto
  have "es_events s' = [ModuleLocked (e_LoadLibrary env), CleanupRegistered] @ ev @
      [RuntimeStarted, Acquired dom, Acquired ad, Released dom,
       Acquired oh, Released ad, Acquired vhf, Acquired hf, Released vhf, FactoryConfigured]"
    by (simp add: mf(3) dd(2) rt ll(3,4) ev(1) assms(3))
  moreover have "asp_net_stop (es_conf s') = [FactoryDestroyed, Released hf, RuntimeStopped, Released c]"
    by (simp add: asp_net_stop_def mf(2) dd(1) rt ll(2) c)
  ultimately show ?thesis using mf(1) ev(2) c by simp
qed

theorem engine_interfaces_balanced_witness:
  "\<exists>s'. init_asp_engine good_env fresh_state = (Inr S_OK, s') \<and>
     net (es_events s' @ asp_net_stop (es_conf s')) 7 = 1"
proof -
  obtain s' where s': "init_asp_engine good_env fresh_state = (Inr S_OK, s')" using good_run by blast
  have "g_pCorRuntime (es_conf fresh_state) = None" "es_events fresh_state = []"
    by (simp_all add: fresh_state_def new_asp_net_conf_def)
  from engine_interfaces_balanced [OF s' this] s' show ?thesis by (simp add: good_env_def)
qed

text \<open>The \<open>AspNetVersion\<close> directive has no effect: whatever version it stored, a start that
  succeeds ends with one of the two versions written into the module, 4.0 when the meta host
  exists and 2.0 when it does not.\<close>

theorem version_directive_ignored:
  assumes "init_asp_engine env (s\<lparr>es_conf := version_cmd (es_conf s) v\<rparr>) = (Inr hr, s')"
    "g_pCorRuntime (es_conf s) = None" "com_out_ok env"
  shows "g_cor_version (es_conf s') = Some (loaded_version env)"
proof -
  let ?s = "s\<lparr>es_conf := version_cmd (es_conf s) v\<rparr>"
  have none: "g_pCorRuntime (es_conf ?s) = None" using assms(2) by (simp add: version_cmd_def)
  obtain s1 s2 s3 ad where st: "lock_and_load env ?s = (Inr (), s1)" "start_runtime env s1 = (Inr (), s2)"
      "default_domain env s2 = (Inr ad, s3)" "make_factory env ad s3 = (Inr (), s')"
    by (rule engine_success [OF assms(1)]) (rule that)
  obtain t t' hr' where ll: "init_clr_runtime env t = (Inr hr', t')" "es_conf s1 = es_conf t'"
      "es_conf t = (es_conf ?s)\<lparr>g_osver := (if e_win98 env then 1 else 2), g_lock_module := e_LoadLibrary env\<rparr>"
    using lock_and_load_success [OF st(1) none] by (elim exE conjE) (rule that)
  have nt: "g_pCorRuntime (es_conf t) = None" using ll(3) none by simp
  have "g_pCorRuntime (es_conf t') \<noteq> None" using start_runtime_success [OF st(2)] ll(2) by simp
  from clr_runtime_version [OF ll(1) nt assms(3) this]
  have "g_cor_version (es_conf s3) = Some (loaded_version env)"
    using start_runtime_success [OF st(2)] default_domain_success [OF st(3)] ll(2) by simp
  then show ?thesis using make_factory_success [OF st(4)] by fastforce
qed

theorem version_directive_ignored_witness:
  "\<exists>s'. init_asp_engine good_env (fresh_state\<lparr>es_conf := version_cmd (es_conf fresh_state) ''v1.1.4322''\<rparr>) = (Inr S_OK, s') \<and>
     g_cor_version (es_conf s') = Some ''v4.0.30319''"
proof -
  obtain s' where s': "init_asp_engine good_env (fresh_state\<lparr>es_conf := version_cmd (es_conf fresh_state) ''v1.1.4322''\<rparr>) = (Inr S_OK, s')"
    using good_run_version by (auto simp: fresh_state_def)
  have "g_pCorRuntime (es_conf fresh_state) = None" "com_out_ok good_env"
    by (simp_all add: fresh_state_def new_asp_net_conf_def com_out_ok_def good_env_def)
  from version_directive_ignored [OF s' this] s' show ?thesis
    by (simp add: loaded_version_def good_env_def SUCCEEDED_iff)
qed

text \<open>When the meta host exists but has no runtime 4.0, nothing falls back to 2.0 and nothing
  reports it: the result of \<open>init_clr_runtime\<close> is not looked at and the start of the module
  follows the null runtime pointer, which ends the process.\<close>

theorem missing_runtime_faults:
  assumes "e_module_name env = None" "SUCCEEDED (fst (e_CLRCreateInstance env))" "FAILED (fst (e_GetRuntime env))"
    "\<not> FAILED (if ci = RPC_E_CHANGED_MODE then ciex else ci)" "g_pCorRuntime (es_conf s) = None"
  shows "fst (asp_net_post_config env ci ciex create u8w acp server iter s f) = None"
proof -
  define t where "t = snd (es_emit (VersionComponent (version_component 2 4)) s)"
  have nt: "g_pCorRuntime (es_conf t) = None" using assms(5) by (simp add: t_def es_emit_def)
  have "fst (init_asp_engine env t) = Inl Fault"
    using assms(1-3) nt
    by (auto simp: init_asp_engine_def lock_and_load_def start_runtime_def asp_module_lock98_def asp_module_lock_def
        init_clr_runtime_def init_clr4_runtime_def es_defs es_debug_def Let_def split_beta split: option.splits)
  then obtain t' where "init_asp_engine env t = (Inl Fault, t')" by (metis prod.collapse)
  then have "fst (start_engine env ci ciex t) = None"
    using assms(4) nt by (simp add: start_engine_def)
  then show ?thesis
    by (auto simp: asp_net_post_config_def t_def [symmetric] split: prod.splits option.splits)
qed

theorem missing_runtime_faults_witness:
  "fst (asp_net_post_config (good_env\<lparr>e_GetRuntime := (E_FAIL, None)\<rparr>) S_OK S_OK
     (\<lambda>v p s f. (Inr 0, f)) (\<lambda>_. None) wL None (\<lambda>_. []) fresh_state ()) = None"
  by (rule missing_runtime_faults)
     (simp_all add: good_env_def fresh_state_def new_asp_net_conf_def SUCCEEDED_iff RPC_E_CHANGED_MODE_def S_OK_def FAILED_def E_FAIL_def)

section \<open>The pass over the hosts\<close>

lemma create_hosts_pointers:
  assumes "create_hosts create bstr server as g f = (st, g', f', log)"
  shows "g_pCorRuntime g' = g_pCorRuntime g \<and> g_pHostFactory g' = g_pHostFactory g"
  using assms
proof (induction as arbitrary: g f st g' f' log)
  case (Cons a as)
  then show ?case
    by (simp add: set_host_key_def Let_def split: option.splits if_splits prod.splits sum.splits) fastforce+
qed simp

lemma create_hosts_done:
  assumes "\<forall>a \<in> set as. \<forall>h. g_host_store g a = Some h \<longrightarrow> h_host_key h \<noteq> -1"
  shows "create_hosts create bstr server as g f = (OK, g, f, [])"
  using assms by (induction as) (auto split: option.split)

lemma start_engine_started:
  assumes "start_engine env ci ciex s = (Some OK, s')"
  shows "g_pCorRuntime (es_conf s') \<noteq> None \<and> g_pHostFactory (es_conf s') \<noteq> None"
proof (cases "g_pCorRuntime (es_conf s) = None \<or> g_pHostFactory (es_conf s) = None")
  case True
  then obtain hr where run: "init_asp_engine env s = (Inr hr, s')"
    using assms by (auto simp: start_engine_def Let_def OK_def split: if_splits prod.splits sum.splits engine_exn.splits)
  obtain s1 s2 s3 ad where st: "lock_and_load env s = (Inr (), s1)" "start_runtime env s1 = (Inr (), s2)"
      "default_domain env s2 = (Inr ad, s3)" "make_factory env ad s3 = (Inr (), s')"
    by (rule engine_success [OF run]) (rule that)
  have "g_pCorRuntime (es_conf s3) \<noteq> None"
    using start_runtime_success [OF st(2)] default_domain_success [OF st(3)] by simp
  then show ?thesis using make_factory_success [OF st(4)] by fastforce
qed (use assms in \<open>auto simp: start_engine_def\<close>)

text \<open>Every record of the store is an entry of the host table: \<open>mount_host\<close> makes both at once.\<close>

definition store_mounted :: "asp_net_conf \<Rightarrow> bool" where
  "store_mounted g \<longleftrightarrow> dom (g_host_store g) \<subseteq> ran (g_hosts g)"

lemma store_mounted_new [simp]: "store_mounted new_asp_net_conf"
  by (simp add: store_mounted_def new_asp_net_conf_def)

lemma store_mounted_mount_host:
  assumes "store_mounted g" shows "store_mounted (fst (mount_host g u r))"
  using assms
  by (cases "g_hosts g (combined_key u r)") (auto simp: store_mounted_def mount_host_def Let_def)

lemma store_mounted_extend:
  assumes "keys_extend g g'" "store_mounted g" shows "store_mounted g'"
proof -
  have "g_host_store g a \<noteq> None" if "g_host_store g' a = Some h" for a h
    using keys_extend_None [OF assms(1), of a] that by auto
  then show ?thesis using assms by (fastforce simp: store_mounted_def keys_extend_def)
qed

lemma aliases_wf_keys:
  assumes "keys_extend g g'" "aliases_wf g sc" shows "aliases_wf g' sc"
  unfolding aliases_wf_def
proof (intro allI impI)
  fix u al assume al: "sc_aliases sc u = Some al"
  then obtain h where h: "g_host_store g (al_host al) = Some h" "h_virtual_path h = u"
      "al_virtual_path al = u" "al_virtual_path_len al = length u"
    using assms(2) by (auto simp: aliases_wf_def)
  obtain k where "g_host_store g' (al_host al) = Some (h\<lparr>h_host_key := k\<rparr>)"
    by (rule keys_extendD [OF assms(1) h(1)]) (rule that)
  with h show "al_virtual_path al = u \<and> al_virtual_path_len al = length u \<and>
      (\<exists>h. g_host_store g' (al_host al) = Some h \<and> h_virtual_path h = u)" by simp
qed

section \<open>Properties of the host table\<close>

lemma post_config_OK:
  assumes "asp_net_post_config env ci ciex create u8w acp server iter s f = (Some OK, s', f')"
  obtains s1 log where "start_engine env ci ciex (snd (es_emit (VersionComponent (version_component 2 4)) s)) = (Some OK, s1)"
    "create_hosts create (to_bstr u8w acp) server (iter (es_conf s1)) (es_conf s1) f = (OK, es_conf s', f', log)"
    "g_hosts (es_conf s1) = g_hosts (es_conf s)" "g_host_store (es_conf s1) = g_host_store (es_conf s)"
proof -
  let ?t = "snd (es_emit (VersionComponent (version_component 2 4)) s)"
  obtain st s1 where st: "start_engine env ci ciex ?t = (st, s1)" by fastforce
  have OK: "st = Some OK"
    using assms st by (auto simp: asp_net_post_config_def Let_def split: option.splits if_splits)
  obtain r g f2 log where ch:
    "create_hosts create (to_bstr u8w acp) server (iter (es_conf s1)) (es_conf s1) f = (r, g, f2, log)"
    by (metis surj_pair)
  have res: "r = OK" "es_conf s' = g" "f2 = f'"
    using assms st OK ch by (auto simp: asp_net_post_config_def Let_def)
  have "tables s1 = tables s"
    using start_engine_tables [OF st] by (simp add: tables_def es_emit_def)
  then show ?thesis
    using that [of s1 log] st OK ch res by (simp add: tables_def)
qed

lemma hosts_registered:
  assumes "asp_net_post_config env ci ciex (com_create aenv hr_of) u8w acp server iter s f = (Some OK, s', f')"
    "keys_agree (\<lambda>s. factory_entry (fs_fac s)) (\<lambda>p. Replace p slash backslash) (to_bstr u8w acp) (es_conf s) f"
    "factory_wf (fs_fac f)"
    "\<forall>g. g_hosts g = g_hosts (es_conf s) \<longrightarrow> set (iter g) = ran (g_hosts (es_conf s))"
  shows "keys_extend (es_conf s) (es_conf s') \<and> factory_wf (fs_fac f') \<and>
    (\<forall>a \<in> ran (g_hosts (es_conf s')). \<forall>h. g_host_store (es_conf s') a = Some h \<longrightarrow> h_host_key h \<noteq> -1) \<and>
    keys_agree (\<lambda>s. factory_entry (fs_fac s)) (\<lambda>p. Replace p slash backslash) (to_bstr u8w acp) (es_conf s') f' \<and>
    g_pHostFactory (es_conf s') \<noteq> None \<and> g_pCorRuntime (es_conf s') \<noteq> None"
proof -
  obtain s1 log where s1: "create_hosts (com_create aenv hr_of) (to_bstr u8w acp) server (iter (es_conf s1)) (es_conf s1) f
        = (OK, es_conf s', f', log)"
      "g_hosts (es_conf s1) = g_hosts (es_conf s)" "g_host_store (es_conf s1) = g_host_store (es_conf s)"
    and st: "start_engine env ci ciex (snd (es_emit (VersionComponent (version_component 2 4)) s)) = (Some OK, s1)"
    by (rule post_config_OK [OF assms(1)]) (rule that)
  have ag: "keys_agree (\<lambda>s. factory_entry (fs_fac s)) (\<lambda>p. Replace p slash backslash) (to_bstr u8w acp) (es_conf s1) f"
    using assms(2) s1(3) by (simp add: keys_agree_def)
  note cor = hf.create_hosts_correct [OF s1(1) ag assms(3)]
  have nx: "g_next_host (es_conf s1) = g_next_host (es_conf s)"
    using start_engine_tables [OF st] by (simp add: tables_def es_emit_def)
  have ext: "keys_extend (es_conf s) (es_conf s')"
    using cor s1(2,3) nx by (simp add: keys_extend_def)
  have "set (iter (es_conf s1)) = ran (g_hosts (es_conf s'))"
    using assms(4) s1(2) ext by (simp add: keys_extend_def)
  with cor have key: "\<forall>a \<in> ran (g_hosts (es_conf s')). \<forall>h. g_host_store (es_conf s') a = Some h \<longrightarrow> h_host_key h \<noteq> -1"
    by simp
  have fin: "keys_agree (\<lambda>s. factory_entry (fs_fac s)) (\<lambda>p. Replace p slash backslash) (to_bstr u8w acp) (es_conf s') f'"
    using cor by blast
  have "g_pHostFactory (es_conf s') \<noteq> None \<and> g_pCorRuntime (es_conf s') \<noteq> None"
    using create_hosts_pointers [OF s1(1)] start_engine_started [OF st] by simp
  then show ?thesis using ext key fin cor by blast
qed

text \<open>C2: the contract between the start of the module and its handler: after a successful
  \<open>asp_net_post_config\<close> over the whole table, with the factory's own \<open>CreateHost\<close>, every
  mounted host has a key, the factory knows that key with the host's own virtual path and
  with its physical path (separators turned), and no two hosts share a key; nothing else of
  the table has changed.\<close>

theorem post_config_registers_hosts:
  assumes "asp_net_post_config env ci ciex (com_create aenv hr_of) u8w acp server iter s f = (Some OK, s', f')"
    "keys_agree (\<lambda>s. factory_entry (fs_fac s)) (\<lambda>p. Replace p slash backslash) (to_bstr u8w acp) (es_conf s) f"
    "factory_wf (fs_fac f)"
    "\<forall>g. g_hosts g = g_hosts (es_conf s) \<longrightarrow> set (iter g) = ran (g_hosts (es_conf s))"
  shows "keys_extend (es_conf s) (es_conf s') \<and>
         (\<forall>a \<in> ran (g_hosts (es_conf s')). \<forall>h. g_host_store (es_conf s') a = Some h \<longrightarrow>
            h_host_key h \<noteq> -1 \<and>
            factory_entry (fs_fac f') (h_host_key h) =
              Some (to_bstr u8w acp (h_virtual_path h), Replace (to_bstr u8w acp (h_physical_path h)) slash backslash) \<and>
            (\<forall>b k. g_host_store (es_conf s') b = Some k \<longrightarrow> h_host_key k = h_host_key h \<longrightarrow> b = a))"
proof -
  note reg = hosts_registered [OF assms]
  have "keys_extend (es_conf s) (es_conf s')" using reg by blast
  moreover have "h_host_key h \<noteq> -1"
    if "a \<in> ran (g_hosts (es_conf s'))" "g_host_store (es_conf s') a = Some h" for a h
    using reg that by blast
  ultimately show ?thesis using reg unfolding keys_agree_def by metis
qed

text \<open>One mount, an engine already started and a new factory, for the concrete instances.\<close>

definition started_state :: engine_state where
  "started_state =
     \<lparr>es_conf = fst (mount_host (new_asp_net_conf\<lparr>g_pCorRuntime := Some 1, g_pHostFactory := Some 2\<rparr>) ''/app'' ''C:/app''),
      es_log = [], es_events = []\<rparr>"

definition empty_factory :: "nat fstate" where
  "empty_factory = \<lparr>fs_fac = new_factory, fs_world = 0, fs_log = []\<rparr>"

abbreviation run_post where
  "run_post s f \<equiv> asp_net_post_config good_env S_OK S_OK (com_create sample_env (\<lambda>_. E_FAIL)) (\<lambda>_. None) wL None
     (\<lambda>_. [0]) s f"

lemma empty_factory_wf: "factory_wf (fs_fac empty_factory)"
  by (simp add: empty_factory_def new_factory_def factory_wf_def)

lemma started_keys:
  "keys_agree (\<lambda>s. factory_entry (fs_fac s)) (\<lambda>p. Replace p slash backslash) bstr (es_conf started_state) f"
  by (simp add: keys_agree_def started_state_def mount_host_def new_asp_net_conf_def)

lemma started_iter: "\<forall>g. g_hosts g = g_hosts (es_conf started_state) \<longrightarrow> set [0] = ran (g_hosts (es_conf started_state))"
  by (simp add: started_state_def mount_host_def new_asp_net_conf_def)

lemma started_run: "\<exists>s' f'. run_post started_state empty_factory = (Some OK, s', f')"
proof -
  have "case run_post started_state empty_factory of (r, s', f') \<Rightarrow> r = Some OK" by code_simp
  then show ?thesis by (auto split: prod.splits)
qed

lemma started_mounted: "store_mounted (es_conf started_state)"
proof -
  have "store_mounted (new_asp_net_conf\<lparr>g_pCorRuntime := Some 1, g_pHostFactory := Some 2\<rparr>)"
    by (simp add: store_mounted_def new_asp_net_conf_def)
  from store_mounted_mount_host [OF this] show ?thesis by (simp add: started_state_def)
qed

lemma started_aliases: "aliases_wf (es_conf started_state) sample_srv"
  by (simp add: aliases_wf_def started_state_def sample_srv_def sample_alias_def mount_host_def new_asp_net_conf_def)

theorem post_config_registers_hosts_witness:
  "\<exists>s' f'. run_post started_state empty_factory = (Some OK, s', f') \<and>
     keys_extend (es_conf started_state) (es_conf s')"
proof -
  obtain s' f' where r: "run_post started_state empty_factory = (Some OK, s', f')" using started_run by blast
  from post_config_registers_hosts [OF r started_keys empty_factory_wf started_iter] r show ?thesis by blast
qed

text \<open>A later pass of the configuration, as every restart makes one, starts nothing again: with
  the state and the factory a successful pass left, \<open>asp_net_post_config\<close> succeeds with both
  unchanged, creates no host, writes no log and only adds its component to the server string.\<close>

theorem post_config_repeats:
  assumes "asp_net_post_config env ci ciex (com_create aenv hr_of) u8w acp server iter s f = (Some OK, s', f')"
    "keys_agree (\<lambda>s. factory_entry (fs_fac s)) (\<lambda>p. Replace p slash backslash) (to_bstr u8w acp) (es_conf s) f"
    "factory_wf (fs_fac f)"
    "\<forall>g. g_hosts g = g_hosts (es_conf s) \<longrightarrow> set (iter g) = ran (g_hosts (es_conf s))"
  shows "asp_net_post_config env' ci' ciex' create u8w acp server iter
           (s'\<lparr>es_conf := asp_net_pre_config (APR_SUCCESS, Some (es_conf s'))\<rparr>) f' =
         (Some OK, s'\<lparr>es_events := es_events s' @ [VersionComponent (version_component 2 4)]\<rparr>, f')"
proof -
  note reg = hosts_registered [OF assms]
  let ?t = "s'\<lparr>es_events := es_events s' @ [VersionComponent (version_component 2 4)]\<rparr>"
  have pre: "asp_net_pre_config (APR_SUCCESS, Some (es_conf s')) = es_conf s'"
    by (simp add: asp_net_pre_config_def)
  have hs: "g_hosts (es_conf s') = g_hosts (es_conf s)" using reg by (simp add: keys_extend_def)
  then have it: "set (iter (es_conf s')) = ran (g_hosts (es_conf s'))" using assms(4) by simp
  have "\<forall>a \<in> set (iter (es_conf s')). \<forall>h. g_host_store (es_conf s') a = Some h \<longrightarrow> h_host_key h \<noteq> -1"
    unfolding it using reg by blast
  note dn = create_hosts_done [OF this, of create "to_bstr u8w acp" server f']
  have "g_pHostFactory (es_conf s') \<noteq> None" "g_pCorRuntime (es_conf s') \<noteq> None" using reg by blast+
  then have se: "start_engine env' ci' ciex' ?t = (Some OK, ?t)" by (auto simp: start_engine_def)
  have "asp_net_post_config env' ci' ciex' create u8w acp server iter s' f' = (Some OK, ?t, f')"
    using se dn by (simp add: asp_net_post_config_def es_emit_def OK_def)
  then show ?thesis by (simp add: pre)
qed

theorem post_config_repeats_witness:
  "\<exists>s' f'. run_post started_state empty_factory = (Some OK, s', f') \<and>
     (\<exists>s''. run_post s' f' = (Some OK, s'', f') \<and> es_conf s'' = es_conf s')"
proof -
  obtain s' f' where r: "run_post started_state empty_factory = (Some OK, s', f')" using started_run by blast
  from post_config_repeats [OF r started_keys empty_factory_wf started_iter, of good_env S_OK S_OK
      "com_create sample_env (\<lambda>_. E_FAIL)"] r
  show ?thesis by (auto simp: asp_net_pre_config_def)
qed

lemma mounted_request:
  assumes "asp_net_post_config env ci ciex (com_create aenv hr_of) u8w acp server iter s f = (Some OK, s', f')"
    "keys_agree (\<lambda>s. factory_entry (fs_fac s)) (\<lambda>p. Replace p slash backslash) (to_bstr u8w acp) (es_conf s) f"
    "factory_wf (fs_fac f)"
    "\<forall>g. g_hosts g = g_hosts (es_conf s) \<longrightarrow> set (iter g) = ran (g_hosts (es_conf s))"
    "store_mounted (es_conf s)" "aliases_wf (es_conf s) sc" "set (order sc) = ran (sc_aliases sc)"
    "check_request dc r = None" "\<not> FAILED (co_init rciex rci)" "u \<in> dom (sc_aliases sc)" "covers u (the (r_uri r))"
  shows "\<exists>h :: asp_net_host_conf. covers (h_virtual_path h) (the (r_uri r)) \<and>
           factory_entry (fs_fac f') (h_host_key h) =
             Some (to_bstr u8w acp (h_virtual_path h), Replace (to_bstr u8w acp (h_physical_path h)) slash backslash) \<and>
           valid_key (fs_fac f') (h_host_key h) \<and>
           asp_net_handler handle cv cg rciex rci order (es_conf s') sc dc r fw =
             (let (res, r, fw) = handle (h_host_key h) (cg (cv r)) fw; (st, log) = handler_status res
              in (Status st, r, fw, log))"
proof -
  note reg = hosts_registered [OF assms(1-4)]
  have ext: "keys_extend (es_conf s) (es_conf s')" using reg by blast
  have al: "aliases_wf (es_conf s') sc" by (rule aliases_wf_keys [OF ext assms(6)])
  have hf: "g_pHostFactory (es_conf s') \<noteq> None" using reg by blast
  obtain a h where h: "g_host_store (es_conf s') a = Some h" "covers (h_virtual_path h) (the (r_uri r))"
      "asp_net_handler handle cv cg rciex rci order (es_conf s') sc dc r fw =
         (let (res, r, fw) = handle (h_host_key h) (cg (cv r)) fw; (st, log) = handler_status res
          in (Status st, r, fw, log))"
    using handler_reaches_factory [where handle = handle and f = fw and iter = order, OF al assms(7) hf assms(8-11)]
    by blast
  have "a \<in> ran (g_hosts (es_conf s'))"
    using store_mounted_extend [OF ext assms(5)] h(1) by (auto simp: store_mounted_def)
  then have "h_host_key h \<noteq> -1" using reg h(1) by blast
  then have e: "factory_entry (fs_fac f') (h_host_key h) =
      Some (to_bstr u8w acp (h_virtual_path h), Replace (to_bstr u8w acp (h_physical_path h)) slash backslash)"
    using reg h(1) unfolding keys_agree_def by blast
  moreover have "valid_key (fs_fac f') (h_host_key h)"
    using factory_entry_valid reg e by blast
  ultimately show ?thesis using h(2,3) by (intro exI [of _ h] conjI)
qed

text \<open>C1: configuration, start and dispatch together: after a successful start, a request that
  passes the checks below a mount of its server is handed to the factory under a key that
  the factory itself has registered for a host whose virtual path covers the URI, with that
  host's two paths.\<close>

theorem mounted_request_reaches_its_host:
  assumes "asp_net_post_config env ci ciex (com_create aenv hr_of) u8w acp server iter s f = (Some OK, s', f')"
    "keys_agree (\<lambda>s. factory_entry (fs_fac s)) (\<lambda>p. Replace p slash backslash) (to_bstr u8w acp) (es_conf s) f"
    "factory_wf (fs_fac f)"
    "\<forall>g. g_hosts g = g_hosts (es_conf s) \<longrightarrow> set (iter g) = ran (g_hosts (es_conf s))"
    "store_mounted (es_conf s)" "aliases_wf (es_conf s) sc" "set (order sc) = ran (sc_aliases sc)"
    "check_request dc r = None" "\<not> FAILED (co_init rciex rci)" "u \<in> dom (sc_aliases sc)" "covers u (the (r_uri r))"
  shows "\<exists>h :: asp_net_host_conf. covers (h_virtual_path h) (the (r_uri r)) \<and>
           factory_entry (fs_fac f') (h_host_key h) =
             Some (to_bstr u8w acp (h_virtual_path h), Replace (to_bstr u8w acp (h_physical_path h)) slash backslash) \<and>
           valid_key (fs_fac f') (h_host_key h) \<and>
           asp_net_handler handle cv cg rciex rci order (es_conf s') sc dc r fw =
             (let (res, r, fw) = handle (h_host_key h) (cg (cv r)) fw; (st, log) = handler_status res
              in (Status st, r, fw, log))"
  using assms by (rule mounted_request)

theorem mounted_request_reaches_its_host_witness:
  "\<exists>s' f' (h :: asp_net_host_conf). run_post started_state empty_factory = (Some OK, s', f') \<and>
     covers (h_virtual_path h) ''/App/x.aspx'' \<and> valid_key (fs_fac f') (h_host_key h)"
proof -
  obtain s' f' where r: "run_post started_state empty_factory = (Some OK, s', f')" using started_run by blast
  have ci: "\<not> FAILED (co_init S_OK S_OK)" by (simp add: co_init_def RPC_E_CHANGED_MODE_def S_OK_def FAILED_def)
  have u: "''/app'' \<in> dom (sc_aliases sample_srv)" by (simp add: sample_srv_def)
  have uri: "the (r_uri (sample_request ''/App/x.aspx'')) = ''/App/x.aspx''" by (simp add: sample_request_def)
  have "covers ''/app'' ''/App/x.aspx''" by code_simp
  then have c: "covers ''/app'' (the (r_uri (sample_request ''/App/x.aspx'')))" unfolding uri .
  obtain h :: asp_net_host_conf where h: "covers (h_virtual_path h) ''/App/x.aspx''" "valid_key (fs_fac f') (h_host_key h)"
    using mounted_request_reaches_its_host [where order = "\<lambda>_. [sample_alias]" and handle = "\<lambda>k r f. (Inr OK, r, f)"
        and cv = id and cg = id and fw = "()", OF r started_keys empty_factory_wf started_iter
        started_mounted started_aliases sample_ran sample_checks [of "''App/x.aspx''"] ci u c]
    unfolding uri by (elim exE conjE) (rule that)
  show ?thesis by (intro exI conjI) (rule r h)+
qed

end
