(* ===== verification/Worker_Request.thy ===== *)
theory Worker_Request
  imports Header_Tables Host
begin

text \<open>
  The worker request of \<open>Apache.Web/WorkerRequest.h\<close> and \<open>.cpp\<close>, through which ASP.NET sees
  an httpd request: its state, the constructor that sorts the request's headers, and the
  methods that read. The methods that send and that read the body are in \<open>Worker_Response\<close>
  and \<open>Worker_Input\<close>. The code is modelled as a release build compiles it, without the
  blocks under \<open>_DEBUG\<close>.
\<close>

section \<open>State\<close>

text \<open>
  The fields of the class. Array lists that grow together are lists of the same length;
  \<open>wr_wait_complete\<close> is the event (\<open>None\<close> before \<open>Handler\<close> makes it); \<open>wr_world\<close> is what lies
  behind the filters of the request, and \<open>wr_log\<close> the error log.
\<close>

record 'w worker =
  wr_uri :: wstr
  wr_unparsed_uri :: wstr
  wr_queryargs :: wstr
  wr_filename :: wstr
  wr_remoteName :: nstr
  wr_serverName :: nstr
  wr_query_raw :: string
  wr_request_headers_value :: "nstr list"
  wr_unk_req_header_name :: "wstr list"
  wr_unk_req_header_index :: "wstr list"
  wr_unk_req_header_value :: "wstr list"
  wr_env_name :: "wstr list"
  wr_env_value :: "wstr list"
  wr_unk_req_hdr_arr :: "(wstr \<times> wstr) list"
  wr_rr :: request_rec
  wr_host :: host
  wr_wait_complete :: "bool option"
  wr_eosnCallback :: ptr
  wr_preread_body :: "string option"
  wr_seen_eos :: bool
  wr_body_sent :: bool
  wr_bytes_read :: int
  wr_world :: 'w
  wr_log :: "log_entry list"

section \<open>Construction\<close>

text \<open>\<open>gcnew String(p)\<close> of a null pointer is the empty string.\<close>

definition net_string :: "encodings \<Rightarrow> c_ptr \<Rightarrow> wstr" where
  "net_string en p = (case p of None \<Rightarrow> [] | Some s \<Rightarrow> en_ansi en s)"

text \<open>One header of the request: into the array if its name is known, else onto the lists.\<close>

definition add_header :: "culture \<Rightarrow> encodings \<Rightarrow> string \<times> string \<Rightarrow> 'w worker \<Rightarrow> 'w worker" where
  "add_header cu en pair w =
     (let key = en_ansi en (fst pair);
          val = en_ansi en (snd pair);
          key_index = ToLower (cu_lower cu) key;
          ent = IndexOf request_headers_index_s key_index
      in if ent \<ge> 0
         then w\<lparr>wr_request_headers_value := (wr_request_headers_value w)[nat ent := Some val]\<rparr>
         else w\<lparr>wr_unk_req_header_name := wr_unk_req_header_name w @ [key],
                wr_unk_req_header_index := wr_unk_req_header_index w @ [key_index],
                wr_unk_req_header_value := wr_unk_req_header_value w @ [val]\<rparr>)"

definition add_env :: "encodings \<Rightarrow> string \<times> string \<Rightarrow> 'w worker \<Rightarrow> 'w worker" where
  "add_env en pair w =
     w\<lparr>wr_env_name := wr_env_name w @ [en_ansi en (fst pair)],
       wr_env_value := wr_env_value w @ [en_ansi en (snd pair)]\<rparr>"

definition blank_worker :: "encodings \<Rightarrow> request_rec \<Rightarrow> host \<Rightarrow> 'w \<Rightarrow> 'w worker" where
  "blank_worker en rr h x =
     \<lparr>wr_uri = net_string en (r_uri rr), wr_unparsed_uri = net_string en (r_unparsed_uri rr),
      wr_queryargs = net_string en (r_args rr),
      wr_filename = Replace (case r_filename rr of None \<Rightarrow> [] | Some s \<Rightarrow> en_utf8_str en s) slash backslash,
      wr_remoteName = None, wr_serverName = None,
      wr_query_raw = (case r_args rr of None \<Rightarrow> [] | Some s \<Rightarrow> s),
      wr_request_headers_value = replicate RequestHeaderMaximum None,
      wr_unk_req_header_name = [], wr_unk_req_header_index = [], wr_unk_req_header_value = [],
      wr_env_name = [], wr_env_value = [], wr_unk_req_hdr_arr = [],
      wr_rr = rr, wr_host = h, wr_wait_complete = None, wr_eosnCallback = None,
      wr_preread_body = None, wr_seen_eos = False, wr_body_sent = False, wr_bytes_read = 0,
      wr_world = x, wr_log = []\<rparr>"

definition new_worker :: "culture \<Rightarrow> encodings \<Rightarrow> request_rec \<Rightarrow> host \<Rightarrow> 'w \<Rightarrow> 'w worker" where
  "new_worker cu en rr h x =
     (let w = fold (add_header cu en) (r_headers_in rr) (blank_worker en rr h x);
          w = w\<lparr>wr_unk_req_hdr_arr := zip (wr_unk_req_header_name w) (wr_unk_req_header_value w)\<rparr>
      in fold (add_env en) (r_subprocess_env rr) w)"

section \<open>Reading the request\<close>

definition GetUriPath :: "'w worker \<Rightarrow> wstr" where "GetUriPath w = wr_uri w"
definition GetQueryString :: "'w worker \<Rightarrow> wstr" where "GetQueryString w = wr_queryargs w"
definition GetQueryStringRawBytes :: "'w worker \<Rightarrow> string" where "GetQueryStringRawBytes w = wr_query_raw w"
definition GetRawUrl :: "'w worker \<Rightarrow> wstr" where "GetRawUrl w = wr_unparsed_uri w"

definition GetHttpVerbName :: "encodings \<Rightarrow> 'w worker \<Rightarrow> wstr" where
  "GetHttpVerbName en w = net_string en (r_method (wr_rr w))"

definition GetHttpVersion :: "encodings \<Rightarrow> 'w worker \<Rightarrow> wstr" where
  "GetHttpVersion en w = net_string en (r_protocol (wr_rr w))"

text \<open>\<open>scheme\<close> is \<open>ap_http_scheme\<close>.\<close>

definition GetProtocol :: "culture \<Rightarrow> encodings \<Rightarrow> (request_rec \<Rightarrow> c_ptr) \<Rightarrow> 'w worker \<Rightarrow> wstr" where
  "GetProtocol cu en scheme w = map (cu_upper cu) (net_string en (scheme (wr_rr w)))"

definition GetRemoteAddress :: "encodings \<Rightarrow> 'w worker \<Rightarrow> wstr" where
  "GetRemoteAddress en w = net_string en (c_client_ip (r_connection (wr_rr w)))"

definition GetRemotePort :: "'w worker \<Rightarrow> int" where
  "GetRemotePort w = sa_port (c_client_addr (r_connection (wr_rr w)))"

text \<open>
  The remote and the server name are looked up once, by \<open>ap_get_remote_host\<close> and
  \<open>ap_get_server_name\<close>, and kept.
\<close>

definition GetRemoteName :: "encodings \<Rightarrow> (request_rec \<Rightarrow> c_ptr) \<Rightarrow> 'w worker \<Rightarrow> wstr \<times> 'w worker" where
  "GetRemoteName en remote_host w =
     (case wr_remoteName w of
        Some n \<Rightarrow> (n, w)
      | None \<Rightarrow>
          (let n = (case remote_host (wr_rr w) of None \<Rightarrow> [] | Some s \<Rightarrow> net_string en (Some s))
           in (n, w\<lparr>wr_remoteName := Some n\<rparr>)))"

definition GetServerName :: "encodings \<Rightarrow> (request_rec \<Rightarrow> c_ptr) \<Rightarrow> 'w worker \<Rightarrow> wstr \<times> 'w worker" where
  "GetServerName en server_name w =
     (case wr_serverName w of
        Some n \<Rightarrow> (n, w)
      | None \<Rightarrow>
          (let n = (case server_name (wr_rr w) of None \<Rightarrow> [] | Some s \<Rightarrow> net_string en (Some s))
           in (n, w\<lparr>wr_serverName := Some n\<rparr>)))"

text \<open>
  All variables as one string: for each its name, an equals sign, its value and a NUL, and
  a NUL at the end. \<open>all_raw_size\<close> is the capacity the code computes for the result.
\<close>

definition all_raw_size :: "'w worker \<Rightarrow> nat" where
  "all_raw_size w =
     foldl (\<lambda>size i. size + (length (wr_env_name w ! i) + 1) + (length (wr_env_value w ! i) + 1)) 1
       [0..<length (wr_env_name w)]"

definition all_raw :: "'w worker \<Rightarrow> wstr" where
  "all_raw w =
     foldl (\<lambda>res i. res @ wr_env_name w ! i @ wL ''='' @ wr_env_value w ! i @ [0]) []
       [0..<length (wr_env_name w)] @ [0]"

definition GetServerVariable :: "'w worker \<Rightarrow> wstr \<Rightarrow> nstr" where
  "GetServerVariable w name =
     (if name = wL ''ALL_RAW'' then Some (all_raw w)
      else
        (let ent = IndexOf (wr_env_name w) name
         in if ent \<ge> 0 then Some (wr_env_value w ! nat ent) else None))"

definition GetLocalAddress :: "encodings \<Rightarrow> 'w worker \<Rightarrow> wstr" where
  "GetLocalAddress en w = net_string en (c_local_ip (r_connection (wr_rr w)))"

definition GetLocalPort :: "'w worker \<Rightarrow> int" where
  "GetLocalPort w = sa_port (c_local_addr (r_connection (wr_rr w)))"

definition GetFilePathTranslated :: "'w worker \<Rightarrow> wstr" where
  "GetFilePathTranslated w = wr_filename w"

definition GetPathInfo :: "encodings \<Rightarrow> 'w worker \<Rightarrow> wstr" where
  "GetPathInfo en w = net_string en (r_path_info (wr_rr w))"

definition GetKnownRequestHeader :: "'w worker \<Rightarrow> int \<Rightarrow> nstr" where
  "GetKnownRequestHeader w index =
     (if index \<ge> 0 \<and> index < int RequestHeaderMaximum then wr_request_headers_value w ! nat index else None)"

definition GetUnknownRequestHeader :: "culture \<Rightarrow> 'w worker \<Rightarrow> wstr \<Rightarrow> nstr" where
  "GetUnknownRequestHeader cu w name =
     (let ent = IndexOf (wr_unk_req_header_index w) (ToLower (cu_lower cu) name)
      in if ent \<ge> 0 then Some (wr_unk_req_header_value w ! nat ent) else None)"

definition GetUnknownRequestHeaders :: "'w worker \<Rightarrow> (wstr \<times> wstr) list" where
  "GetUnknownRequestHeaders w = wr_unk_req_hdr_arr w"

definition GetBytesRead :: "'w worker \<Rightarrow> int" where "GetBytesRead w = wr_bytes_read w"
definition GetPreloadedEntityBody :: "'w worker \<Rightarrow> string option" where
  "GetPreloadedEntityBody w = wr_preread_body w"
definition IsEntireEntityBodyIsPreloaded :: "'w worker \<Rightarrow> bool" where
  "IsEntireEntityBodyIsPreloaded w = wr_seen_eos w"
definition IsClientConnected :: "'w worker \<Rightarrow> bool" where
  "IsClientConnected w = (c_aborted (r_connection (wr_rr w)) = 0)"
definition HeadersSent :: "'w worker \<Rightarrow> bool" where "HeadersSent w = wr_body_sent w"

section \<open>Paths\<close>

definition worker_LogRequestError ::
  "encodings \<Rightarrow> nstr \<Rightarrow> 32 word \<Rightarrow> apr_status_t \<Rightarrow> ('w worker, unit) meth" where
  "worker_LogRequestError en msg loglevel rv =
     obind (olift (LogRequestError en msg loglevel rv)) (\<lambda>e.
       omap (\<lambda>w. w\<lparr>wr_log := wr_log w @ [e]\<rparr>))"

definition worker_MapPath :: "culture \<Rightarrow> encodings \<Rightarrow> nstr \<Rightarrow> ('w worker, nstr) meth" where
  "worker_MapPath cu en path w =
     (case MapPath cu en (wr_host w) path of (r, log) \<Rightarrow> (r, w\<lparr>wr_log := wr_log w @ log\<rparr>))"

definition GetAppPath :: "'w worker \<Rightarrow> nstr" where "GetAppPath w = GetVirtualPath (wr_host w)"

definition GetAppPathTranslated :: "'w worker \<Rightarrow> exn + wstr" where
  "GetAppPathTranslated w =
     (case GetPhysicalPath (wr_host w) of None \<Rightarrow> Inl NullReference | Some d \<Rightarrow> Inr (d @ [backslash]))"

definition GetFilePath :: "culture \<Rightarrow> 'w worker \<Rightarrow> exn + wstr" where
  "GetFilePath cu w =
     (case GetPhysicalPath (wr_host w) of
        None \<Rightarrow> Inl ArgumentNull
      | Some strip \<Rightarrow>
          (let path = wr_filename w in
           if cu_starts_with cu path strip then
             (case Substring1 path (length strip) of
                Inl e \<Rightarrow> Inl e
              | Inr path \<Rightarrow>
                  (case GetVirtualPath (wr_host w) of
                     None \<Rightarrow> Inl ArgumentNull
                   | Some v \<Rightarrow> Inr (Replace (v @ path) backslash slash)))
           else Inr path))"

section \<open>Lemmas on the lists\<close>

lemma IndexOf_nonneg: "0 \<le> IndexOf xs x \<longleftrightarrow> x \<in> set xs"
  using IndexOf_neg [of xs x] by linarith

lemma IndexOf_map_of:
  "length xs = length ys \<Longrightarrow>
   (if IndexOf xs x \<ge> 0 then Some (ys ! nat (IndexOf xs x)) else None) = map_of (zip xs ys) x"
proof (induction xs ys rule: list_induct2)
  case (Cons a as b bs)
  have "nat (IndexOf as x + 1) = Suc (nat (IndexOf as x))" if "0 \<le> IndexOf as x" using that by linarith
  with Cons show ?case
    by (auto simp: Let_def IndexOf_nonneg split: if_splits)
qed simp

text \<open>The values of the headers with a known index, in order, and the headers with none.\<close>

definition header_index :: "culture \<Rightarrow> encodings \<Rightarrow> string \<Rightarrow> int" where
  "header_index cu en k = GetKnownRequestHeaderIndex (cu_lower cu) (en_ansi en k)"

definition known_values :: "culture \<Rightarrow> encodings \<Rightarrow> int \<Rightarrow> apr_table \<Rightarrow> wstr list" where
  "known_values cu en i hs = map (\<lambda>(k, v). en_ansi en v) (filter (\<lambda>(k, v). header_index cu en k = i) hs)"

definition unknown_headers :: "culture \<Rightarrow> encodings \<Rightarrow> apr_table \<Rightarrow> (wstr \<times> wstr) list" where
  "unknown_headers cu en hs =
     map (\<lambda>(k, v). (en_ansi en k, en_ansi en v)) (filter (\<lambda>(k, v). header_index cu en k < 0) hs)"

lemma known_values_simps [simp]:
  "known_values cu en i [] = []"
  "known_values cu en i ((k, v) # hs) =
     (if header_index cu en k = i then en_ansi en v # known_values cu en i hs else known_values cu en i hs)"
  by (simp_all add: known_values_def)

lemma unknown_headers_simps [simp]:
  "unknown_headers cu en [] = []"
  "unknown_headers cu en ((k, v) # hs) =
     (if header_index cu en k < 0 then (en_ansi en k, en_ansi en v) # unknown_headers cu en hs
      else unknown_headers cu en hs)"
  by (simp_all add: unknown_headers_def)

lemma add_header_cases:
  "add_header cu en (k, v) w =
     (if header_index cu en k \<ge> 0
      then w\<lparr>wr_request_headers_value := (wr_request_headers_value w)[nat (header_index cu en k) := Some (en_ansi en v)]\<rparr>
      else w\<lparr>wr_unk_req_header_name := wr_unk_req_header_name w @ [en_ansi en k],
             wr_unk_req_header_index := wr_unk_req_header_index w @ [ToLower (cu_lower cu) (en_ansi en k)],
             wr_unk_req_header_value := wr_unk_req_header_value w @ [en_ansi en v]\<rparr>)"
  by (simp add: add_header_def header_index_def GetKnownRequestHeaderIndex_def Let_def)

lemma add_headers_known:
  assumes "length (wr_request_headers_value w) = 40" "0 \<le> i" "i < 40"
  shows "length (wr_request_headers_value (fold (add_header cu en) hs w)) = 40 \<and>
         wr_request_headers_value (fold (add_header cu en) hs w) ! nat i =
           (if known_values cu en i hs = [] then wr_request_headers_value w ! nat i
            else Some (last (known_values cu en i hs)))"
  using assms
proof (induction hs arbitrary: w)
  case (Cons kv hs)
  obtain k v where kv: "kv = (k, v)" by fastforce
  have r: "header_index cu en k < 40" by (simp add: header_index_def GetKnownRequestHeaderIndex_range)
  let ?w = "add_header cu en (k, v) w"
  have "length (wr_request_headers_value ?w) = 40"
    using Cons.prems by (simp add: add_header_cases)
  note IH = Cons.IH [OF this Cons.prems(2,3)]
  have "wr_request_headers_value ?w ! nat i =
      (if header_index cu en k = i then Some (en_ansi en v) else wr_request_headers_value w ! nat i)"
    using Cons.prems r by (auto simp: add_header_cases nth_list_update nat_eq_iff)
  then show ?case using IH by (simp add: kv)
qed simp

lemma add_headers_unknown:
  "wr_unk_req_header_name (fold (add_header cu en) hs w) = wr_unk_req_header_name w @ map fst (unknown_headers cu en hs) \<and>
   wr_unk_req_header_index (fold (add_header cu en) hs w) =
     wr_unk_req_header_index w @ map (ToLower (cu_lower cu) \<circ> fst) (unknown_headers cu en hs) \<and>
   wr_unk_req_header_value (fold (add_header cu en) hs w) = wr_unk_req_header_value w @ map snd (unknown_headers cu en hs)"
proof (induction hs arbitrary: w)
  case (Cons kv hs)
  obtain k v where "kv = (k, v)" by fastforce
  then show ?case using Cons.IH [of "add_header cu en (k, v) w"] by (auto simp: add_header_cases)
qed simp

lemma add_env_fold:
  "wr_env_name (fold (add_env en) es w) = wr_env_name w @ map (en_ansi en \<circ> fst) es \<and>
   wr_env_value (fold (add_env en) es w) = wr_env_value w @ map (en_ansi en \<circ> snd) es \<and>
   wr_request_headers_value (fold (add_env en) es w) = wr_request_headers_value w \<and>
   wr_unk_req_header_index (fold (add_env en) es w) = wr_unk_req_header_index w \<and>
   wr_unk_req_header_value (fold (add_env en) es w) = wr_unk_req_header_value w \<and>
   wr_unk_req_hdr_arr (fold (add_env en) es w) = wr_unk_req_hdr_arr w \<and>
   wr_filename (fold (add_env en) es w) = wr_filename w \<and> wr_host (fold (add_env en) es w) = wr_host w \<and>
   wr_eosnCallback (fold (add_env en) es w) = wr_eosnCallback w"
  by (induction es arbitrary: w) (simp_all add: add_env_def)

lemma add_header_fold_env:
  "wr_env_name (fold (add_header cu en) hs w) = wr_env_name w \<and>
   wr_env_value (fold (add_header cu en) hs w) = wr_env_value w \<and>
   wr_filename (fold (add_header cu en) hs w) = wr_filename w \<and>
   wr_host (fold (add_header cu en) hs w) = wr_host w \<and>
   wr_eosnCallback (fold (add_header cu en) hs w) = wr_eosnCallback w"
proof (induction hs arbitrary: w)
  case (Cons kv hs)
  obtain k v where "kv = (k, v)" by fastforce
  then show ?case using Cons.IH [of "add_header cu en (k, v) w"] by (auto simp: add_header_cases)
qed simp

lemma new_worker_fields:
  fixes cu en rr h x
  defines "w \<equiv> new_worker cu en rr h x"
  shows "0 \<le> i \<Longrightarrow> i < 40 \<Longrightarrow> wr_request_headers_value w ! nat i =
           (if known_values cu en i (r_headers_in rr) = [] then None
            else Some (last (known_values cu en i (r_headers_in rr))))"
    and "wr_unk_req_hdr_arr w = unknown_headers cu en (r_headers_in rr)"
    and "wr_unk_req_header_index w = map (ToLower (cu_lower cu) \<circ> fst) (unknown_headers cu en (r_headers_in rr))"
    and "wr_unk_req_header_value w = map snd (unknown_headers cu en (r_headers_in rr))"
    and "wr_env_name w = map (en_ansi en \<circ> fst) (r_subprocess_env rr)"
    and "wr_env_value w = map (en_ansi en \<circ> snd) (r_subprocess_env rr)"
    and "wr_host w = h" and "wr_eosnCallback w = None"
    and "wr_filename w = Replace (case r_filename rr of None \<Rightarrow> [] | Some s \<Rightarrow> en_utf8_str en s) slash backslash"
  using add_headers_known [of "blank_worker en rr h x" i cu en "r_headers_in rr"]
    add_headers_unknown [of cu en "r_headers_in rr" "blank_worker en rr h x"]
    add_header_fold_env [of cu en "r_headers_in rr" "blank_worker en rr h x"]
  by (simp_all add: w_def new_worker_def Let_def add_env_fold blank_worker_def RequestHeaderMaximum_def zip_map_fst_snd)

lemma header_count:
  "length (unknown_headers cu en hs) + (\<Sum>i \<in> {0..<40}. length (known_values cu en i hs)) = length hs"
proof (induction hs)
  case (Cons kv hs)
  obtain k v where kv: "kv = (k, v)" by fastforce
  have r: "header_index cu en k < 40" "-1 \<le> header_index cu en k"
    by (simp_all add: header_index_def GetKnownRequestHeaderIndex_range)
  have "(\<Sum>i \<in> {0..<40}. length (known_values cu en i ((k, v) # hs))) =
        (\<Sum>i \<in> {0..<40}. (if i = header_index cu en k then 1 else 0) + length (known_values cu en i hs))"
    by (rule sum.cong) auto
  also have "\<dots> = (if header_index cu en k \<ge> 0 then 1 else 0) + (\<Sum>i \<in> {0..<40}. length (known_values cu en i hs))"
    using r by (simp add: sum.distrib)
  finally show ?case using Cons.IH by (simp add: kv)
qed simp

lemma foldl_append_concat: "foldl (\<lambda>res i. res @ f i) r is = r @ concat (map f is)"
  by (induction "is" arbitrary: r) simp_all

lemma foldl_add_sum: "foldl (\<lambda>n i. n + (f i) + (g i)) n is = n + sum_list (map (\<lambda>i. f i + g i) is)" for n :: nat
  by (induction "is" arbitrary: n) simp_all

definition var_entry :: "wstr \<times> wstr \<Rightarrow> wstr" where
  "var_entry nv = fst nv @ wL ''='' @ snd nv @ [0]"

lemma all_raw_concat:
  assumes "length (wr_env_value w) = length (wr_env_name w)"
  shows "all_raw w = concat (map var_entry (zip (wr_env_name w) (wr_env_value w))) @ [0]"
proof -
  have "map (\<lambda>i. wr_env_name w ! i @ wL ''='' @ wr_env_value w ! i @ [0]) [0..<length (wr_env_name w)] =
        map var_entry (zip (wr_env_name w) (wr_env_value w))"
    using assms by (intro nth_equalityI) (simp_all add: var_entry_def)
  then show ?thesis by (simp add: all_raw_def foldl_append_concat)
qed

text \<open>How a reader of the string takes it apart.\<close>

function parse_vars :: "wstr \<Rightarrow> (wstr \<times> wstr) list" where
  "parse_vars s =
     (let seg = takeWhile (\<lambda>c. c \<noteq> 0) s in
      if seg = [] then []
      else (takeWhile (\<lambda>c. c \<noteq> wc CHR ''='') seg, drop 1 (dropWhile (\<lambda>c. c \<noteq> wc CHR ''='') seg)) #
           parse_vars (drop 1 (dropWhile (\<lambda>c. c \<noteq> 0) s)))"
  by pat_completeness auto
termination
proof (relation "measure length", goal_cases)
  case (2 s seg)
  then have "s \<noteq> []" by auto
  then show ?case using length_dropWhile_le [of "\<lambda>c. c \<noteq> 0" s] by (cases s) auto
qed simp

declare parse_vars.simps [simp del]

lemma parse_vars_end [simp]: "parse_vars [0] = []"
  by (simp add: parse_vars.simps)

lemma while_split:
  "x \<notin> set a \<Longrightarrow> takeWhile (\<lambda>c. c \<noteq> x) (a @ x # b) = a"
  "x \<notin> set a \<Longrightarrow> dropWhile (\<lambda>c. c \<noteq> x) (a @ x # b) = x # b"
  by (induction a) auto

lemma parse_vars_entry:
  assumes "wc CHR ''='' \<notin> set n" "0 \<notin> set n" "0 \<notin> set v"
  shows "parse_vars (var_entry (n, v) @ s) = (n, v) # parse_vars s"
proof -
  let ?seg = "n @ wc CHR ''='' # v"
  have z: "0 \<noteq> wc CHR ''=''" by code_simp
  have tw: "takeWhile (\<lambda>c. c \<noteq> 0) (?seg @ 0 # s) = ?seg" "dropWhile (\<lambda>c. c \<noteq> 0) (?seg @ 0 # s) = 0 # s"
    using assms(2,3) z by (simp_all only: while_split set_append list.set Un_iff insert_iff not_False_eq_True de_Morgan_disj simp_thms)
  have eq: "takeWhile (\<lambda>c. c \<noteq> wc CHR ''='') ?seg = n" "dropWhile (\<lambda>c. c \<noteq> wc CHR ''='') ?seg = wc CHR ''='' # v"
    by (rule while_split(1) [OF assms(1)], rule while_split(2) [OF assms(1)])
  have "var_entry (n, v) @ s = ?seg @ 0 # s" by (simp add: var_entry_def wL_def)
  then show ?thesis using tw eq by (subst parse_vars.simps) (simp add: Let_def)
qed

lemma parse_vars_concat:
  assumes "\<forall>(n, v) \<in> set es. wc CHR ''='' \<notin> set n \<and> 0 \<notin> set n \<and> 0 \<notin> set v"
  shows "parse_vars (concat (map var_entry es) @ [0]) = es"
  using assms
proof (induction es)
  case (Cons e es)
  obtain n v where "e = (n, v)" by fastforce
  with Cons show ?case by (simp add: parse_vars_entry)
qed simp

text \<open>A request with two cookies, a host and two headers of its own, for the concrete instances.\<close>

definition sample_rr :: request_rec where
  "sample_rr = request_zero\<lparr>r_uri := Some ''/app/x.aspx'', r_filename := Some ''C:/sites/app/x.aspx'',
     r_headers_in := [(''Cookie'', ''a=1''), (''X-Id'', ''7''), (''HOST'', ''h''), (''cookie'', ''b=2''), (''x-id'', ''8'')],
     r_subprocess_env := [(''SERVER_NAME'', ''h''), (''A'', ''x=y'')]\<rparr>"

abbreviation sample_worker :: "unit worker" where
  "sample_worker \<equiv> new_worker ordinal_culture ascii_encodings sample_rr sample_host ()"

section \<open>Properties\<close>

text \<open>C12: how the constructor sorts the headers of a request: a header with a known name, in
  whatever case, goes to the slot of that name, where the last of several wins; every other
  header is kept under its own name, in the order of the request, and looked up by its first
  occurrence, in whatever case; each header of the request is in exactly one of the two.\<close>

theorem worker_headers:
  "(\<forall>i. GetKnownRequestHeader (new_worker cu en rr h x) i =
      (if 0 \<le> i \<and> i < 40 \<and> known_values cu en i (r_headers_in rr) \<noteq> []
       then Some (last (known_values cu en i (r_headers_in rr))) else None)) \<and>
   GetUnknownRequestHeaders (new_worker cu en rr h x) = unknown_headers cu en (r_headers_in rr) \<and>
   (\<forall>name. GetUnknownRequestHeader cu (new_worker cu en rr h x) name =
      map_of (map (\<lambda>(k, v). (ToLower (cu_lower cu) k, v)) (unknown_headers cu en (r_headers_in rr)))
        (ToLower (cu_lower cu) name)) \<and>
   length (unknown_headers cu en (r_headers_in rr)) +
     (\<Sum>i \<in> {0..<40}. length (known_values cu en i (r_headers_in rr))) = length (r_headers_in rr)"
proof (intro conjI allI)
  let ?w = "new_worker cu en rr h x" and ?u = "unknown_headers cu en (r_headers_in rr)"
  show "GetKnownRequestHeader ?w i =
      (if 0 \<le> i \<and> i < 40 \<and> known_values cu en i (r_headers_in rr) \<noteq> []
       then Some (last (known_values cu en i (r_headers_in rr))) else None)" for i
    using new_worker_fields(1) [of i cu en rr h x]
    by (simp add: GetKnownRequestHeader_def RequestHeaderMaximum_def)
  show "GetUnknownRequestHeaders ?w = ?u"
    by (simp add: GetUnknownRequestHeaders_def new_worker_fields)
  fix name
  have "zip (map (ToLower (cu_lower cu) \<circ> fst) ?u) (map snd ?u) = map (\<lambda>(k, v). (ToLower (cu_lower cu) k, v)) ?u"
    by (simp add: zip_map_map split_beta zip_same_conv_map)
  then show "GetUnknownRequestHeader cu ?w name =
      map_of (map (\<lambda>(k, v). (ToLower (cu_lower cu) k, v)) ?u) (ToLower (cu_lower cu) name)"
    using IndexOf_map_of [of "map (ToLower (cu_lower cu) \<circ> fst) ?u" "map snd ?u" "ToLower (cu_lower cu) name"]
    by (simp add: GetUnknownRequestHeader_def new_worker_fields Let_def cong: if_cong)
qed (rule header_count)

text \<open>C35: the server variables: \<open>ALL_RAW\<close> is exactly as long as the capacity computed for it and
  can be taken apart into the variables of the request again, if no name holds an equals
  sign or a NUL and no value a NUL; any other name gives the first variable of that name.\<close>

theorem server_variables:
  assumes "\<forall>(k, v) \<in> set (r_subprocess_env rr).
             wc CHR ''='' \<notin> set (en_ansi en k) \<and> 0 \<notin> set (en_ansi en k) \<and> 0 \<notin> set (en_ansi en v)"
  shows "(\<exists>s. GetServerVariable (new_worker cu en rr h x) (wL ''ALL_RAW'') = Some s \<and>
            length s = all_raw_size (new_worker cu en rr h x) \<and>
            parse_vars s = map (\<lambda>(k, v). (en_ansi en k, en_ansi en v)) (r_subprocess_env rr)) \<and>
         (\<forall>name. name \<noteq> wL ''ALL_RAW'' \<longrightarrow> GetServerVariable (new_worker cu en rr h x) name =
            map_of (map (\<lambda>(k, v). (en_ansi en k, en_ansi en v)) (r_subprocess_env rr)) name)"
proof -
  let ?w = "new_worker cu en rr h x"
  let ?es = "map (\<lambda>(k, v). (en_ansi en k, en_ansi en v)) (r_subprocess_env rr)"
  have len: "length (wr_env_value ?w) = length (wr_env_name ?w)" by (simp add: new_worker_fields)
  have z: "zip (wr_env_name ?w) (wr_env_value ?w) = ?es"
    by (simp add: new_worker_fields zip_map_map split_beta zip_same_conv_map)
  have raw: "all_raw ?w = concat (map var_entry ?es) @ [0]" using all_raw_concat [OF len] z by simp
  have "parse_vars (all_raw ?w) = ?es"
    unfolding raw by (rule parse_vars_concat) (use assms in auto)
  moreover have "length (all_raw ?w) = all_raw_size ?w"
    using foldl_append_concat [of "\<lambda>i. wr_env_name ?w ! i @ wL ''='' @ wr_env_value ?w ! i @ [0]" "[]"]
      foldl_add_sum [of "\<lambda>i. length (wr_env_name ?w ! i) + 1" "\<lambda>i. length (wr_env_value ?w ! i) + 1" 1]
    by (simp add: all_raw_def all_raw_size_def length_concat comp_def)
  moreover have "GetServerVariable ?w name = map_of ?es name" if "name \<noteq> wL ''ALL_RAW''" for name
    using that IndexOf_map_of [OF len [symmetric], of name] by (simp add: GetServerVariable_def z Let_def)
  ultimately show ?thesis by (simp add: GetServerVariable_def)
qed

theorem server_variables_witness:
  "\<exists>s. GetServerVariable sample_worker (wL ''ALL_RAW'') = Some s \<and>
     parse_vars s = [(wL ''SERVER_NAME'', wL ''h''), (wL ''A'', wL ''x=y'')]"
proof -
  have "\<forall>(k, v) \<in> set (r_subprocess_env sample_rr).
      wc CHR ''='' \<notin> set (en_ansi ascii_encodings k) \<and> 0 \<notin> set (en_ansi ascii_encodings k) \<and>
      0 \<notin> set (en_ansi ascii_encodings v)" by code_simp
  from server_variables [OF this, of ordinal_culture sample_host "()"] show ?thesis
    by (auto simp: sample_rr_def ascii_encodings_def)
qed

text \<open>\<open>GetFilePath\<close> and \<open>MapPath\<close> are inverse to each other on the files of the mount: the
  URI path computed for a file at or below the physical path is mapped back to that file.\<close>

theorem file_path_roundtrip:
  assumes "culture_plain cu" "utf8_nonempty en" "hs_virtualPath (wr_host w) = Some v" "hs_physicalPath (wr_host w) = Some d"
    "plain v" "plain d" "plain r" "backslash \<notin> set v" "slash \<notin> set r"
    "v = [] \<or> hd v = slash" "r = [] \<or> hd r = backslash" "wr_filename w = d @ r"
  shows "\<exists>p. GetFilePath cu w = Inr p \<and> p = v @ Replace r backslash slash \<and>
           MapPath cu en (wr_host w) (Some p) = (Inr (Some (wr_filename w)), [])"
proof -
  let ?p = "v @ Replace r backslash slash"
  have st: "cu_starts_with cu (d @ r) d"
    using culture_starts_withD [OF assms(1)] assms(6,7) by simp
  have rv: "Replace v backslash slash = v" using assms(8) by (rule Replace_idle)
  have bk: "Replace (Replace r backslash slash) slash backslash = r"
    using assms(9) by (induction r) (auto simp: Replace_def)
  have idem: "Replace ?p backslash slash = ?p"
    using Replace_not_in [of backslash slash r] assms(8) by (intro Replace_idle) simp
  have g: "GetFilePath cu w = Inr ?p"
    using st assms(3,4,12) rv
    by (simp add: GetFilePath_def GetPhysicalPath_def GetVirtualPath_def Substring1_def) (simp add: Replace_def)
  have "MapPath cu en (wr_host w) (Some ?p) = (Inr (Some (d @ r)), [])"
  proof (cases "?p = []")
    case True
    then have "r = []" by (simp add: Replace_def)
    with True assms(4) show ?thesis by (simp add: MapPath_def Replace_def)
  next
    case False
    then have "hd ?p = slash" using assms(10,11) by (cases v; cases r) (auto simp: Replace_def)
    moreover have "plain ?p" using assms(5,7) by (simp add: plain_Replace)
    ultimately show ?thesis
      using MapPath_absolute [OF assms(1-5) _ False] idem bk by simp
  qed
  with g assms(12) show ?thesis by simp
qed

theorem file_path_roundtrip_witness:
  "GetFilePath ordinal_culture sample_worker = Inr (wL ''/app/x.aspx'')"
proof -
  have h: "hs_virtualPath (wr_host sample_worker) = Some (wL ''/app'')"
    "hs_physicalPath (wr_host sample_worker) = Some (Replace (wL ''C:/sites/app'') slash backslash)"
    by (simp_all add: new_worker_fields sample_host_paths)
  have f: "wr_filename sample_worker = Replace (wL ''C:/sites/app'') slash backslash @ Replace (wL ''/x.aspx'') slash backslash"
    by (simp add: new_worker_fields sample_rr_def ascii_encodings_def) code_simp
  have p: "plain (Replace (wL ''C:/sites/app'') slash backslash)" "plain (Replace (wL ''/x.aspx'') slash backslash)"
    "backslash \<notin> set (wL ''/app'')" "slash \<notin> set (Replace (wL ''/x.aspx'') slash backslash)"
    "wL ''/app'' = [] \<or> hd (wL ''/app'') = slash"
    "Replace (wL ''/x.aspx'') slash backslash = [] \<or> hd (Replace (wL ''/x.aspx'') slash backslash) = backslash"
    by code_simp+
  have r: "wL ''/app'' @ Replace (Replace (wL ''/x.aspx'') slash backslash) backslash slash = wL ''/app/x.aspx''"
    by code_simp
  from file_path_roundtrip [OF culture_plain_ordinal utf8_nonempty_ascii h sample_plain p f] r show ?thesis by simp
qed

end
