(* ===== verification/Worker_Response.thy ===== *)
theory Worker_Response
  imports Worker_Request
begin

text \<open>
  The methods of the worker request that send: the status, the headers, the body from
  memory or from a file, the flush and the end of the request (\<open>Apache.Web/WorkerRequest.h\<close>
  and \<open>.cpp\<close>). What they call of httpd, of APR and of the framework are the fields of
  \<open>httpd_api\<close>, over the state \<open>'w\<close> behind the filters. A brigade passed to the output
  filters is the list of its buckets.
\<close>

section \<open>Buckets and the interface to httpd\<close>

datatype out_bucket =
    TransientBucket string
  | FileBucket ptr int int
  | FlushBucket
  | EosBucket

text \<open>
  \<open>ha_heap_tail\<close> is what lies in memory behind a managed array: the bytes native code reads
  when it goes past its end.
\<close>

record 'w httpd_api =
  ha_get_status_line :: "int \<Rightarrow> string"
  ha_set_content_type :: "string \<Rightarrow> request_rec \<Rightarrow> request_rec"
  ha_table_setn :: "apr_table \<Rightarrow> string \<Rightarrow> string \<Rightarrow> apr_table"
  ha_set_content_length :: "int \<Rightarrow> request_rec \<Rightarrow> request_rec"
  ha_pass_brigade :: "out_bucket list \<Rightarrow> 'w \<Rightarrow> apr_status_t \<times> 'w"
  ha_os_file_put :: "ptr \<Rightarrow> apr_status_t \<times> ptr"
  ha_file_info_get :: "ptr \<Rightarrow> 'w \<Rightarrow> apr_status_t \<times> int"
  ha_open_file :: "wstr \<Rightarrow> ('w, ptr) meth"
  ha_close_file :: "ptr \<Rightarrow> ('w, unit) meth"
  ha_invoke :: "nat \<Rightarrow> ('w, unit) meth"
  ha_heap_tail :: string

definition worker_world :: "('w, 'a) meth \<Rightarrow> ('w worker, 'a) meth" where
  "worker_world m w = (case m (wr_world w) of (r, x) \<Rightarrow> (r, w\<lparr>wr_world := x\<rparr>))"

definition upd_rr :: "(request_rec \<Rightarrow> request_rec) \<Rightarrow> ('w worker, unit) meth" where
  "upd_rr g = omap (\<lambda>w. w\<lparr>wr_rr := g (wr_rr w)\<rparr>)"

text \<open>\<open>GetBytes\<close> of a string, pinned at its first byte: null and empty strings throw.\<close>

definition pinned_bytes :: "encodings \<Rightarrow> nstr \<Rightarrow> exn + string" where
  "pinned_bytes en s = (case s of None \<Rightarrow> Inl ArgumentNull | Some v \<Rightarrow> pin_first (en_utf8 en v))"

section \<open>Status and headers\<close>

text \<open>
  The description is given to \<open>apr_pstrcat\<close> as a C string, but the array of its bytes has no
  NUL at the end: the copy goes on into the memory behind it.
\<close>

definition SendStatus :: "'w httpd_api \<Rightarrow> encodings \<Rightarrow> int \<Rightarrow> nstr \<Rightarrow> ('w worker, unit) meth" where
  "SendStatus api en statusCode statusDescription =
     obind (upd_rr (\<lambda>r. r\<lparr>r_status := statusCode\<rparr>)) (\<lambda>_.
       if statusDescription = None \<or> statusDescription = Some [] then
         upd_rr (\<lambda>r. r\<lparr>r_status_line := Some (ha_get_status_line api (r_status r))\<rparr>)
       else
         obind (olift (pinned_bytes en statusDescription)) (\<lambda>desc.
           upd_rr (\<lambda>r. r\<lparr>r_status_line :=
             Some (itoa (r_status r) @ '' '' @ c_str (desc @ ha_heap_tail api))\<rparr>)))"

text \<open>The copies for the header table are one byte longer and end with the NUL stored there.\<close>

definition pool_string :: "string \<Rightarrow> string" where
  "pool_string bytes = c_str (bytes @ [NUL])"

definition SendKnownResponseHeader ::
  "'w httpd_api \<Rightarrow> encodings \<Rightarrow> int \<Rightarrow> nstr \<Rightarrow> ('w worker, unit) meth" where
  "SendKnownResponseHeader api en index value =
     (if index \<ge> 0 \<and> index < int ResponseHeaderMaximum then
        obind (olift (pinned_bytes en value)) (\<lambda>cvalue.
          if index = HeaderContentType then upd_rr (ha_set_content_type api (pool_string cvalue))
          else upd_rr (\<lambda>r. r\<lparr>r_headers_out :=
                 ha_table_setn api (r_headers_out r) (response_headers_name_c ! nat index) (pool_string cvalue)\<rparr>))
      else oreturn ())"

definition SendUnknownResponseHeader ::
  "'w httpd_api \<Rightarrow> encodings \<Rightarrow> nstr \<Rightarrow> nstr \<Rightarrow> ('w worker, unit) meth" where
  "SendUnknownResponseHeader api en name value =
     obind (olift (pinned_bytes en name)) (\<lambda>cname.
     obind (olift (pinned_bytes en value)) (\<lambda>cvalue.
       upd_rr (\<lambda>r. r\<lparr>r_headers_out :=
         ha_table_setn api (r_headers_out r) (pool_string cname) (pool_string cvalue)\<rparr>)))"

definition SendCalculatedContentLength :: "'w httpd_api \<Rightarrow> int \<Rightarrow> ('w worker, unit) meth" where
  "SendCalculatedContentLength api contentLength = upd_rr (ha_set_content_length api contentLength)"

section \<open>The body\<close>

text \<open>An \<open>int\<close> or a file size given as an \<open>apr_size_t\<close>, which has 32 bits on Win32.\<close>

definition to_size :: "int \<Rightarrow> int" where "to_size n = n mod 2 ^ 32"

definition pass :: "'w httpd_api \<Rightarrow> out_bucket list \<Rightarrow> ('w worker, apr_status_t) meth" where
  "pass api bb w = (case ha_pass_brigade api bb (wr_world w) of (rv, x) \<Rightarrow> (Inr rv, w\<lparr>wr_world := x\<rparr>))"

definition InternalFlushResponse :: "'w httpd_api \<Rightarrow> ('w worker, apr_status_t) meth" where
  "InternalFlushResponse api = pass api [EosBucket]"

definition set_body_sent :: "('w worker, unit) meth" where
  "set_body_sent = omap (\<lambda>w. w\<lparr>wr_body_sent := True\<rparr>)"

text \<open>The end-of-send callback is called once, if there is one.\<close>

definition fire_callback :: "'w httpd_api \<Rightarrow> ('w worker, unit) meth" where
  "fire_callback api =
     obind (oget wr_eosnCallback) (\<lambda>cb.
       case cb of
         None \<Rightarrow> oreturn ()
       | Some c \<Rightarrow> obind (worker_world (ha_invoke api c)) (\<lambda>_. omap (\<lambda>w. w\<lparr>wr_eosnCallback := None\<rparr>)))"

definition FlushResponse :: "'w httpd_api \<Rightarrow> bool \<Rightarrow> ('w worker, unit) meth" where
  "FlushResponse api finalFlush =
     (if finalFlush then
        obind (InternalFlushResponse api) (\<lambda>_. obind set_body_sent (\<lambda>_. fire_callback api))
      else oreturn ())"

definition InternalResponseFromMemory :: "'w httpd_api \<Rightarrow> string \<Rightarrow> int \<Rightarrow> ('w worker, apr_status_t) meth" where
  "InternalResponseFromMemory api mem len =
     pass api [TransientBucket (take (nat (to_size len)) mem), FlushBucket]"

definition report_failure :: "encodings \<Rightarrow> string \<Rightarrow> apr_status_t \<Rightarrow> ('w worker, unit) meth" where
  "report_failure en msg rv =
     (if rv \<noteq> APR_SUCCESS then worker_LogRequestError en (Some (wL msg)) APLOG_WARNING rv else oreturn ())"

text \<open>\<open>mem\<close> is the memory from the pointer on.\<close>

definition SendResponseFromMemory_ptr :: "'w httpd_api \<Rightarrow> encodings \<Rightarrow> string \<Rightarrow> int \<Rightarrow> ('w worker, unit) meth" where
  "SendResponseFromMemory_ptr api en mem len =
     (if len = 0 then oreturn ()
      else
        obind (InternalResponseFromMemory api mem len) (\<lambda>rv.
        obind set_body_sent (\<lambda>_.
        report_failure en ''SendResponseFromMemory: failure'' rv)))"

definition SendResponseFromMemory :: "'w httpd_api \<Rightarrow> encodings \<Rightarrow> string \<Rightarrow> int \<Rightarrow> ('w worker, unit) meth" where
  "SendResponseFromMemory api en data len =
     (if len = 0 then oreturn ()
      else
        obind (olift (pin_first data)) (\<lambda>buf.
        SendResponseFromMemory_ptr api en (buf @ ha_heap_tail api) len))"

text \<open>
  A large file is sent as several buckets on the same handle, because a bucket's length is
  an \<open>apr_size_t\<close>: copies of \<open>AP_MAX_SENDFILE\<close> bytes while more than that is left, and the
  last one with the rest.
\<close>

function split_file :: "ptr \<Rightarrow> int \<Rightarrow> int \<Rightarrow> out_bucket list" where
  "split_file fd start fsize =
     (if fsize > AP_MAX_SENDFILE
      then FileBucket fd start AP_MAX_SENDFILE # split_file fd (start + AP_MAX_SENDFILE) (fsize - AP_MAX_SENDFILE)
      else [FileBucket fd start (to_size fsize)])"
  by pat_completeness auto
termination
  by (relation "measure (\<lambda>(fd, start, fsize). nat fsize)") (auto simp: AP_MAX_SENDFILE_def)

declare split_file.simps [simp del]

definition file_buckets :: "int \<Rightarrow> ptr \<Rightarrow> int \<Rightarrow> int \<Rightarrow> out_bucket list" where
  "file_buckets finfo_size fd offset fsize =
     (if finfo_size > AP_MAX_SENDFILE then split_file fd offset fsize
      else [FileBucket fd offset (to_size fsize)]) @ [FlushBucket]"

definition InternalResponseFromFile :: "'w httpd_api \<Rightarrow> ptr \<Rightarrow> int \<Rightarrow> int \<Rightarrow> ('w worker, apr_status_t) meth" where
  "InternalResponseFromFile api hv offset len =
     (let (rv, fd) = ha_os_file_put api hv in
      if rv \<noteq> APR_SUCCESS then oreturn rv
      else
        obind (oget wr_world) (\<lambda>x.
        let (rv, fsize) = (if len \<noteq> 0 then (APR_SUCCESS, len)
                           else (case ha_file_info_get api fd x of (rv, sz) \<Rightarrow> (rv, sz - offset)))
        in if rv \<noteq> APR_SUCCESS then oreturn rv
           else
             obind (oget (\<lambda>w. fi_size (r_finfo (wr_rr w)))) (\<lambda>finfo_size.
             pass api (file_buckets finfo_size fd offset fsize))))"

definition SendResponseFromFile_handle ::
  "'w httpd_api \<Rightarrow> encodings \<Rightarrow> ptr \<Rightarrow> int \<Rightarrow> int \<Rightarrow> ('w worker, unit) meth" where
  "SendResponseFromFile_handle api en handle offset len =
     (if len = 0 then oreturn ()
      else
        obind (InternalResponseFromFile api handle offset len) (\<lambda>rv.
        obind set_body_sent (\<lambda>_.
        report_failure en ''SendResponseFromFile: failure'' rv)))"

definition SendResponseFromFile ::
  "'w httpd_api \<Rightarrow> encodings \<Rightarrow> wstr \<Rightarrow> int \<Rightarrow> int \<Rightarrow> ('w worker, unit) meth" where
  "SendResponseFromFile api en fname offset len =
     (if len = 0 then oreturn ()
      else
        obind (worker_world (ha_open_file api fname)) (\<lambda>handle.
        obind (SendResponseFromFile_handle api en handle offset len) (\<lambda>_.
        worker_world (ha_close_file api handle))))"

section \<open>The end of a request\<close>

text \<open>\<open>SetEndOfSendNotification\<close> does nothing in a release build: the callback is not stored.\<close>

definition SetEndOfSendNotification :: "nat \<Rightarrow> ('w worker, unit) meth" where
  "SetEndOfSendNotification cb = oreturn ()"

definition EndOfRequest :: "'w httpd_api \<Rightarrow> ('w worker, unit) meth" where
  "EndOfRequest api =
     obind (fire_callback api) (\<lambda>_.
     obind (oget wr_wait_complete) (\<lambda>ev.
       if ev = None then othrow NullReference
       else omap (\<lambda>w. w\<lparr>wr_wait_complete := Some True\<rparr>)))"

definition CloseConnection :: "('w worker, unit) meth" where
  "CloseConnection = oreturn ()"

section \<open>Lemmas\<close>

text \<open>The values of a header in a table, and what \<open>apr_table_setn\<close> is documented to do.\<close>

definition table_values :: "apr_table \<Rightarrow> string \<Rightarrow> string list" where
  "table_values t k = map snd (filter (\<lambda>(k', v). strcasecmp_eq k' k) t)"

definition setn_overwrites :: "(apr_table \<Rightarrow> string \<Rightarrow> string \<Rightarrow> apr_table) \<Rightarrow> bool" where
  "setn_overwrites setn \<longleftrightarrow>
     (\<forall>t k v k'. table_values (setn t k v) k' = (if strcasecmp_eq k k' then [v] else table_values t k'))"

text \<open>An interface for the concrete instances: a table that overwrites, filters that succeed.\<close>

definition sample_setn :: "apr_table \<Rightarrow> string \<Rightarrow> string \<Rightarrow> apr_table" where
  "sample_setn t k v = filter (\<lambda>(k', _). \<not> strcasecmp_eq k' k) t @ [(k, v)]"

lemma sample_setn_overwrites: "setn_overwrites sample_setn"
proof -
  have "filter (\<lambda>(k', v). strcasecmp_eq k' k'') (filter (\<lambda>(k', _). \<not> strcasecmp_eq k' k) t) =
        (if strcasecmp_eq k k'' then [] else filter (\<lambda>(k', v). strcasecmp_eq k' k'') t)" for t :: apr_table and k k''
    by (auto simp: filter_filter strcasecmp_eq_iff split_beta intro!: filter_cong)
  then show ?thesis by (simp add: setn_overwrites_def table_values_def sample_setn_def)
qed

definition sample_api :: "string \<Rightarrow> 'w httpd_api" where
  "sample_api tail = \<lparr>ha_get_status_line = (\<lambda>n. itoa n @ '' Unknown''), ha_set_content_type = (\<lambda>t r. r\<lparr>r_content_type := Some t\<rparr>),
     ha_table_setn = sample_setn, ha_set_content_length = (\<lambda>n r. r\<lparr>r_clength := n\<rparr>),
     ha_pass_brigade = (\<lambda>bb x. (APR_SUCCESS, x)), ha_os_file_put = (\<lambda>p. (APR_SUCCESS, p)),
     ha_file_info_get = (\<lambda>p x. (APR_SUCCESS, 0)), ha_open_file = (\<lambda>n. oreturn (Some 1)),
     ha_close_file = (\<lambda>p. oreturn ()), ha_invoke = (\<lambda>c. oreturn ()), ha_heap_tail = tail\<rparr>"

lemma pinned_bytes_Some:
  "pinned_bytes en (Some v) = (if en_utf8 en v = [] then Inl IndexOutOfRange else Inr (en_utf8 en v))"
  by (simp add: pinned_bytes_def pin_first_def)

lemma SendKnown_run:
  assumes "0 \<le> i" "i < 30" "i \<noteq> HeaderContentType" "en_utf8 en v \<noteq> []"
  shows "SendKnownResponseHeader api en i (Some v) w =
           (Inr (), w\<lparr>wr_rr := (wr_rr w)\<lparr>r_headers_out :=
              ha_table_setn api (r_headers_out (wr_rr w)) (response_headers_m ! nat i) (c_str (en_utf8 en v))\<rparr>\<rparr>)"
  using assms
  by (simp add: SendKnownResponseHeader_def ResponseHeaderMaximum_def pinned_bytes_Some obind_def upd_rr_def
      response_headers_name_c_def pool_string_def)

text \<open>The file buckets of a list that cover a range, one after the other.\<close>

fun file_range :: "ptr \<Rightarrow> out_bucket list \<Rightarrow> int \<Rightarrow> int \<Rightarrow> bool" where
  "file_range fd [] a b = (a = b)"
| "file_range fd (FileBucket f s l # bs) a b =
     (f = fd \<and> s = a \<and> 0 < l \<and> l \<le> AP_MAX_SENDFILE \<and> file_range fd bs (a + l) b)"
| "file_range fd _ a b = False"

lemma split_file_range: "0 < fsize \<Longrightarrow> file_range fd (split_file fd start fsize) start (start + fsize)"
proof (induction fd start fsize rule: split_file.induct)
  case (1 fd start fsize)
  show ?case
  proof (cases "fsize > AP_MAX_SENDFILE")
    case True
    then show ?thesis
      using 1 by (subst split_file.simps) (simp add: AP_MAX_SENDFILE_def)
  next
    case False
    then have "to_size fsize = fsize"
      using 1(2) by (simp add: to_size_def AP_MAX_SENDFILE_def)
    with False 1(2) show ?thesis by (subst split_file.simps) (simp add: AP_MAX_SENDFILE_def)
  qed
qed

lemma length_split_file:
  "0 < fsize \<Longrightarrow> int (length (split_file fd start fsize)) = (fsize + AP_MAX_SENDFILE - 1) div AP_MAX_SENDFILE"
proof (induction fd start fsize rule: split_file.induct)
  case (1 fd start fsize)
  show ?case
  proof (cases "fsize > AP_MAX_SENDFILE")
    case True
    then have "(fsize + AP_MAX_SENDFILE - 1) div AP_MAX_SENDFILE =
        1 + (fsize - AP_MAX_SENDFILE + AP_MAX_SENDFILE - 1) div AP_MAX_SENDFILE"
      by (simp add: AP_MAX_SENDFILE_def)
    with True 1 show ?thesis by (subst split_file.simps) (simp add: AP_MAX_SENDFILE_def)
  next
    case False
    with 1(2) show ?thesis by (subst split_file.simps) (simp add: AP_MAX_SENDFILE_def)
  qed
qed

section \<open>Properties\<close>

text \<open>What \<open>SendStatus\<close> makes of a description: the code in decimal, which fits the buffer of
  12 bytes, a blank, the UTF-8 bytes of the description and then the bytes that lie in memory
  behind the array, up to the next NUL; the line is the description's own exactly when that
  memory begins with a NUL.\<close>

theorem send_status_line:
  assumes "utf8_nonempty en" "desc \<noteq> []" "NUL \<notin> set (en_utf8 en desc)" "- (2 ^ 31) \<le> code" "code < 2 ^ 31"
  shows "\<exists>line. SendStatus api en code (Some desc) w =
             (Inr (), w\<lparr>wr_rr := (wr_rr w)\<lparr>r_status := code, r_status_line := Some line\<rparr>\<rparr>) \<and>
           line = itoa code @ '' '' @ en_utf8 en desc @ c_str (ha_heap_tail api) \<and>
           length (itoa code) + 1 \<le> 12 \<and>
           (line = itoa code @ '' '' @ en_utf8 en desc \<longleftrightarrow>
              ha_heap_tail api = [] \<or> hd (ha_heap_tail api) = NUL)"
proof -
  have ne: "en_utf8 en desc \<noteq> []" using assms(1,2) by (simp add: utf8_nonempty_def)
  have c: "c_str (en_utf8 en desc @ t) = en_utf8 en desc @ c_str t" for t
    using assms(3) by (rule c_str_append)
  have t: "c_str t = [] \<longleftrightarrow> t = [] \<or> hd t = NUL" for t
    by (cases t) (auto simp: c_str_def)
  show ?thesis
    using ne assms(2) length_itoa [OF assms(4,5)]
    by (simp add: SendStatus_def upd_rr_def pinned_bytes_Some obind_def c t)
qed

theorem send_status_line_witness:
  "\<exists>w'. SendStatus (sample_api ''xyz'') ascii_encodings 404 (Some (wL ''Gone'')) sample_worker = (Inr (), w') \<and>
     r_status_line (wr_rr w') = Some ''404 Gonexyz''"
proof -
  have d: "wL ''Gone'' \<noteq> []" "NUL \<notin> set (en_utf8 ascii_encodings (wL ''Gone''))"
      "en_utf8 ascii_encodings (wL ''Gone'') = ''Gone''" "itoa 404 = ''404''" "c_str ''xyz'' = ''xyz''"
    by code_simp+
  from send_status_line [OF utf8_nonempty_ascii d(1,2), of 404 "sample_api ''xyz''" sample_worker] d(3-5)
  show ?thesis by (auto simp: sample_api_def)
qed

text \<open>a response header that occurs twice, as \<open>Set-Cookie\<close> does in a response with two
  cookies, is not sent twice: the second replaces the first in the table of httpd, and every
  other header keeps its values.\<close>

theorem repeated_response_header:
  assumes "setn_overwrites (ha_table_setn api)" "0 \<le> i" "i < 30" "i \<noteq> HeaderContentType"
    "en_utf8 en v1 \<noteq> []" "en_utf8 en v2 \<noteq> []"
  shows "\<exists>w'. obind (SendKnownResponseHeader api en i (Some v1)) (\<lambda>_. SendKnownResponseHeader api en i (Some v2)) w = (Inr (), w') \<and>
           table_values (r_headers_out (wr_rr w')) (response_headers_m ! nat i) = [c_str (en_utf8 en v2)] \<and>
           (\<forall>k. \<not> strcasecmp_eq (response_headers_m ! nat i) k \<longrightarrow>
              table_values (r_headers_out (wr_rr w')) k = table_values (r_headers_out (wr_rr w)) k)"
  using SendKnown_run [OF assms(2-4), of en v1 api] SendKnown_run [OF assms(2-4), of en v2 api] assms(1,5,6)
  by (simp add: obind_def setn_overwrites_def strcasecmp_eq_iff)

theorem repeated_response_header_witness:
  "\<exists>w'. obind (SendKnownResponseHeader (sample_api []) ascii_encodings 27 (Some (wL ''a=1'')))
      (\<lambda>_. SendKnownResponseHeader (sample_api []) ascii_encodings 27 (Some (wL ''b=2''))) sample_worker = (Inr (), w') \<and>
     table_values (r_headers_out (wr_rr w')) ''Set-Cookie'' = [''b=2'']"
proof -
  have e: "en_utf8 ascii_encodings (wL ''a=1'') \<noteq> []" "en_utf8 ascii_encodings (wL ''b=2'') \<noteq> []"
    "c_str (en_utf8 ascii_encodings (wL ''b=2'')) = ''b=2''" "response_headers_m ! nat 27 = ''Set-Cookie''"
    "(27::int) \<noteq> HeaderContentType" by code_simp+
  have "setn_overwrites (ha_table_setn (sample_api []))" by (simp add: sample_api_def sample_setn_overwrites)
  from repeated_response_header [OF this _ _ e(5) e(1,2), of sample_worker] e(3,4)
  show ?thesis by auto
qed

text \<open>A header whose value is empty, or whose bytes are none, cannot be sent: both methods
  throw at the first byte of the empty array and leave the request as it was; an index out
  of range is ignored.\<close>

theorem empty_header_value:
  "(0 \<le> i \<and> i < 30 \<and> en_utf8 en [] = [] \<longrightarrow>
      SendKnownResponseHeader api en i (Some []) w = (Inl IndexOutOfRange, w)) \<and>
   (en_utf8 en [] = [] \<and> en_utf8 en name \<noteq> [] \<longrightarrow>
      SendUnknownResponseHeader api en (Some name) (Some []) w = (Inl IndexOutOfRange, w)) \<and>
   (\<not> (0 \<le> i \<and> i < 30) \<longrightarrow> SendKnownResponseHeader api en i value w = (Inr (), w))"
  by (auto simp: SendKnownResponseHeader_def SendUnknownResponseHeader_def ResponseHeaderMaximum_def
      pinned_bytes_Some obind_def)

theorem empty_header_value_witness:
  "SendKnownResponseHeader (sample_api []) ascii_encodings 26 (Some []) sample_worker = (Inl IndexOutOfRange, sample_worker)"
proof -
  have "en_utf8 ascii_encodings [] = []" by code_simp
  with empty_header_value [of 26 ascii_encodings "sample_api []" sample_worker] show ?thesis by simp
qed

text \<open>The bytes the file buckets of a list deliver, each as its file and its place in it.\<close>

fun file_bytes :: "out_bucket list \<Rightarrow> (ptr \<times> int) list" where
  "file_bytes [] = []"
| "file_bytes (FileBucket fd s l # bs) = map (Pair fd) [s..s + l - 1] @ file_bytes bs"
| "file_bytes (_ # bs) = file_bytes bs"

lemma file_bytes_range: "file_range fd bs a b \<Longrightarrow> a \<le> b \<and> file_bytes bs = map (Pair fd) [a..b - 1]"
proof (induction fd bs a b rule: file_range.induct)
  case (2 fd f s l bs a b)
  then have "[a..b - 1] = [a..a + l - 1] @ [a + l..b - 1]" using upto_split2 [of a "a + l - 1" "b - 1"] by simp
  with 2 show ?case by simp
qed simp_all

lemma file_bytes_flush [simp]: "file_bytes (bs @ [FlushBucket]) = file_bytes bs"
  by (induction bs rule: file_bytes.induct) simp_all

text \<open>C33: the range of a response from a file: when the request's own file is large, the range is split into
  buckets in order, without gap or overlap, each of at least one byte and at most
  \<open>AP_MAX_SENDFILE\<close>, and as few as that allows; when it is not, the range is one bucket, whose
  length is cut to 32 bits. So what is sent is the range asked for, byte by byte, exactly
  if the request's own file is large or the range is shorter than 4 GB: the code tests the size of
  the wrong file. The flush is last.\<close>

theorem file_buckets_exact:
  assumes "0 < fsize"
  shows "\<exists>bs. file_buckets finfo_size fd offset fsize = bs @ [FlushBucket] \<and>
    (finfo_size > AP_MAX_SENDFILE \<longrightarrow> file_range fd bs offset (offset + fsize) \<and>
       int (length bs) = (fsize + AP_MAX_SENDFILE - 1) div AP_MAX_SENDFILE) \<and>
    (finfo_size \<le> AP_MAX_SENDFILE \<longrightarrow> bs = [FileBucket fd offset (fsize mod 2 ^ 32)]) \<and>
    (file_bytes bs = map (Pair fd) [offset..offset + fsize - 1] \<longleftrightarrow> finfo_size > AP_MAX_SENDFILE \<or> fsize < 2 ^ 32)"
proof (cases "finfo_size > AP_MAX_SENDFILE")
  case True
  with split_file_range [OF assms, of fd offset] length_split_file [OF assms, of fd offset]
    file_bytes_range [OF split_file_range [OF assms]]
  show ?thesis by (simp add: file_buckets_def)
next
  case False
  let ?bs = "[FileBucket fd offset (fsize mod 2 ^ 32)]"
  have "file_bytes ?bs = map (Pair fd) [offset..offset + fsize - 1] \<longleftrightarrow> fsize < 2 ^ 32"
  proof
    assume "file_bytes ?bs = map (Pair fd) [offset..offset + fsize - 1]"
    from arg_cong [OF this, of length] have "nat (fsize mod 2 ^ 32) = nat fsize" by simp
    with assms have "fsize mod 2 ^ 32 = fsize" by simp
    then show "fsize < 2 ^ 32" by (metis pos_mod_bound zero_less_numeral zero_less_power)
  next
    assume "fsize < 2 ^ 32"
    with assms have "fsize mod 2 ^ 32 = fsize" by simp
    then show "file_bytes ?bs = map (Pair fd) [offset..offset + fsize - 1]" by (simp only: file_bytes.simps append_Nil2)
  qed
  moreover have "file_buckets finfo_size fd offset fsize = ?bs @ [FlushBucket]"
    using False by (simp add: file_buckets_def to_size_def)
  ultimately show ?thesis using False by blast
qed

text \<open>Four gigabytes and five bytes: whole for a large resource, five bytes for a small one.\<close>

theorem file_buckets_exact_witness:
  "file_bytes (file_buckets (2 ^ 32) (Some 1) 10 (2 ^ 32 + 5)) = map (Pair (Some 1)) [10..10 + (2 ^ 32 + 5) - 1] \<and>
   file_buckets 0 (Some 1) 10 (2 ^ 32 + 5) = [FileBucket (Some 1) 10 5, FlushBucket]"
proof -
  have big: "(2 :: int) ^ 32 > AP_MAX_SENDFILE" "(0 :: int) \<le> AP_MAX_SENDFILE" "\<not> (0 :: int) > AP_MAX_SENDFILE"
    by (simp_all add: AP_MAX_SENDFILE_def)
  have pos: "(0 :: int) < 2 ^ 32 + 5" by simp
  from file_buckets_exact [OF pos, of "2 ^ 32" "Some 1" 10] big(1)
  have "file_bytes (file_buckets (2 ^ 32) (Some 1) 10 (2 ^ 32 + 5)) = map (Pair (Some 1)) [10..10 + (2 ^ 32 + 5) - 1]"
    by (elim exE conjE) (simp only: file_bytes_flush simp_thms)
  moreover from file_buckets_exact [OF pos, of 0 "Some 1" 10] big(2)
  obtain bs where "file_buckets 0 (Some 1) 10 (2 ^ 32 + 5) = bs @ [FlushBucket]"
      "bs = [FileBucket (Some 1) 10 ((2 ^ 32 + 5) mod 2 ^ 32)]" by blast
  then have "file_buckets 0 (Some 1) 10 (2 ^ 32 + 5) = [FileBucket (Some 1) 10 5, FlushBucket]" by simp
  ultimately show ?thesis by blast
qed

end
