(* ===== verification/Worker_Input.thy ===== *)
theory Worker_Input
  imports Worker_Request
begin

text \<open>
  Reading the entity body (\<open>InternalReadEntityBody\<close> and \<open>ReadEntityBody\<close> of
  \<open>Apache.Web/WorkerRequest.cpp\<close>). The input filters are a function over the state \<open>'w\<close>
  behind them. The buffer is memory of a fixed length; a copy past its end is an outcome of
  its own, because the native code would do it. A run that does not end is \<open>None\<close>.
\<close>

section \<open>Buckets and memory\<close>

text \<open>
  A bucket of an input brigade: the end of the stream, a flush, or data; \<open>InData rv s\<close> is a
  bucket on which \<open>apr_bucket_read\<close> returns \<open>rv\<close> and leaves the bytes \<open>s\<close> in \<open>data\<close> and \<open>len\<close>.
\<close>

datatype in_bucket =
    InEos
  | InFlush
  | InData apr_status_t string

type_synonym 'w get_brigade = "nat \<Rightarrow> 'w \<Rightarrow> apr_status_t \<times> in_bucket list \<times> 'w"

text \<open>How a read stops early: with a status, with a copy past the end of the buffer, or with an exception.\<close>

datatype read_stop =
    Failed apr_status_t
  | BufferOverrun
  | Thrown exn

text \<open>A number cut to the range of a 32-bit \<open>int\<close>, and one given as an \<open>apr_size_t\<close> on Win32.\<close>

definition to_int32 :: "int \<Rightarrow> int" where
  "to_int32 n = (n + 2 ^ 31) mod 2 ^ 32 - 2 ^ 31"

definition to_size_t :: "int \<Rightarrow> nat" where
  "to_size_t n = nat (n mod 2 ^ 32)"

lemma to_int32_id: "- (2 ^ 31) \<le> n \<Longrightarrow> n < 2 ^ 31 \<Longrightarrow> to_int32 n = n"
  by (simp add: to_int32_def)

lemma to_size_t_id: "0 \<le> n \<Longrightarrow> n < 2 ^ 32 \<Longrightarrow> to_size_t n = nat n"
  by (simp add: to_size_t_def)

text \<open>
  The parameters and locals of \<open>InternalReadEntityBody\<close>: the buffer with the position of
  \<open>curptr\<close> in it, \<open>size\<close>, the counters and the flag it sets through pointers, and the state
  behind the filters.
\<close>

record 'w reader =
  rd_buf :: string
  rd_pos :: nat
  rd_size :: nat
  rd_bytes_read :: int
  rd_overflow :: int
  rd_eos :: bool
  rd_world :: 'w

definition memcpy :: "string \<Rightarrow> ('w reader, read_stop, unit) run" where
  "memcpy bytes r =
     (if rd_pos r + length bytes \<le> length (rd_buf r)
      then (Inr (), r\<lparr>rd_buf := take (rd_pos r) (rd_buf r) @ bytes @ drop (rd_pos r + length bytes) (rd_buf r)\<rparr>)
      else (Inl BufferOverrun, r))"

section \<open>InternalReadEntityBody\<close>

text \<open>What is done with the bytes of one bucket.\<close>

definition take_bytes :: "string \<Rightarrow> ('w reader, read_stop, unit) run" where
  "take_bytes data =
     obind (oget rd_size) (\<lambda>size.
     let len = (if length data > size then size else length data) in
     obind (if length data > size
            then omap (\<lambda>r. r\<lparr>rd_overflow := to_int32 (rd_overflow r + int (length data - size))\<rparr>)
            else oreturn ()) (\<lambda>_.
     if size \<noteq> 0 then
       obind (memcpy (take len data)) (\<lambda>_.
       omap (\<lambda>r. r\<lparr>rd_bytes_read := to_int32 (rd_bytes_read r + int len),
                   rd_pos := rd_pos r + len, rd_size := size - len\<rparr>))
     else oreturn ()))"

fun drain :: "in_bucket list \<Rightarrow> ('w reader, read_stop, unit) run" where
  "drain [] = oreturn ()"
| "drain (InEos # bb) = omap (\<lambda>r. r\<lparr>rd_eos := True\<rparr>)"
| "drain (InFlush # bb) = drain bb"
| "drain (InData rv data # bb) =
     (if rv \<noteq> APR_SUCCESS then othrow (Failed rv)
      else obind (take_bytes data) (\<lambda>_. drain bb))"

definition fetch :: "'w get_brigade \<Rightarrow> ('w reader, read_stop, in_bucket list) run" where
  "fetch get r =
     (let size_one = (if HUGE_STRING_LEN \<le> rd_size r then HUGE_STRING_LEN else rd_size r) in
      case get size_one (rd_world r) of (rv, bb, x) \<Rightarrow>
        (if rv \<noteq> APR_SUCCESS then (Inl (Failed rv), r\<lparr>rd_world := x\<rparr>) else (Inr bb, r\<lparr>rd_world := x\<rparr>)))"

text \<open>The loop runs its body at least once, whatever \<open>seen_eos\<close> is before.\<close>

partial_function (option) read_loop :: "'w get_brigade \<Rightarrow> 'w reader \<Rightarrow> ((read_stop + unit) \<times> 'w reader) option" where
  "read_loop get r =
     (case obind (fetch get) drain r of
        (Inl e, r') \<Rightarrow> Some (Inl e, r')
      | (Inr _, r') \<Rightarrow> if \<not> rd_eos r' \<and> rd_size r' > 0 then read_loop get r' else Some (Inr (), r'))"

definition InternalReadEntityBody ::
  "'w get_brigade \<Rightarrow> string \<Rightarrow> nat \<Rightarrow> bool \<Rightarrow> 'w \<Rightarrow> ((read_stop + unit) \<times> 'w reader) option" where
  "InternalReadEntityBody get buf sz seen_eos x =
     read_loop get \<lparr>rd_buf = buf, rd_pos = 0, rd_size = sz, rd_bytes_read = 0, rd_overflow = 0,
                    rd_eos = seen_eos, rd_world = x\<rparr>"

section \<open>ReadEntityBody\<close>

text \<open>A managed call inside of a run that may also stop for other reasons.\<close>

definition managed :: "('s, 'a) meth \<Rightarrow> ('s, read_stop, 'a) run" where
  "managed m s = (case m s of (Inl e, s') \<Rightarrow> (Inl (Thrown e), s') | (Inr a, s') \<Rightarrow> (Inr a, s'))"

definition read_log :: "encodings \<Rightarrow> string \<Rightarrow> apr_status_t \<Rightarrow> bool \<Rightarrow> ('w worker, read_stop, unit) run" where
  "read_log en msg rv cond =
     (if cond then managed (worker_LogRequestError en (Some (wL msg)) APLOG_ERR rv) else oreturn ())"

text \<open>
  The result is the value returned or how the call stopped, the contents of the buffer
  afterwards and the worker request.
\<close>

definition ReadEntityBody ::
  "'w get_brigade \<Rightarrow> encodings \<Rightarrow> string option \<Rightarrow> int \<Rightarrow> 'w worker \<Rightarrow>
     ((read_stop + int) \<times> string option \<times> 'w worker) option" where
  "ReadEntityBody get en buffer sz w =
     (case buffer of
        None \<Rightarrow> Some (Inl (Thrown NullReference), None, w)
      | Some buf \<Rightarrow>
          (if length buf < 1 then Some (Inr 0, buffer, w)
           else
             (case InternalReadEntityBody get buf (to_size_t sz) (wr_seen_eos w) (wr_world w) of
                None \<Rightarrow> None
              | Some (res, r) \<Rightarrow>
                  (let w = w\<lparr>wr_seen_eos := rd_eos r, wr_world := rd_world r\<rparr> in
                   case res of
                     Inl BufferOverrun \<Rightarrow> Some (Inl BufferOverrun, Some (rd_buf r), w)
                   | Inl (Thrown e) \<Rightarrow> Some (Inl (Thrown e), Some (rd_buf r), w)
                   | _ \<Rightarrow>
                       (let rv = (case res of Inl (Failed rv) \<Rightarrow> rv | _ \<Rightarrow> APR_SUCCESS);
                            w = w\<lparr>wr_bytes_read := wr_bytes_read w + rd_bytes_read r\<rparr> in
                        case obind (read_log en ''ReadEntityBody: brigade read failure reading the request body'' rv (rv \<noteq> APR_SUCCESS)) (\<lambda>_.
                             obind (read_log en ''ReadEntityBody: brigade read overflow reading the request body'' rv (rd_overflow r \<noteq> 0)) (\<lambda>_.
                             oreturn (rd_bytes_read r))) w of
                          (out, w') \<Rightarrow> Some (out, Some (rd_buf r), w'))))))"

section \<open>What the filters promise\<close>

text \<open>The bytes of a brigade up to the end of the stream, and whether every bucket can be read.\<close>

fun bb_data :: "in_bucket list \<Rightarrow> string" where
  "bb_data [] = []"
| "bb_data (InEos # bb) = []"
| "bb_data (InFlush # bb) = bb_data bb"
| "bb_data (InData rv s # bb) = s @ bb_data bb"

fun readable :: "in_bucket list \<Rightarrow> bool" where
  "readable [] = True"
| "readable (InData rv s # bb) = (rv = APR_SUCCESS \<and> readable bb)"
| "readable (_ # bb) = readable bb"

text \<open>
  What httpd documents of a blocking read of at most \<open>n\<close> bytes (\<open>ap_get_brigade\<close> with
  \<open>AP_MODE_READBYTES\<close> and \<open>APR_BLOCK_READ\<close>): a success delivers the next bytes of the body,
  at most \<open>n\<close>, and none of them only when there is nothing left to get. An end-of-stream bucket
  says that the body is at its end, but nothing promises one: a success may be an empty brigade.
  \<open>remaining\<close> is the part of the body not yet delivered.
\<close>

definition body_filter :: "'w get_brigade \<Rightarrow> ('w \<Rightarrow> string) \<Rightarrow> bool" where
  "body_filter get remaining \<longleftrightarrow>
     (\<forall>n x bb x'. 0 < n \<and> get n x = (APR_SUCCESS, bb, x') \<longrightarrow>
        readable bb \<and> remaining x = bb_data bb @ remaining x' \<and> length (bb_data bb) \<le> n \<and>
        (bb_data bb = [] \<longrightarrow> remaining x = []) \<and> (InEos \<in> set bb \<longrightarrow> remaining x' = []))"

lemma body_filterD:
  assumes "body_filter get remaining" "0 < n" "get n x = (APR_SUCCESS, bb, x')"
  shows "readable bb" "remaining x = bb_data bb @ remaining x'" "length (bb_data bb) \<le> n"
    "bb_data bb = [] \<Longrightarrow> remaining x = []" "InEos \<in> set bb \<Longrightarrow> remaining x' = []"
  using assms unfolding body_filter_def by blast+

text \<open>
  Filters that answer every read of \<open>n\<close> bytes from now on with a success that holds no data and does
  not end the stream: the empty brigades of a filter with nothing left to get are of this kind.
\<close>

coinductive starves :: "'w get_brigade \<Rightarrow> nat \<Rightarrow> 'w \<Rightarrow> bool" for get :: "'w get_brigade" and n :: nat where
  "get n x = (APR_SUCCESS, bb, x') \<Longrightarrow> readable bb \<Longrightarrow> bb_data bb = [] \<Longrightarrow> InEos \<notin> set bb \<Longrightarrow>
   starves get n x' \<Longrightarrow> starves get n x"

text \<open>A filter for the concrete instances: it delivers the body from memory, three bytes at a time.\<close>

definition sample_get :: "string get_brigade" where
  "sample_get n x = (let m = min n 3 in
     (APR_SUCCESS, (if x = [] then [] else [InFlush, InData APR_SUCCESS (take m x)]) @
        (if length x \<le> m then [InEos] else []), drop m x))"

lemma sample_get_filter: "body_filter sample_get (\<lambda>x. x)"
  by (auto simp: body_filter_def sample_get_def Let_def)

section \<open>The loop keeps inside of the buffer\<close>

text \<open>The reader after the bytes \<open>got\<close> have been put into the buffer \<open>buf\<close> by a call for \<open>sz\<close> bytes.\<close>

definition reading :: "string \<Rightarrow> nat \<Rightarrow> string \<Rightarrow> 'w reader \<Rightarrow> bool" where
  "reading buf sz got r \<longleftrightarrow>
     rd_buf r = got @ drop (length got) buf \<and> rd_pos r = length got \<and> length got \<le> sz \<and>
     rd_size r = sz - length got \<and> rd_bytes_read r = int (length got) \<and> rd_overflow r = 0"

lemma take_bytes_ok:
  assumes "reading buf sz got r" "sz \<le> length buf" "length buf < 2 ^ 31" "length s \<le> rd_size r"
  shows "\<exists>r'. take_bytes s r = (Inr (), r') \<and> reading buf sz (got @ s) r' \<and>
           rd_eos r' = rd_eos r \<and> rd_world r' = rd_world r"
proof (cases "rd_size r = 0")
  case True
  then show ?thesis using assms(1,4) by (simp add: take_bytes_def)
next
  case False
  have len: "length got + length s \<le> length buf" "int (length got) + int (length s) < 2 ^ 31"
    using assms by (auto simp: reading_def)
  have r: "rd_buf r = got @ drop (length got) buf" "rd_pos r = length got" "rd_size r = sz - length got"
      "rd_bytes_read r = int (length got)" "rd_overflow r = 0" "length got \<le> sz"
    using assms(1) by (simp_all add: reading_def)
  have i: "to_int32 (int (length got) + int (length s)) = int (length got) + int (length s)"
    by (rule to_int32_id) (use len(2) in auto)
  have "take_bytes s r = (Inr (), r\<lparr>rd_buf := got @ s @ drop (length got + length s) buf,
      rd_bytes_read := int (length got) + int (length s), rd_pos := length got + length s,
      rd_size := sz - length got - length s\<rparr>)"
    using False assms(2,4) len(1) r i
    by (simp add: take_bytes_def memcpy_def obind_def Let_def add.commute [of "length s" "length got"])
  then show ?thesis using assms(4) r by (simp add: reading_def)
qed

lemma drain_ok:
  assumes "reading buf sz got r" "sz \<le> length buf" "length buf < 2 ^ 31"
    "readable bb" "length (bb_data bb) \<le> rd_size r"
  shows "\<exists>r'. drain bb r = (Inr (), r') \<and> reading buf sz (got @ bb_data bb) r' \<and>
           rd_eos r' = (rd_eos r \<or> InEos \<in> set bb) \<and> rd_world r' = rd_world r"
  using assms
proof (induction bb arbitrary: r got rule: drain.induct)
  case (2 bb r)
  then show ?case by (simp add: reading_def)
next
  case (4 rv s bb r)
  note p = "4.prems"
  have ok: "rv = APR_SUCCESS" "readable bb" "length s \<le> rd_size r" using p(4,5) by simp_all
  from take_bytes_ok [OF p(1-3) ok(3)] obtain r1 where r1:
      "take_bytes s r = (Inr (), r1)" "reading buf sz (got @ s) r1" "rd_eos r1 = rd_eos r" "rd_world r1 = rd_world r"
    by blast
  have "length (bb_data bb) \<le> rd_size r1"
    using r1(2) p(1,5) by (simp add: reading_def)
  from "4.IH" [OF _ r1(2) p(2,3) ok(2) this] ok(1) r1 show ?case by (auto simp: obind_def)
qed simp_all

text \<open>One turn of the loop: a failure of the filters, or the data of a brigade behind what is there.\<close>

lemma read_loop_cases:
  assumes "body_filter get remaining" "sz \<le> length buf" "length buf < 2 ^ 31" "reading buf sz got r" "0 < rd_size r"
  obtains (failed) rv x where "rv \<noteq> APR_SUCCESS" "obind (fetch get) drain r = (Inl (Failed rv), r\<lparr>rd_world := x\<rparr>)"
  | (turn) bb r1 where "get (min HUGE_STRING_LEN (rd_size r)) (rd_world r) = (APR_SUCCESS, bb, rd_world r1)"
    "obind (fetch get) drain r = (Inr (), r1)"
    "reading buf sz (got @ bb_data bb) r1" "rd_eos r1 \<longleftrightarrow> rd_eos r \<or> InEos \<in> set bb" "readable bb"
    "remaining (rd_world r) = bb_data bb @ remaining (rd_world r1)"
    "bb_data bb = [] \<Longrightarrow> remaining (rd_world r) = []" "InEos \<in> set bb \<Longrightarrow> remaining (rd_world r1) = []"
proof -
  let ?n = "min HUGE_STRING_LEN (rd_size r)"
  have n: "0 < ?n" "?n \<le> rd_size r" using assms(5) by (simp_all add: HUGE_STRING_LEN_def)
  obtain rv bb x where g: "get ?n (rd_world r) = (rv, bb, x)" by (metis prod_cases3)
  have f: "fetch get r = (if rv \<noteq> APR_SUCCESS then (Inl (Failed rv), r\<lparr>rd_world := x\<rparr>) else (Inr bb, r\<lparr>rd_world := x\<rparr>))"
    using g by (simp add: fetch_def Let_def min_def split: if_splits)
  show thesis
  proof (cases "rv = APR_SUCCESS")
    case False
    with f have "obind (fetch get) drain r = (Inl (Failed rv), r\<lparr>rd_world := x\<rparr>)" by (simp add: obind_def)
    with False failed show thesis by blast
  next
    case True
    note d = body_filterD [OF assms(1) n(1) g [unfolded True]]
    have "reading buf sz got (r\<lparr>rd_world := x\<rparr>)" "length (bb_data bb) \<le> rd_size (r\<lparr>rd_world := x\<rparr>)"
      using assms(4) d(3) n(2) by (simp_all add: reading_def)
    from drain_ok [OF this(1) assms(2,3) d(1) this(2)] obtain r1 where
      r1: "drain bb (r\<lparr>rd_world := x\<rparr>) = (Inr (), r1)" "reading buf sz (got @ bb_data bb) r1"
        "rd_eos r1 = (rd_eos r \<or> InEos \<in> set bb)" "rd_world r1 = x" by auto
    have t: "obind (fetch get) drain r = (Inr (), r1)" using f r1(1) True by (simp add: obind_def)
    with turn [of bb r1] g True r1 d t show thesis by simp
  qed
qed

lemma read_loop_turn:
  "obind (fetch get) drain r = (Inr (), r1) \<Longrightarrow>
   read_loop get r = (if \<not> rd_eos r1 \<and> 0 < rd_size r1 then read_loop get r1 else Some (Inr (), r1))"
  by (subst read_loop.simps) simp

lemma read_loop_stop: "obind (fetch get) drain r = (Inl e, r1) \<Longrightarrow> read_loop get r = Some (Inl e, r1)"
  by (subst read_loop.simps) simp

text \<open>What the loop leaves when it ends: the bytes \<open>s\<close> behind those that were there.\<close>

definition loop_left :: "('w \<Rightarrow> string) \<Rightarrow> 'w reader \<Rightarrow> string \<Rightarrow> (read_stop + unit) \<times> 'w reader \<Rightarrow> bool" where
  "loop_left remaining r s y \<longleftrightarrow>
     (fst y = Inr () \<and> remaining (rd_world r) = s @ remaining (rd_world (snd y)) \<and>
        (rd_size (snd y) = 0 \<or> rd_eos (snd y)) \<and>
        (rd_eos (snd y) \<longrightarrow> rd_eos r \<or> remaining (rd_world (snd y)) = []) \<or>
      (\<exists>rv rest. rv \<noteq> APR_SUCCESS \<and> fst y = Inl (Failed rv) \<and> remaining (rd_world r) = s @ rest))"

lemma read_loop_result:
  assumes "read_loop get r = Some y" "body_filter get remaining" "sz \<le> length buf" "length buf < 2 ^ 31"
    and "reading buf sz got r" "0 < rd_size r"
  shows "\<exists>s. reading buf sz (got @ s) (snd y) \<and> loop_left remaining r s y"
  using assms
proof (induction arbitrary: got rule: read_loop.raw_induct [rotated, consumes 1, case_names step])
  case (step loop get' r y)
  from step.prems show ?case
  proof (cases rule: read_loop_cases)
    case (failed rv x)
    with step.hyps have "y = (Inl (Failed rv), r\<lparr>rd_world := x\<rparr>)" by simp
    with failed(1) step.prems(4) show ?thesis by (intro exI [of _ "[]"]) (auto simp: loop_left_def reading_def)
  next
    case (turn bb r1)
    show ?thesis
    proof (cases "\<not> rd_eos r1 \<and> 0 < rd_size r1")
      case False
      with step.hyps turn(2) have "y = (Inr (), r1)" by (simp split: if_splits)
      with turn False show ?thesis by (intro exI [of _ "bb_data bb"]) (auto simp: loop_left_def)
    next
      case True
      with step.hyps turn(2) have "loop get' r1 = Some y" by simp
      from step.IH [OF this step.prems(1-3) turn(3)] True obtain s where
        "reading buf sz (got @ bb_data bb @ s) (snd y)" "loop_left remaining r1 s y" by auto
      with turn(6) True turn(4) show ?thesis by (intro exI [of _ "bb_data bb @ s"]) (auto simp: loop_left_def)
    qed
  qed
qed

text \<open>A loop that finds nothing left and does not end: the filters go on delivering nothing.\<close>

lemma read_loop_dry:
  assumes "body_filter get remaining" "sz \<le> length buf" "length buf < 2 ^ 31"
    and "reading buf sz got r" "0 < rd_size r" "remaining (rd_world r) = []" "read_loop get r = None"
  shows "starves get (min HUGE_STRING_LEN (rd_size r)) (rd_world r)"
proof -
  define n where "n = rd_size r"
  have "\<exists>r. x = rd_world r \<and> reading buf sz got r \<and> rd_size r = n \<and> remaining (rd_world r) = [] \<and> read_loop get r = None
      \<Longrightarrow> starves get (min HUGE_STRING_LEN n) x" for x
  proof (coinduction arbitrary: x)
    case (starves x)
    then obtain r where r: "x = rd_world r" "reading buf sz got r" "rd_size r = n" "remaining (rd_world r) = []"
        "read_loop get r = None" by blast
    have "0 < rd_size r" using r(3) assms(5) by (simp add: n_def)
    with assms(1-3) r(2) show ?case
    proof (cases rule: read_loop_cases)
      case (failed rv x)
      with r(5) show ?thesis by (simp add: read_loop_stop)
    next
      case (turn bb r1)
      have "bb_data bb = []" "remaining (rd_world r1) = []" using turn(6) r(4) by simp_all
      moreover have c: "\<not> rd_eos r1" "read_loop get r1 = None"
        using r(5) read_loop_turn [OF turn(2)] by (auto split: if_splits)
      moreover have "rd_size r1 = n" using turn(3) r(2,3) \<open>bb_data bb = []\<close> by (simp add: reading_def)
      ultimately show ?thesis using turn r(1,3) by auto
    qed
  qed
  with assms(4-7) show ?thesis unfolding n_def by blast
qed

lemma read_loop_endless:
  assumes "body_filter get remaining" "sz \<le> length buf" "length buf < 2 ^ 31"
  shows "reading buf sz got r \<Longrightarrow> 0 < rd_size r \<Longrightarrow> read_loop get r = None \<Longrightarrow>
    \<not> rd_eos r \<and> length (remaining (rd_world r)) < rd_size r \<and>
    (\<exists>x. remaining x = [] \<and> starves get (min HUGE_STRING_LEN (rd_size r - length (remaining (rd_world r)))) x)"
proof (induction "rd_size r" arbitrary: r got rule: less_induct)
  case less
  from assms less(2,3) show ?case
  proof (cases rule: read_loop_cases)
    case (failed rv x)
    with less(4) show ?thesis by (simp add: read_loop_stop)
  next
    case (turn bb r1)
    have c: "\<not> rd_eos r1" "0 < rd_size r1" "read_loop get r1 = None" "\<not> rd_eos r"
      using less(4) read_loop_turn [OF turn(2)] turn(4) by (auto split: if_splits)
    show ?thesis
    proof (cases "bb_data bb = []")
      case True
      with turn(7) read_loop_dry [OF assms less(2,3) _ less(4)] less(3) c(4) show ?thesis by auto
    next
      case False
      have "rd_size r1 = sz - (length got + length (bb_data bb))" "rd_size r = sz - length got"
        using turn(3) less(2) by (simp_all add: reading_def)
      moreover have "0 < length (bb_data bb)" using False by simp
      ultimately have l: "rd_size r1 < rd_size r" "rd_size r = rd_size r1 + length (bb_data bb)" using c(2) by linarith+
      from less(1) [OF l(1) turn(3) c(2,3)] turn(6) l(2) c(4) show ?thesis by auto
    qed
  qed
qed

text \<open>Filters that starve the reader keep it in the loop.\<close>

lemma read_loop_starved:
  assumes "read_loop get r = Some y" "sz \<le> length buf" "length buf < 2 ^ 31"
    and "reading buf sz got r" "0 < rd_size r" "\<not> rd_eos r"
  shows "\<not> starves get (min HUGE_STRING_LEN (rd_size r)) (rd_world r)"
  using assms
proof (induction rule: read_loop.raw_induct [rotated, consumes 1, case_names step])
  case (step loop get' r y)
  show ?case
  proof
    assume "starves get' (min HUGE_STRING_LEN (rd_size r)) (rd_world r)"
    then obtain bb x where g: "get' (min HUGE_STRING_LEN (rd_size r)) (rd_world r) = (APR_SUCCESS, bb, x)" "readable bb"
        "bb_data bb = []" "InEos \<notin> set bb" "starves get' (min HUGE_STRING_LEN (rd_size r)) x"
      by (auto elim: starves.cases)
    have f: "fetch get' r = (Inr bb, r\<lparr>rd_world := x\<rparr>)"
      using g(1) by (simp add: fetch_def Let_def min_def split: if_splits)
    have "reading buf sz got (r\<lparr>rd_world := x\<rparr>)" using step.prems(3) by (simp add: reading_def)
    from drain_ok [OF this step.prems(1,2) g(2)] g(3,4) obtain r1 where r1: "drain bb (r\<lparr>rd_world := x\<rparr>) = (Inr (), r1)"
        "reading buf sz got r1" "rd_eos r1 = rd_eos r" "rd_world r1 = x" by auto
    have "rd_size r1 = rd_size r" using r1(2) step.prems(3) by (simp add: reading_def)
    moreover from this have "loop get' r1 = Some y" using step.hyps f r1 step.prems(4,5) by (simp add: obind_def)
    ultimately show False using step.IH [of get' r1 y] r1 g(5) step.prems by simp
  qed
qed

lemma read_log_ok:
  "utf8_nonempty en \<Longrightarrow> msg \<noteq> [] \<Longrightarrow>
   read_log en msg rv cond w =
     (Inr (), if cond then w\<lparr>wr_log := wr_log w @ [LOG (log_word APLOG_ERR rv) rv ''mod_aspdotnet: %s'']\<rparr> else w)"
  using LogRequestError_ok [of en "wL msg" APLOG_ERR rv]
  by (auto simp: read_log_def managed_def worker_LogRequestError_def obind_def wL_def)

text \<open>What a call of \<open>ReadEntityBody\<close> leaves: the bytes \<open>got\<close> in front of the buffer, and either
  no entry in the log, or one for the status with which the filters failed.\<close>

definition read_outcome ::
  "('w \<Rightarrow> string) \<Rightarrow> 'w worker \<Rightarrow> int \<Rightarrow> string \<Rightarrow> 'w worker \<Rightarrow> bool" where
  "read_outcome remaining w sz got w' \<longleftrightarrow>
     wr_bytes_read w' = wr_bytes_read w + int (length got) \<and>
     (wr_log w' = wr_log w \<and> remaining (wr_world w) = got @ remaining (wr_world w') \<and>
        (int (length got) = sz \<or> wr_seen_eos w') \<and>
        (wr_seen_eos w' \<longrightarrow> wr_seen_eos w \<or> remaining (wr_world w') = []) \<or>
      (\<exists>rv. rv \<noteq> APR_SUCCESS \<and> wr_log w' = wr_log w @ [LOG (log_word APLOG_ERR rv) rv ''mod_aspdotnet: %s'']) \<and>
        (\<exists>rest. remaining (wr_world w) = got @ rest))"

text \<open>When a call does not return: the rest of the body is shorter than asked for, and the filters, with
  nothing left to get, never say that it is at its end.\<close>

definition read_endless :: "'w get_brigade \<Rightarrow> ('w \<Rightarrow> string) \<Rightarrow> 'w worker \<Rightarrow> int \<Rightarrow> bool" where
  "read_endless get remaining w sz \<longleftrightarrow>
     \<not> wr_seen_eos w \<and> int (length (remaining (wr_world w))) < sz \<and>
     (\<exists>x. remaining x = [] \<and> starves get (min HUGE_STRING_LEN (nat sz - length (remaining (wr_world w)))) x)"

text \<open>The reader at the start of a call.\<close>

definition call_reader :: "string \<Rightarrow> int \<Rightarrow> 'w worker \<Rightarrow> 'w reader" where
  "call_reader buf sz w = \<lparr>rd_buf = buf, rd_pos = 0, rd_size = nat sz, rd_bytes_read = 0, rd_overflow = 0,
     rd_eos = wr_seen_eos w, rd_world = wr_world w\<rparr>"

lemma call_reader_ok:
  assumes "0 < sz" "sz \<le> int (length buf)" "length buf < 2 ^ 31"
  shows "reading buf (nat sz) [] (call_reader buf sz w)" "0 < rd_size (call_reader buf sz w)" "nat sz \<le> length buf"
    "InternalReadEntityBody get buf (to_size_t sz) (wr_seen_eos w) (wr_world w) = read_loop get (call_reader buf sz w)"
    "\<not> length buf < 1"
  using assms by (auto simp: reading_def call_reader_def InternalReadEntityBody_def to_size_t_id)

lemma ReadEntityBody_endless:
  assumes "0 < sz" "sz \<le> int (length buf)" "length buf < 2 ^ 31"
  shows "ReadEntityBody get en (Some buf) sz w = None \<longleftrightarrow> read_loop get (call_reader buf sz w) = None"
  unfolding call_reader_ok(4) [OF assms, of get w, symmetric]
  using call_reader_ok(5) [OF assms]
  by (auto simp: ReadEntityBody_def Let_def split: option.split sum.split read_stop.split prod.split)

lemma ReadEntityBody_ok:
  assumes "body_filter get remaining" "utf8_nonempty en" "0 < sz" "sz \<le> int (length buf)" "length buf < 2 ^ 31"
  shows "(\<exists>got w'. ReadEntityBody get en (Some buf) sz w =
             Some (Inr (int (length got)), Some (got @ drop (length got) buf), w') \<and>
           int (length got) \<le> sz \<and> read_outcome remaining w sz got w') \<or>
         ReadEntityBody get en (Some buf) sz w = None \<and> read_endless get remaining w sz"
proof (cases "read_loop get (call_reader buf sz w)")
  case None
  note r = call_reader_ok [OF assms(3-5)]
  have "ReadEntityBody get en (Some buf) sz w = None" using None ReadEntityBody_endless [OF assms(3-5)] by blast
  moreover have "read_endless get remaining w sz"
    using read_loop_endless [OF assms(1) r(3) assms(5) r(1,2) None] by (auto simp: read_endless_def call_reader_def)
  ultimately show ?thesis by blast
next
  case (Some y)
  note r = call_reader_ok [OF assms(3-5)]
  from read_loop_result [OF Some assms(1) r(3) assms(5) r(1,2)] obtain s where
    L: "reading buf (nat sz) s (snd y)" "loop_left remaining (call_reader buf sz w) s y" by auto
  have "rd_buf (snd y) = s @ drop (length s) buf" "rd_bytes_read (snd y) = int (length s)" "rd_overflow (snd y) = 0"
      "int (length s) \<le> sz" "rd_size (snd y) = 0 \<Longrightarrow> int (length s) = sz"
    using L(1) assms(3) by (auto simp: reading_def)
  with L(2) Some r(4) [of get w] r(5) have "\<exists>w'. ReadEntityBody get en (Some buf) sz w =
      Some (Inr (int (length s)), Some (s @ drop (length s) buf), w') \<and> int (length s) \<le> sz \<and> read_outcome remaining w sz s w'"
    by (cases y) (auto simp: loop_left_def ReadEntityBody_def Let_def read_log_ok [OF assms(2)] obind_def read_outcome_def
        call_reader_def)
  then show ?thesis by blast
qed

section \<open>A sequence of reads\<close>

text \<open>The bytes a client collects from calls with given buffers and sizes, one after the other.\<close>

fun read_calls :: "'w get_brigade \<Rightarrow> encodings \<Rightarrow> (string \<times> int) list \<Rightarrow> 'w worker \<Rightarrow> (string \<times> 'w worker) option" where
  "read_calls get en [] w = Some ([], w)"
| "read_calls get en ((buf, sz) # calls) w =
     (case ReadEntityBody get en (Some buf) sz w of
        Some (Inr n, Some b, w') \<Rightarrow> map_option (\<lambda>(s, w''). (take (nat n) b @ s, w'')) (read_calls get en calls w')
      | _ \<Rightarrow> None)"

definition fair_call :: "string \<times> int \<Rightarrow> bool" where
  "fair_call c \<longleftrightarrow> 0 < snd c \<and> snd c \<le> int (length (fst c)) \<and> length (fst c) < 2 ^ 31"

text \<open>Some read below never gets an answer with data or an end.\<close>

definition never_ends :: "'w get_brigade \<Rightarrow> ('w \<Rightarrow> string) \<Rightarrow> bool" where
  "never_ends get remaining \<longleftrightarrow> (\<exists>n x. 0 < n \<and> remaining x = [] \<and> starves get n x)"

lemma read_endless_never: "read_endless get remaining w sz \<Longrightarrow> never_ends get remaining"
  unfolding read_endless_def never_ends_def
proof (elim conjE exE)
  fix x assume "int (length (remaining (wr_world w))) < sz" "remaining x = []"
    "starves get (min HUGE_STRING_LEN (nat sz - length (remaining (wr_world w)))) x"
  moreover from this(1) have "0 < min HUGE_STRING_LEN (nat sz - length (remaining (wr_world w)))"
    by (simp add: HUGE_STRING_LEN_def)
  ultimately show "\<exists>n x. 0 < n \<and> remaining x = [] \<and> starves get n x" by blast
qed

text \<open>Every sequence of fair calls returns and the log is extended, or one of them is endless.\<close>

lemma read_calls_result:
  assumes "body_filter get remaining" "utf8_nonempty en" "list_all fair_call calls"
  shows "(\<exists>s w' l. read_calls get en calls w = Some (s, w') \<and> wr_log w' = wr_log w @ l \<and>
      wr_bytes_read w' = wr_bytes_read w + int (length s) \<and>
      ((wr_seen_eos w \<longrightarrow> remaining (wr_world w) = []) \<longrightarrow> l = [] \<longrightarrow>
        remaining (wr_world w) = s @ remaining (wr_world w') \<and> (wr_seen_eos w' \<longrightarrow> remaining (wr_world w') = []))) \<or>
    read_calls get en calls w = None \<and> never_ends get remaining"
  using assms(3)
proof (induction calls arbitrary: w)
  case (Cons c calls)
  obtain buf sz where c: "c = (buf, sz)" by fastforce
  with Cons.prems have f: "0 < sz" "sz \<le> int (length buf)" "length buf < 2 ^ 31" by (simp_all add: fair_call_def)
  from ReadEntityBody_ok [OF assms(1,2) f, of w] show ?case
  proof (elim disjE exE conjE)
    fix got w1 assume g: "ReadEntityBody get en (Some buf) sz w =
        Some (Inr (int (length got)), Some (got @ drop (length got) buf), w1)" "read_outcome remaining w sz got w1"
    from g(2) obtain l1 where l1: "wr_log w1 = wr_log w @ l1" "wr_bytes_read w1 = wr_bytes_read w + int (length got)"
        "l1 = [] \<longrightarrow> remaining (wr_world w) = got @ remaining (wr_world w1) \<and>
          (wr_seen_eos w1 \<longrightarrow> wr_seen_eos w \<or> remaining (wr_world w1) = [])"
      by (auto simp: read_outcome_def)
    from Cons.prems have "list_all fair_call calls" by simp
    from Cons.IH [OF this, of w1] show ?thesis
    proof (elim disjE exE conjE)
      fix s w' l
      assume "read_calls get en calls w1 = Some (s, w')" "wr_log w' = wr_log w1 @ l"
        "wr_bytes_read w' = wr_bytes_read w1 + int (length s)"
        "(wr_seen_eos w1 \<longrightarrow> remaining (wr_world w1) = []) \<longrightarrow> l = [] \<longrightarrow>
          remaining (wr_world w1) = s @ remaining (wr_world w') \<and> (wr_seen_eos w' \<longrightarrow> remaining (wr_world w') = [])"
      with g l1 c show ?thesis
        by (intro disjI1 exI [of _ "got @ s"] exI [of _ w'] exI [of _ "l1 @ l"]) auto
    qed (use g(1) c in simp_all)
  qed (use c in \<open>auto dest: read_endless_never\<close>)
qed simp

lemma sample_get_ends: "\<not> never_ends sample_get (\<lambda>x. x)"
proof -
  have "\<not> starves sample_get n []" for n
    by (rule notI, erule starves.cases) (auto simp: sample_get_def)
  then show ?thesis by (auto simp: never_ends_def)
qed

definition sample_input :: "string \<Rightarrow> string worker" where
  "sample_input body = blank_worker ascii_encodings sample_rr sample_host body"

section \<open>Properties\<close>



text \<open>C28: filters that do what \<open>ap_get_brigade\<close> is documented to do, and leave the brigade empty when there
  is nothing left to get, keep a read at the end of the body in its loop for ever, if no end of the
  stream was seen before: the loop leaves only on an end-of-stream bucket, a failure or a full buffer.
  It returns exactly when some later answer is one of the first two.\<close>

theorem drained_read_spins:
  assumes "body_filter get remaining" "0 < sz" "sz \<le> int (length buf)" "length buf < 2 ^ 31"
    "remaining (wr_world w) = []" "\<not> wr_seen_eos w"
  shows "(ReadEntityBody get en (Some buf) sz w = None \<longleftrightarrow> starves get (min HUGE_STRING_LEN (nat sz)) (wr_world w)) \<and>
    ((\<forall>n. get n (wr_world w) = (APR_SUCCESS, [], wr_world w)) \<longrightarrow> ReadEntityBody get en (Some buf) sz w = None)"
proof -
  note r = call_reader_ok [OF assms(2-4)]
  have c: "rd_size (call_reader buf sz w) = nat sz" "rd_world (call_reader buf sz w) = wr_world w"
      "\<not> rd_eos (call_reader buf sz w)" using assms(6) by (simp_all add: call_reader_def)
  have e: "ReadEntityBody get en (Some buf) sz w = None \<longleftrightarrow> starves get (min HUGE_STRING_LEN (nat sz)) (wr_world w)"
  proof
    assume "ReadEntityBody get en (Some buf) sz w = None"
    then have "read_loop get (call_reader buf sz w) = None" using ReadEntityBody_endless [OF assms(2-4)] by blast
    from read_loop_dry [OF assms(1) r(3) assms(4) r(1,2) _ this] c assms(5)
    show "starves get (min HUGE_STRING_LEN (nat sz)) (wr_world w)" by simp
  next
    assume "starves get (min HUGE_STRING_LEN (nat sz)) (wr_world w)"
    with read_loop_starved [OF _ r(3) assms(4) r(1,2) c(3)] c
    have "read_loop get (call_reader buf sz w) = None" by (metis not_Some_eq)
    then show "ReadEntityBody get en (Some buf) sz w = None" using ReadEntityBody_endless [OF assms(2-4)] by blast
  qed
  moreover have "starves get n (wr_world w)" if "\<forall>n. get n (wr_world w) = (APR_SUCCESS, [], wr_world w)" for n
    using that by (coinduction rule: starves.coinduct) (auto intro!: exI [of _ "[]"])
  ultimately show ?thesis by blast
qed

text \<open>Filters without a body, and without an end-of-stream bucket.\<close>

definition empty_get :: "string get_brigade" where
  "empty_get n x = (APR_SUCCESS, [], x)"

theorem drained_read_spins_witness:
  "ReadEntityBody empty_get ascii_encodings (Some ''-----'') 4 (sample_input []) = None"
proof -
  have "body_filter empty_get (\<lambda>_. [])" by (simp add: body_filter_def empty_get_def)
  then show ?thesis
    using drained_read_spins [of empty_get "\<lambda>_. []" 4 "''-----''" "sample_input []" ascii_encodings]
    by (simp add: sample_input_def blank_worker_def empty_get_def)
qed

text \<open>The pieces that any sequence of such calls returns, with buffers and sizes of the client's
  choice, are consecutive pieces of the body: without a failure, the pieces and what the
  filters still hold make up the body, and when the end of the stream is known the pieces are
  the whole body.\<close>

theorem body_reassembled:
  assumes "body_filter get remaining" "utf8_nonempty en" "list_all fair_call calls"
    "wr_seen_eos w \<longrightarrow> remaining (wr_world w) = []" "read_calls get en calls w = Some (s, w')"
  shows "wr_bytes_read w' = wr_bytes_read w + int (length s) \<and>
    (wr_log w' = wr_log w \<longrightarrow>
       remaining (wr_world w) = s @ remaining (wr_world w') \<and> (wr_seen_eos w' \<longrightarrow> s = remaining (wr_world w)))"
  using read_calls_result [OF assms(1-3), of w] assms(4,5) by auto

theorem body_reassembled_witness:
  "\<exists>s w'. read_calls sample_get ascii_encodings [(''-----'', 4), (''--------'', 8)] (sample_input ''abcdefg'') = Some (s, w') \<and>
     (wr_log w' = [] \<longrightarrow> ''abcdefg'' = s @ wr_world w')"
proof -
  have c: "list_all fair_call [(''-----'', 4), (''--------'', 8)]" by (simp add: fair_call_def)
  have w: "\<not> wr_seen_eos (sample_input ''abcdefg'')" "wr_world (sample_input ''abcdefg'') = ''abcdefg''"
    "wr_log (sample_input ''abcdefg'') = []" by (simp_all add: sample_input_def blank_worker_def)
  from read_calls_result [OF sample_get_filter utf8_nonempty_ascii c, of "sample_input ''abcdefg''"] sample_get_ends
  obtain s w' where r: "read_calls sample_get ascii_encodings [(''-----'', 4), (''--------'', 8)] (sample_input ''abcdefg'') = Some (s, w')"
    by blast
  from body_reassembled [OF sample_get_filter utf8_nonempty_ascii c _ r] w r show ?thesis by auto
qed

text \<open>C31: the only test of the buffer is that it is not empty: when more is asked for than it holds, a
  negative number included, and the filters deliver more than it holds in one bucket, the
  bytes are copied past its end.\<close>

theorem oversized_read_overruns:
  assumes "buf \<noteq> []" "get (min HUGE_STRING_LEN (to_size_t sz)) (wr_world w) = (APR_SUCCESS, InData APR_SUCCESS s # bb, x)"
    "length buf < length s" "length s \<le> to_size_t sz"
  shows "ReadEntityBody get en (Some buf) sz w = Some (Inl BufferOverrun, Some buf, w\<lparr>wr_world := x\<rparr>)"
proof -
  let ?r = "\<lparr>rd_buf = buf, rd_pos = 0, rd_size = to_size_t sz, rd_bytes_read = 0, rd_overflow = 0,
             rd_eos = wr_seen_eos w, rd_world = wr_world w\<rparr>"
  have "fetch get ?r = (Inr (InData APR_SUCCESS s # bb), ?r\<lparr>rd_world := x\<rparr>)"
    using assms(2) by (cases "HUGE_STRING_LEN \<le> to_size_t sz") (simp_all add: fetch_def min_def)
  moreover have "take_bytes s (?r\<lparr>rd_world := x\<rparr>) = (Inl BufferOverrun, ?r\<lparr>rd_world := x\<rparr>)"
    using assms(3,4) by (simp add: take_bytes_def memcpy_def obind_def Let_def)
  ultimately have "read_loop get ?r = Some (Inl BufferOverrun, ?r\<lparr>rd_world := x\<rparr>)"
    by (subst read_loop.simps) (simp add: obind_def)
  then show ?thesis using assms(1) by (simp add: ReadEntityBody_def InternalReadEntityBody_def)
qed

theorem oversized_read_overruns_witness:
  "\<exists>x. ReadEntityBody (\<lambda>n x. (APR_SUCCESS, [InData APR_SUCCESS (take n x)], drop n x)) ascii_encodings (Some ''-'') (- 1)
     (sample_input ''ab'') = Some (Inl BufferOverrun, Some ''-'', (sample_input ''ab'')\<lparr>wr_world := x\<rparr>)"
proof -
  have n: "min HUGE_STRING_LEN (to_size_t (- 1)) = HUGE_STRING_LEN" "2 \<le> to_size_t (- 1)"
    by (simp_all add: HUGE_STRING_LEN_def to_size_t_def)
  have w: "wr_world (sample_input ''ab'') = ''ab''" by (simp add: sample_input_def blank_worker_def)
  show ?thesis
    by (rule exI, rule oversized_read_overruns [where s = "''ab''" and bb = "[]"])
      (use n w in \<open>simp_all add: HUGE_STRING_LEN_def\<close>)
qed

end
