(* ===== verification/Worker_Handler.thy ===== *)
theory Worker_Handler
  imports Worker_Response Worker_Input
begin

text \<open>
  \<open>WorkerRequest::Handler\<close> (\<open>Apache.Web/WorkerRequest.cpp\<close>): the preread of the request body, the
  call of ASP.NET, and the wait for the end of the request. ASP.NET is the parameter
  \<open>process\<close>; what it does to the worker request are the steps \<open>worker_step\<close>, one for every
  method that changes it. Waiting for an event nobody sets is the value \<open>None\<close>.
\<close>

section \<open>The preread\<close>

text \<open>The worker request and the two locals of the loop.\<close>

record 'w preread_state =
  pr_worker :: "'w worker"
  pr_pos :: nat
  pr_size :: nat

definition on_worker :: "('w worker, read_stop, 'a) run \<Rightarrow> ('w preread_state, read_stop, 'a) run" where
  "on_worker m s = (case m (pr_worker s) of (r, w) \<Rightarrow> (r, s\<lparr>pr_worker := w\<rparr>))"

definition preread_copy :: "string \<Rightarrow> ('w preread_state, read_stop, unit) run" where
  "preread_copy bytes s =
     (case wr_preread_body (pr_worker s) of
        None \<Rightarrow> (Inl BufferOverrun, s)
      | Some body \<Rightarrow>
          (if pr_pos s + length bytes \<le> length body
           then (Inr (), s\<lparr>pr_worker := (pr_worker s)\<lparr>wr_preread_body :=
                   Some (take (pr_pos s) body @ bytes @ drop (pr_pos s + length bytes) body)\<rparr>\<rparr>)
           else (Inl BufferOverrun, s)))"

definition preread_bytes :: "encodings \<Rightarrow> string \<Rightarrow> ('w preread_state, read_stop, unit) run" where
  "preread_bytes en data =
     obind (oget pr_size) (\<lambda>size.
     let len = (if length data > size then size else length data) in
     obind (on_worker (read_log en ''Handler: brigade read overflow prereading the request body'' 0 (length data > size))) (\<lambda>_.
     if size \<noteq> 0 then
       obind (preread_copy (take len data)) (\<lambda>_.
       omap (\<lambda>s. s\<lparr>pr_worker := (pr_worker s)\<lparr>wr_bytes_read := wr_bytes_read (pr_worker s) + int len\<rparr>,
                  pr_pos := pr_pos s + len, pr_size := size - len\<rparr>))
     else oreturn ()))"

text \<open>A bucket that cannot be read is logged, and whatever is in \<open>data\<close> and \<open>len\<close> is copied.\<close>

fun preread_loop :: "encodings \<Rightarrow> in_bucket list \<Rightarrow> ('w preread_state, read_stop, unit) run" where
  "preread_loop en [] = oreturn ()"
| "preread_loop en (InEos # bb) = on_worker (omap (\<lambda>w. w\<lparr>wr_seen_eos := True\<rparr>))"
| "preread_loop en (InFlush # bb) = preread_loop en bb"
| "preread_loop en (InData rv data # bb) =
     obind (on_worker (read_log en ''Handler: brigade read failure prereading the request body'' rv (rv \<noteq> APR_SUCCESS))) (\<lambda>_.
     obind (preread_bytes en data) (\<lambda>_.
     preread_loop en bb))"

text \<open>
  \<open>blen\<close> is \<open>apr_brigade_length\<close>: a status, which is ignored, and a length. The allocation of
  a managed array of a length beyond the range of \<open>int\<close> throws. The result tells whether the
  request can be processed.
\<close>

definition preread ::
  "'w get_brigade \<Rightarrow> (in_bucket list \<Rightarrow> apr_status_t \<times> int) \<Rightarrow> encodings \<Rightarrow> ('w worker, read_stop, bool) run" where
  "preread get blen en w =
     (case get 49152 (wr_world w) of (rv, bb, x) \<Rightarrow>
        (let w = w\<lparr>wr_world := x\<rparr> in
         if rv = APR_SUCCESS then
           (let size = to_size_t (snd (blen bb)) in
            if size \<ge> 2 ^ 31 then (Inl (Thrown OtherException), w)
            else
              (case preread_loop en bb \<lparr>pr_worker = w\<lparr>wr_preread_body := Some (replicate size NUL)\<rparr>,
                                       pr_pos = 0, pr_size = size\<rparr> of
                 (Inl e, s) \<Rightarrow> (Inl e, pr_worker s)
               | (Inr _, s) \<Rightarrow> (Inr True, pr_worker s)))
         else
           obind (read_log en ''Handler: failed to preread the request body'' rv True) (\<lambda>_. oreturn False) w))"

section \<open>Handler\<close>

definition fail_request :: "'w httpd_api \<Rightarrow> encodings \<Rightarrow> wstr \<Rightarrow> ('w worker, unit) meth" where
  "fail_request api en e_text =
     obind (oget wr_body_sent) (\<lambda>sent.
     obind (if \<not> sent then
              upd_rr (\<lambda>r. r\<lparr>r_status := 500, r_status_line := Some (ha_get_status_line api 500)\<rparr>)
            else oreturn ()) (\<lambda>_.
     obind (oget wr_uri) (\<lambda>uri.
     obind (worker_LogRequestError en
              (Some (wL ''ProcessRequest: fatal exception processing request '' @ uri @ wL '' exception follows;''))
              APLOG_ERR 0) (\<lambda>_.
     worker_LogRequestError en (Some e_text) APLOG_ERR 0))))"

text \<open>
  \<open>e_str\<close> is the text of an exception; \<open>meanwhile\<close> is what other threads do to the request until
  the handler stops waiting, which it does only when the event is set.
\<close>

definition Handler ::
  "'w httpd_api \<Rightarrow> 'w get_brigade \<Rightarrow> (in_bucket list \<Rightarrow> apr_status_t \<times> int) \<Rightarrow> encodings \<Rightarrow>
   ('w worker, unit) meth \<Rightarrow> (exn \<Rightarrow> wstr) \<Rightarrow> ('w worker \<Rightarrow> 'w worker) \<Rightarrow>
   'w worker \<Rightarrow> ((read_stop + int) \<times> 'w worker) option" where
  "Handler api get blen en process e_str meanwhile w =
     (case obind (omap (\<lambda>w. w\<lparr>wr_wait_complete := Some False\<rparr>)) (\<lambda>_. preread get blen en) w of
        (Inl e, w) \<Rightarrow> Some (Inl e, w)
      | (Inr False, w) \<Rightarrow> Some (Inr 500, w)
      | (Inr True, w) \<Rightarrow>
          (case managed (otry process (\<lambda>e. fail_request api en (e_str e))) w of
             (Inl e, w) \<Rightarrow> Some (Inl e, w)
           | (Inr _, w) \<Rightarrow>
               (let w = meanwhile w in
                if wr_wait_complete w \<noteq> Some True then None
                else Some (Inr (if \<not> wr_body_sent w then r_status (wr_rr w) else OK), w))))"

section \<open>What ASP.NET can do to the worker request\<close>

text \<open>One step for every method that changes the worker request, whether it returns or throws.\<close>

inductive worker_step :: "'w httpd_api \<Rightarrow> 'w get_brigade \<Rightarrow> encodings \<Rightarrow> 'w worker \<Rightarrow> 'w worker \<Rightarrow> bool"
  for api :: "'w httpd_api" and get :: "'w get_brigade" and en :: encodings where
  step_status: "SendStatus api en c d w = (r, w') \<Longrightarrow> worker_step api get en w w'"
| step_known: "SendKnownResponseHeader api en i v w = (r, w') \<Longrightarrow> worker_step api get en w w'"
| step_unknown: "SendUnknownResponseHeader api en n v w = (r, w') \<Longrightarrow> worker_step api get en w w'"
| step_length: "SendCalculatedContentLength api k w = (r, w') \<Longrightarrow> worker_step api get en w w'"
| step_memory_ptr: "SendResponseFromMemory_ptr api en m k w = (r, w') \<Longrightarrow> worker_step api get en w w'"
| step_memory: "SendResponseFromMemory api en m k w = (r, w') \<Longrightarrow> worker_step api get en w w'"
| step_handle: "SendResponseFromFile_handle api en hv off k w = (r, w') \<Longrightarrow> worker_step api get en w w'"
| step_file: "SendResponseFromFile api en f off k w = (r, w') \<Longrightarrow> worker_step api get en w w'"
| step_flush: "FlushResponse api b w = (r, w') \<Longrightarrow> worker_step api get en w w'"
| step_notify: "SetEndOfSendNotification cb w = (r, w') \<Longrightarrow> worker_step api get en w w'"
| step_end: "EndOfRequest api w = (r, w') \<Longrightarrow> worker_step api get en w w'"
| step_close: "CloseConnection w = (r, w') \<Longrightarrow> worker_step api get en w w'"
| step_read: "ReadEntityBody get en buf sz w = Some (out, buf', w') \<Longrightarrow> worker_step api get en w w'"
| step_remote: "GetRemoteName en f w = (n, w') \<Longrightarrow> worker_step api get en w w'"
| step_server: "GetServerName en f w = (n, w') \<Longrightarrow> worker_step api get en w w'"
| step_map: "worker_MapPath cu en p w = (q, w') \<Longrightarrow> worker_step api get en w w'"

definition worker_run :: "'w httpd_api \<Rightarrow> 'w get_brigade \<Rightarrow> encodings \<Rightarrow> 'w worker \<Rightarrow> 'w worker \<Rightarrow> bool" where
  "worker_run api get en = rtranclp (worker_step api get en)"

section \<open>What every step keeps\<close>

text \<open>
  The part of the worker request that the constructor and the preread fix, and the relation
  between the states before and after a step: the fixed part is the same, flags that are set
  stay set, an absent callback stays absent, and the log is extended.
\<close>

definition request_view where
  "request_view w =
     ((wr_uri w, wr_unparsed_uri w, wr_queryargs w, wr_filename w, wr_query_raw w),
      (wr_request_headers_value w, wr_unk_req_header_name w, wr_unk_req_header_index w,
       wr_unk_req_header_value w, wr_unk_req_hdr_arr w, wr_env_name w, wr_env_value w),
      wr_host w, wr_preread_body w)"

definition grows :: "'w worker \<Rightarrow> 'w worker \<Rightarrow> bool" where
  "grows w w' \<longleftrightarrow>
     request_view w' = request_view w \<and>
     (wr_body_sent w \<longrightarrow> wr_body_sent w') \<and> (wr_seen_eos w \<longrightarrow> wr_seen_eos w') \<and>
     (wr_wait_complete w = Some True \<longrightarrow> wr_wait_complete w' = Some True) \<and>
     (wr_wait_complete w = None \<longleftrightarrow> wr_wait_complete w' = None) \<and>
     (wr_eosnCallback w = None \<longrightarrow> wr_eosnCallback w' = None) \<and>
     (\<exists>l. wr_log w' = wr_log w @ l)"

lemma grows_refl [simp]: "grows w w"
  by (simp add: grows_def)

lemma grows_trans: "grows w w1 \<Longrightarrow> grows w1 w2 \<Longrightarrow> grows w w2"
  by (auto simp: grows_def)

definition growing :: "('w worker, 'e, 'a) run \<Rightarrow> bool" where
  "growing m \<longleftrightarrow> (\<forall>w. grows w (snd (m w)))"

lemma growingD: "growing m \<Longrightarrow> m w = (r, w') \<Longrightarrow> grows w w'"
  by (metis growing_def snd_conv)

named_theorems growing_intros

lemma growing_prims [growing_intros]:
  "growing (oreturn x)" "growing (othrow e)" "growing (oget f)" "growing (olift r)"
  by (simp_all add: growing_def)

lemma growing_obind [growing_intros]: "growing m \<Longrightarrow> (\<And>x. growing (k x)) \<Longrightarrow> growing (obind m k)"
  by (auto simp: growing_def obind_def split: prod.splits sum.splits) (metis grows_trans snd_conv)+

lemma growing_otry [growing_intros]: "growing m \<Longrightarrow> (\<And>e. growing (h e)) \<Longrightarrow> growing (otry m h)"
  by (auto simp: growing_def otry_def split: prod.splits sum.splits) (metis grows_trans snd_conv)+

lemma growing_if [growing_intros]: "growing m \<Longrightarrow> growing m' \<Longrightarrow> growing (if b then m else m')"
  by simp

lemma growing_managed [growing_intros]: "growing m \<Longrightarrow> growing (managed m)"
  by (auto simp: growing_def managed_def split: prod.splits sum.splits) (metis snd_conv)+

lemma growing_omap [growing_intros]: "(\<And>w. grows w (g w)) \<Longrightarrow> growing (omap g)"
  by (simp add: growing_def)

text \<open>The updates the methods are made of.\<close>

lemma growing_updates [growing_intros]:
  "growing (upd_rr g)" "growing (worker_world m)" "growing (pass api bb)" "growing set_body_sent"
  by (auto simp: growing_def upd_rr_def worker_world_def pass_def set_body_sent_def grows_def request_view_def
      split: prod.splits)

lemma growing_log [growing_intros]: "growing (worker_LogRequestError en msg lvl rv)"
  unfolding worker_LogRequestError_def
  by (intro growing_intros) (simp add: grows_def request_view_def)

lemma growing_read_log [growing_intros]: "growing (read_log en msg rv c)"
  unfolding read_log_def by (intro growing_intros)

lemma grows_callback [simp]: "grows w (w\<lparr>wr_eosnCallback := None\<rparr>)"
  by (simp add: grows_def request_view_def)

lemma growing_fire [growing_intros]: "growing (fire_callback api)"
  unfolding fire_callback_def
  by (intro growing_intros) (auto split: option.split intro!: growing_intros)

lemma growing_sends [growing_intros]:
  "growing (SendStatus api en c d)" "growing (SendKnownResponseHeader api en i v)"
  "growing (SendUnknownResponseHeader api en n v)" "growing (SendCalculatedContentLength api k)"
  "growing (FlushResponse api b)" "growing (report_failure en msg rv)"
  unfolding SendStatus_def SendKnownResponseHeader_def SendUnknownResponseHeader_def
    SendCalculatedContentLength_def FlushResponse_def InternalFlushResponse_def report_failure_def
  by (intro growing_intros)+

lemma growing_memory [growing_intros]:
  "growing (SendResponseFromMemory_ptr api en m k)" "growing (SendResponseFromMemory api en m k)"
  unfolding SendResponseFromMemory_ptr_def SendResponseFromMemory_def InternalResponseFromMemory_def
  by (intro growing_intros)+

lemma growing_file [growing_intros]:
  "growing (SendResponseFromFile_handle api en hv off k)" "growing (SendResponseFromFile api en f off k)"
proof -
  have "growing (InternalResponseFromFile api hv off k)" for hv
    unfolding InternalResponseFromFile_def Let_def split_beta by (intro growing_intros)
  then show "growing (SendResponseFromFile_handle api en hv off k)" for hv
    unfolding SendResponseFromFile_handle_def by (intro growing_intros)
  then show "growing (SendResponseFromFile api en f off k)"
    unfolding SendResponseFromFile_def by (intro growing_intros)
qed

lemma growing_end [growing_intros]:
  "growing (EndOfRequest api)" "growing (SetEndOfSendNotification cb)" "growing CloseConnection"
  unfolding EndOfRequest_def SetEndOfSendNotification_def CloseConnection_def
proof -
  have "growing (obind (oget wr_wait_complete) (\<lambda>ev. if ev = None then othrow NullReference
      else omap (\<lambda>w :: 'a worker. w\<lparr>wr_wait_complete := Some True\<rparr>)))"
    by (auto simp: growing_def grows_def request_view_def)
  then show "growing (obind (fire_callback api) (\<lambda>_. obind (oget wr_wait_complete) (\<lambda>ev. if ev = None
      then othrow NullReference else omap (\<lambda>w :: 'a worker. w\<lparr>wr_wait_complete := Some True\<rparr>))))"
    by (rule growing_obind [OF growing_fire])
qed (intro growing_intros)+

text \<open>The flag for the end of the stream stays set through a read.\<close>

lemma keeps_eos [keeps_intros]:
  "keeps rd_eos (memcpy bytes)" "keeps rd_eos (fetch get)"
  by (auto simp: keeps_def memcpy_def fetch_def split: prod.splits)

lemma keeps_eos_take [keeps_intros]: "keeps rd_eos (take_bytes data)"
  unfolding take_bytes_def Let_def by (intro keeps_intros) simp_all

lemma keeps_eos_drain [keeps_intros]: "keeps rd_eos (drain bb)"
proof (induction bb rule: drain.induct)
  case (2 bb)
  show ?case unfolding drain.simps by (intro keeps_intros) simp
next
  case (4 rv data bb)
  show ?case
  proof (cases "rv = APR_SUCCESS")
    case True
    from 4 True show ?thesis
      unfolding drain.simps by (simp only: not_True_eq_False simp_thms if_False, intro keeps_obind keeps_eos_take) simp
  qed (simp add: keeps_def)
qed (simp_all add: keeps_def)

lemma read_loop_eos:
  assumes "read_loop get r = Some y"
  shows "rd_eos r \<longrightarrow> rd_eos (snd y)"
proof (rule read_loop.raw_induct [where P = "\<lambda>get r y. rd_eos r \<longrightarrow> rd_eos (snd y)", OF _ assms], rule impI)
  fix loop :: "'a get_brigade \<Rightarrow> 'a reader \<Rightarrow> ((read_stop + unit) \<times> 'a reader) option" and get r y
  assume IH: "\<And>get r y. loop get r = Some y \<Longrightarrow> rd_eos r \<longrightarrow> rd_eos (snd y)"
    and step: "(case obind (fetch get) drain r of (Inl e, r') \<Rightarrow> Some (Inl e, r')
      | (Inr _, r') \<Rightarrow> if \<not> rd_eos r' \<and> rd_size r' > 0 then loop get r' else Some (Inr (), r')) = Some y"
    and eos: "rd_eos r"
  obtain x r1 where r1: "obind (fetch get) drain r = (x, r1)" by fastforce
  have "keeps rd_eos (obind (fetch get) drain)" by (intro keeps_intros)
  from keepsD [OF this eos r1] have "rd_eos r1" .
  with step [unfolded r1] show "rd_eos (snd y)" by (auto split: sum.splits)
qed

lemma grows_read:
  assumes "ReadEntityBody get en buf sz w = Some (out, buf', w')"
  shows "grows w w'"
proof (cases buf)
  case (Some b)
  show ?thesis
  proof (cases "length b < 1")
    case False
    with assms Some obtain res r where r:
      "InternalReadEntityBody get b (to_size_t sz) (wr_seen_eos w) (wr_world w) = Some (res, r)"
      by (auto simp: ReadEntityBody_def split: option.splits)
    have eos: "wr_seen_eos w \<longrightarrow> rd_eos r"
      using read_loop_eos [OF r [unfolded InternalReadEntityBody_def]] by simp
    let ?w = "w\<lparr>wr_seen_eos := rd_eos r, wr_world := rd_world r\<rparr>"
    let ?w' = "?w\<lparr>wr_bytes_read := wr_bytes_read w + rd_bytes_read r\<rparr>"
    have g: "grows w ?w" "grows w ?w'" using eos by (simp_all add: grows_def request_view_def)
    have log: "growing (obind (read_log en m1 rv c1) (\<lambda>_. obind (read_log en m2 rv c2) (\<lambda>_. oreturn k)))"
      for m1 m2 rv c1 c2 and k :: int by (intro growing_intros)
    show ?thesis
      using assms Some False r g
      by (auto simp: ReadEntityBody_def Let_def split: sum.splits read_stop.splits prod.splits
          dest!: growingD [OF log] intro: grows_trans)
  qed (use assms Some in \<open>auto simp: ReadEntityBody_def\<close>)
qed (use assms in \<open>auto simp: ReadEntityBody_def\<close>)

lemma grows_names:
  "GetRemoteName en f w = (n, w') \<Longrightarrow> grows w w'"
  "GetServerName en f w = (n, w') \<Longrightarrow> grows w w'"
  "worker_MapPath cu en p w = (q, w') \<Longrightarrow> grows w w'"
  by (auto simp: GetRemoteName_def GetServerName_def worker_MapPath_def grows_def request_view_def Let_def
      split: option.splits prod.splits)

lemma worker_step_grows: "worker_step api get en w w' \<Longrightarrow> grows w w'"
  by (induction rule: worker_step.induct)
    (auto intro: growingD growing_intros grows_read grows_names)

lemma worker_run_grows: "worker_run api get en w w' \<Longrightarrow> grows w w'"
  unfolding worker_run_def
  by (induction rule: rtranclp_induct) (auto intro: worker_step_grows grows_trans)

end
