(* ===== verification/Worker_Lifecycle.thy ===== *)
theory Worker_Lifecycle
  imports Worker_Handler
begin

text \<open>
  The properties of the preread, of the handler and of the life of a worker request: what no
  sequence of calls of ASP.NET changes, when \<open>Handler\<close> returns and with what, and that the
  preread and the reads together deliver the body.
\<close>

section \<open>The preread stays inside of its array\<close>

definition preread_inv :: "int \<Rightarrow> nat \<Rightarrow> 'w preread_state \<Rightarrow> bool" where
  "preread_inv b0 n s \<longleftrightarrow>
     (\<exists>body. wr_preread_body (pr_worker s) = Some body \<and> length body = n) \<and>
     pr_pos s + pr_size s = n \<and> wr_bytes_read (pr_worker s) = b0 + int (pr_pos s)"

definition inside :: "int \<Rightarrow> nat \<Rightarrow> ('w preread_state, read_stop, 'a) run \<Rightarrow> bool" where
  "inside b0 n m \<longleftrightarrow>
     (\<forall>s. preread_inv b0 n s \<longrightarrow> preread_inv b0 n (snd (m s)) \<and> fst (m s) \<noteq> Inl BufferOverrun)"

lemma insideD:
  "inside b0 n m \<Longrightarrow> preread_inv b0 n s \<Longrightarrow> m s = (r, s') \<Longrightarrow> preread_inv b0 n s' \<and> r \<noteq> Inl BufferOverrun"
  by (metis inside_def fst_conv snd_conv)

named_theorems inside_intros

lemma inside_obind [inside_intros]:
  fixes m :: "('w preread_state, read_stop, 'a) run"
  assumes "inside b0 n m" "\<And>x. inside b0 n (k x)"
  shows "inside b0 n (obind m k)"
  unfolding inside_def
proof (intro allI impI)
  fix s :: "'w preread_state" assume s: "preread_inv b0 n s"
  obtain r s1 where m: "m s = (r, s1)" by fastforce
  from insideD [OF assms(1) s m] have "preread_inv b0 n s1" "r \<noteq> Inl BufferOverrun" by simp_all
  then show "preread_inv b0 n (snd (obind m k s)) \<and> fst (obind m k s) \<noteq> Inl BufferOverrun"
    using m assms(2) by (cases r) (simp_all add: obind_def inside_def)
qed

lemma read_log_state:
  "\<exists>r l. on_worker (read_log en msg rv c) s = (r, s\<lparr>pr_worker := (pr_worker s)\<lparr>wr_log := l\<rparr>\<rparr>) \<and> r \<noteq> Inl BufferOverrun"
proof -
  have "\<exists>r l. read_log en msg rv c w = (r, w\<lparr>wr_log := l\<rparr>) \<and> r \<noteq> Inl BufferOverrun" for w :: "'a worker"
  proof (cases "LogRequestError en (Some (wL msg)) APLOG_ERR rv")
    case (Inl e)
    then show ?thesis
      by (intro exI [of _ "if c then Inl (Thrown e) else Inr ()"] exI [of _ "wr_log w"])
        (simp add: read_log_def managed_def worker_LogRequestError_def obind_def)
  next
    case (Inr e)
    then show ?thesis
      by (intro exI [of _ "Inr ()"] exI [of _ "if c then wr_log w @ [e] else wr_log w"])
        (simp add: read_log_def managed_def worker_LogRequestError_def obind_def)
  qed
  then obtain r l where "read_log en msg rv c (pr_worker s) = (r, (pr_worker s)\<lparr>wr_log := l\<rparr>)" "r \<noteq> Inl BufferOverrun"
    by blast
  then show ?thesis by (auto simp: on_worker_def)
qed

lemma inside_log [inside_intros]: "inside b0 n (on_worker (read_log en msg rv c))"
  unfolding inside_def
proof (intro allI impI)
  fix s :: "'a preread_state" assume s: "preread_inv b0 n s"
  obtain r l where "on_worker (read_log en msg rv c) s = (r, s\<lparr>pr_worker := (pr_worker s)\<lparr>wr_log := l\<rparr>\<rparr>)"
      "r \<noteq> Inl BufferOverrun" using read_log_state by blast
  with s show "preread_inv b0 n (snd (on_worker (read_log en msg rv c) s)) \<and>
      fst (on_worker (read_log en msg rv c) s) \<noteq> Inl BufferOverrun"
    by (simp add: preread_inv_def)
qed

lemma inside_bytes [inside_intros]: "inside b0 n (preread_bytes en data)"
  unfolding inside_def
proof (intro allI impI)
  fix s :: "'a preread_state" assume s: "preread_inv b0 n s"
  let ?len = "if length data > pr_size s then pr_size s else length data"
  obtain r l where log: "on_worker (read_log en ''Handler: brigade read overflow prereading the request body'' 0
        (length data > pr_size s)) s = (r, s\<lparr>pr_worker := (pr_worker s)\<lparr>wr_log := l\<rparr>\<rparr>)" "r \<noteq> Inl BufferOverrun"
    using read_log_state by blast
  from s obtain body where body: "wr_preread_body (pr_worker s) = Some body" "length body = n" "pr_pos s + pr_size s = n"
    by (auto simp: preread_inv_def)
  have "pr_pos s + length (take ?len data) \<le> length body" using body by auto
  then show "preread_inv b0 n (snd (preread_bytes en data s)) \<and> fst (preread_bytes en data s) \<noteq> Inl BufferOverrun"
    using log s body
    by (cases r) (auto simp: preread_bytes_def obind_def preread_copy_def preread_inv_def Let_def)
qed

lemma inside_loop: "inside b0 n (preread_loop en bb)"
proof (induction en bb rule: preread_loop.induct)
  case (4 en rv data bb)
  then show ?case unfolding preread_loop.simps by (intro inside_intros)
qed (simp_all add: inside_def preread_inv_def on_worker_def)

section \<open>A preread of readable buckets\<close>

text \<open>The state of the loop when the bytes \<open>got\<close> are in the array, for the worker request \<open>w\<close> before it.\<close>

definition prereading :: "'w worker \<Rightarrow> string \<Rightarrow> 'w preread_state \<Rightarrow> bool" where
  "prereading w got s \<longleftrightarrow>
     pr_worker s = w\<lparr>wr_preread_body := Some (got @ replicate (pr_size s) NUL),
                     wr_bytes_read := wr_bytes_read w + int (length got)\<rparr> \<and>
     pr_pos s = length got"

lemma on_worker_log_False [simp]: "on_worker (read_log en msg rv False) s = (Inr (), s)"
  by (simp add: on_worker_def read_log_def)

lemma preread_bytes_ok:
  assumes "prereading w got s" "length d \<le> pr_size s"
  shows "\<exists>s'. preread_bytes en d s = (Inr (), s') \<and> prereading w (got @ d) s' \<and> pr_size s' = pr_size s - length d"
proof (cases "pr_size s = 0")
  case True
  with assms show ?thesis by (simp add: preread_bytes_def obind_def)
next
  case False
  then show ?thesis using assms
    by (auto simp: preread_bytes_def obind_def Let_def preread_copy_def prereading_def)
qed

lemma preread_loop_ok:
  assumes "prereading w got s" "readable bb" "length (bb_data bb) \<le> pr_size s"
  shows "\<exists>s'. preread_loop en bb s = (Inr (), s') \<and>
    pr_worker s' = w\<lparr>wr_preread_body := Some (got @ bb_data bb @ replicate (pr_size s - length (bb_data bb)) NUL),
      wr_bytes_read := wr_bytes_read w + int (length got) + int (length (bb_data bb)),
      wr_seen_eos := (wr_seen_eos w \<or> InEos \<in> set bb)\<rparr>"
  using assms
proof (induction en bb arbitrary: s got rule: preread_loop.induct)
  case (4 en rv d bb)
  from 4 have ok: "rv = APR_SUCCESS" "readable bb" "length d \<le> pr_size s" by simp_all
  from preread_bytes_ok [OF "4.prems"(1) ok(3)] obtain s1 where
    s1: "preread_bytes en d s = (Inr (), s1)" "prereading w (got @ d) s1" "pr_size s1 = pr_size s - length d" by blast
  have "length (bb_data bb) \<le> pr_size s1" using "4.prems"(3) s1(3) by simp
  from "4.IH" [OF s1(2) ok(2) this] obtain s' where "preread_loop en bb s1 = (Inr (), s')"
    "pr_worker s' = w\<lparr>wr_preread_body := Some ((got @ d) @ bb_data bb @ replicate (pr_size s1 - length (bb_data bb)) NUL),
      wr_bytes_read := wr_bytes_read w + int (length (got @ d)) + int (length (bb_data bb)),
      wr_seen_eos := (wr_seen_eos w \<or> InEos \<in> set bb)\<rparr>" by blast
  with s1 ok(1) show ?case by (simp add: obind_def add.assoc)
qed (simp_all add: prereading_def on_worker_def)

text \<open>\<open>apr_brigade_length\<close> gives the number of bytes of the brigades the filters deliver.\<close>

definition measures_brigades :: "'w get_brigade \<Rightarrow> (in_bucket list \<Rightarrow> apr_status_t \<times> int) \<Rightarrow> bool" where
  "measures_brigades get blen \<longleftrightarrow>
     (\<forall>n x bb x'. get n x = (APR_SUCCESS, bb, x') \<longrightarrow> snd (blen bb) = int (length (bb_data bb)))"

lemma preread_ok:
  assumes "body_filter get remaining" "measures_brigades get blen" "get 49152 (wr_world w) = (APR_SUCCESS, bb, x)"
  shows "\<exists>w'. preread get blen en w = (Inr True, w') \<and>
    w' = w\<lparr>wr_world := x, wr_preread_body := Some (bb_data bb),
           wr_bytes_read := wr_bytes_read w + int (length (bb_data bb)),
           wr_seen_eos := (wr_seen_eos w \<or> InEos \<in> set bb)\<rparr>"
proof -
  have d: "readable bb" "length (bb_data bb) \<le> 49152"
    using body_filterD [OF assms(1) _ assms(3)] by simp_all
  have n: "snd (blen bb) = int (length (bb_data bb))" using assms(2,3) by (auto simp: measures_brigades_def)
  then have size: "to_size_t (snd (blen bb)) = length (bb_data bb)" using d(2) by (simp add: to_size_t_id)
  let ?w = "w\<lparr>wr_world := x\<rparr>"
  let ?s = "\<lparr>pr_worker = ?w\<lparr>wr_preread_body := Some (replicate (length (bb_data bb)) NUL)\<rparr>,
             pr_pos = 0, pr_size = length (bb_data bb)\<rparr>"
  have "prereading ?w [] ?s" by (simp add: prereading_def)
  from preread_loop_ok [OF this d(1), of en] obtain s' where
    "preread_loop en bb ?s = (Inr (), s')"
    "pr_worker s' = w\<lparr>wr_world := x, wr_preread_body := Some (bb_data bb),
           wr_bytes_read := wr_bytes_read w + int (length (bb_data bb)),
           wr_seen_eos := (wr_seen_eos w \<or> InEos \<in> set bb)\<rparr>" by auto
  with assms(3) size d(2) show ?thesis by (simp add: preread_def)
qed

section \<open>The handler\<close>

abbreviation ERR :: log_entry where
  "ERR \<equiv> LOG (log_word APLOG_ERR 0) 0 ''mod_aspdotnet: %s''"

lemma fail_request_ok:
  assumes "utf8_nonempty en" "t \<noteq> []"
  shows "fail_request api en t w =
    (Inr (), w\<lparr>wr_rr := (if wr_body_sent w then wr_rr w
               else (wr_rr w)\<lparr>r_status := 500, r_status_line := Some (ha_get_status_line api 500)\<rparr>),
             wr_log := wr_log w @ [ERR, ERR]\<rparr>)"
proof -
  have "wL ''ProcessRequest: fatal exception processing request '' \<noteq> []" by code_simp
  then show ?thesis
    using LogRequestError_ok [OF assms(1), where lvl = APLOG_ERR and rv = 0] assms(2)
    by (simp add: fail_request_def worker_LogRequestError_def obind_def upd_rr_def)
qed

text \<open>The state in which the handler starts to wait.\<close>

definition processed :: "'w httpd_api \<Rightarrow> (exn + unit) \<times> 'w worker \<Rightarrow> 'w worker" where
  "processed api rw = (case rw of
     (Inr _, w) \<Rightarrow> w
   | (Inl e, w) \<Rightarrow> w\<lparr>wr_rr := (if wr_body_sent w then wr_rr w
                        else (wr_rr w)\<lparr>r_status := 500, r_status_line := Some (ha_get_status_line api 500)\<rparr>),
                     wr_log := wr_log w @ [ERR, ERR]\<rparr>)"

lemma Handler_processed:
  assumes "utf8_nonempty en" "\<And>e. e_str e \<noteq> []"
    "preread get blen en (w\<lparr>wr_wait_complete := Some False\<rparr>) = (Inr True, w1)"
  shows "Handler api get blen en process e_str meanwhile w =
    (let w' = meanwhile (processed api (process w1)) in
     if wr_wait_complete w' \<noteq> Some True then None
     else Some (Inr (if \<not> wr_body_sent w' then r_status (wr_rr w') else OK), w'))"
proof -
  obtain r w2 where p: "process w1 = (r, w2)" by fastforce
  have "managed (otry process (\<lambda>e. fail_request api en (e_str e))) w1 = (Inr (), processed api (process w1))"
  proof (cases r)
    case (Inl e)
    with p show ?thesis
      by (simp add: managed_def otry_def processed_def fail_request_ok [OF assms(1) assms(2)])
  qed (use p in \<open>simp add: managed_def otry_def processed_def\<close>)
  with assms(3) show ?thesis by (simp add: Handler_def)
qed

lemma grows_processed: "worker_run api get en w1 w2 \<Longrightarrow> grows w1 (processed api (r, w2))"
proof -
  assume "worker_run api get en w1 w2"
  then have "grows w1 w2" by (rule worker_run_grows)
  moreover have "grows w2 (processed api (r, w2))"
    by (cases r) (simp_all add: processed_def grows_def request_view_def)
  ultimately show ?thesis by (rule grows_trans)
qed

section \<open>Properties\<close>

text \<open>C10: whatever ASP.NET calls on a worker request, and in whatever order: the view of the request
  that the constructor and the preread made is the same afterwards, a body that was sent stays
  sent, the end of the stream stays seen, an event that is set stays set, and no entry of the
  log is lost.\<close>

theorem worker_invariants:
  assumes "worker_run api get en w w'"
  shows "request_view w' = request_view w \<and> (wr_body_sent w \<longrightarrow> wr_body_sent w') \<and>
    (wr_seen_eos w \<longrightarrow> wr_seen_eos w') \<and> (wr_wait_complete w = Some True \<longrightarrow> wr_wait_complete w' = Some True) \<and>
    (\<exists>l. wr_log w' = wr_log w @ l)"
  using worker_run_grows [OF assms] by (simp add: grows_def)

theorem worker_invariants_witness:
  "\<exists>w'. worker_run (sample_api []) sample_get ascii_encodings (sample_input ''ab'') w' \<and> wr_body_sent w' \<and>
     request_view w' = request_view (sample_input ''ab'')"
proof -
  obtain r w' where f: "FlushResponse (sample_api []) True (sample_input ''ab'') = (r, w')" by fastforce
  have b: "wr_body_sent w'"
    using f by (auto simp: FlushResponse_def InternalFlushResponse_def pass_def sample_api_def obind_def
        set_body_sent_def fire_callback_def sample_input_def blank_worker_def)
  have run: "worker_run (sample_api []) sample_get ascii_encodings (sample_input ''ab'') w'"
    unfolding worker_run_def by (rule r_into_rtranclp, rule step_flush, rule f)
  with worker_invariants [OF run] b show ?thesis by blast
qed

text \<open>The callback ASP.NET registers for the end of the request is never called: from the
  constructor on, whatever is called on the worker request, no callback is stored, so
  \<open>FlushResponse\<close> and \<open>EndOfRequest\<close> do the same whatever a call of the callback would do.\<close>

theorem end_of_send_never_called:
  assumes "worker_run api get en (new_worker cu en rr h x) w"
  shows "wr_eosnCallback w = None \<and>
    FlushResponse (api\<lparr>ha_invoke := g\<rparr>) b w = FlushResponse api b w \<and>
    EndOfRequest (api\<lparr>ha_invoke := g\<rparr>) w = EndOfRequest api w"
proof -
  have "wr_eosnCallback (fold (add_header cu en) hs v) = wr_eosnCallback v" for hs and v :: "'a worker"
    by (induction hs arbitrary: v) (simp_all add: add_header_def Let_def)
  moreover have "wr_eosnCallback (fold (add_env en) es v) = wr_eosnCallback v" for es and v :: "'a worker"
    by (induction es arbitrary: v) (simp_all add: add_env_def)
  ultimately have "wr_eosnCallback (new_worker cu en rr h x :: 'a worker) = None"
    by (simp add: new_worker_def blank_worker_def Let_def)
  with worker_run_grows [OF assms] have n: "wr_eosnCallback w = None" by (simp add: grows_def)
  have "wr_eosnCallback (snd (pass api [EosBucket] w)) = None" using n by (simp add: pass_def split: prod.splits)
  with n show ?thesis
    by (simp add: FlushResponse_def InternalFlushResponse_def EndOfRequest_def fire_callback_def obind_def
        set_body_sent_def pass_def split: prod.splits)
qed

theorem end_of_send_never_called_witness:
  "wr_eosnCallback (new_worker ordinal_culture ascii_encodings sample_rr sample_host ''ab'') = None"
proof -
  have "worker_run (sample_api []) sample_get ascii_encodings
      (new_worker ordinal_culture ascii_encodings sample_rr sample_host ''ab'')
      (new_worker ordinal_culture ascii_encodings sample_rr sample_host ''ab'')" by (simp add: worker_run_def)
  from end_of_send_never_called [OF this] show ?thesis by blast
qed

text \<open>C29: the preread never writes outside of the array it allocates, whatever the filters deliver
  and whatever length and status \<open>apr_brigade_length\<close> and \<open>apr_bucket_read\<close> give; the array is
  as long as the length says, and no more bytes are counted than it has.\<close>

theorem preread_memory_safe:
  "case preread get blen en w of
     (Inr True, w') \<Rightarrow>
       (\<exists>body k. wr_preread_body w' = Some body \<and> length body < 2 ^ 31 \<and> k \<le> length body \<and>
          wr_bytes_read w' = wr_bytes_read w + int k)
   | (r, w') \<Rightarrow> r \<noteq> Inl BufferOverrun"
proof -
  obtain rv bb x where g: "get 49152 (wr_world w) = (rv, bb, x)" by (metis prod_cases3)
  let ?n = "to_size_t (snd (blen bb))"
  let ?s = "\<lparr>pr_worker = (w\<lparr>wr_world := x\<rparr>)\<lparr>wr_preread_body := Some (replicate ?n NUL)\<rparr>, pr_pos = 0, pr_size = ?n\<rparr>"
  obtain r s where l: "preread_loop en bb ?s = (r, s)" by fastforce
  have "preread_inv (wr_bytes_read w) ?n ?s" by (simp add: preread_inv_def)
  from insideD [OF inside_loop this l] have i: "preread_inv (wr_bytes_read w) ?n s" "r \<noteq> Inl BufferOverrun" by simp_all
  have f: "fst (read_log en msg rv True v) \<noteq> Inl BufferOverrun" for msg and v :: "'a worker"
    by (simp add: read_log_def managed_def split: prod.splits sum.splits)
  show ?thesis
  proof (cases "rv = APR_SUCCESS")
    case True
    then show ?thesis
      using g l i by (auto simp: preread_def Let_def preread_inv_def split: sum.splits) 
  next
    case False
    then show ?thesis
      using g f [of "''Handler: failed to preread the request body''" "w\<lparr>wr_world := x\<rparr>"]
      by (auto simp: preread_def Let_def obind_def split: sum.splits prod.splits)
  qed
qed



text \<open>C9: when the preread succeeds and ASP.NET, or another thread after it, ends the request, the
  handler returns: with \<open>OK\<close> when a body was sent, with the status otherwise, which is 500 when
  ASP.NET threw before it sent a body and nobody changed the request after that.\<close>

theorem handler_returns:
  assumes "utf8_nonempty en" "\<And>e. e_str e \<noteq> []"
    "preread get blen en (w\<lparr>wr_wait_complete := Some False\<rparr>) = (Inr True, w1)" "process w1 = (r, w2)"
    "\<And>v. worker_run api get en v (meanwhile v)"
    "wr_wait_complete w2 = Some True \<or>
     wr_wait_complete w2 \<noteq> None \<and> (\<forall>v. wr_wait_complete v \<noteq> None \<longrightarrow> wr_wait_complete (meanwhile v) = Some True)"
  shows "\<exists>w' status. Handler api get blen en process e_str meanwhile w = Some (Inr status, w') \<and>
    (wr_body_sent w2 \<longrightarrow> status = OK) \<and>
    (\<not> wr_body_sent w2 \<and> wr_body_sent w' \<longrightarrow> status = OK) \<and>
    (\<not> wr_body_sent w' \<longrightarrow> status = r_status (wr_rr w')) \<and>
    (\<forall>e. r = Inl e \<and> \<not> wr_body_sent w2 \<and> (\<forall>v. meanwhile v = v) \<longrightarrow> status = 500)"
proof -
  let ?v = "processed api (process w1)"
  have v: "wr_body_sent ?v = wr_body_sent w2" "wr_wait_complete ?v = wr_wait_complete w2"
    "\<And>e. r = Inl e \<Longrightarrow> \<not> wr_body_sent w2 \<Longrightarrow> r_status (wr_rr ?v) = 500"
    using assms(4) by (auto simp: processed_def split: sum.split)
  have g: "grows ?v (meanwhile ?v)" using assms(5) by (rule worker_run_grows)
  have e: "wr_wait_complete (meanwhile ?v) = Some True"
    using assms(6)
  proof
    assume "wr_wait_complete w2 = Some True"
    with g v(2) show ?thesis by (simp add: grows_def)
  next
    assume "wr_wait_complete w2 \<noteq> None \<and>
      (\<forall>v. wr_wait_complete v \<noteq> None \<longrightarrow> wr_wait_complete (meanwhile v) = Some True)"
    with v(2) show ?thesis by simp
  qed
  show ?thesis
    using Handler_processed [OF assms(1,2,3), where api = api and process = process and meanwhile = meanwhile] e v g
    by (auto simp: Let_def grows_def)
qed

theorem handler_returns_witness:
  "\<exists>w' status. Handler (sample_api []) sample_get (\<lambda>bb. (APR_SUCCESS, int (length (bb_data bb)))) ascii_encodings
     (EndOfRequest (sample_api [])) (\<lambda>e. wL ''e'') (\<lambda>v. v) (sample_input ''abcdefg'') = Some (Inr status, w')"
proof -
  let ?blen = "\<lambda>bb. (APR_SUCCESS, int (length (bb_data bb)))"
  let ?w = "(sample_input ''abcdefg'')\<lparr>wr_wait_complete := Some False\<rparr>"
  have g: "sample_get 49152 (wr_world ?w) = (APR_SUCCESS, [InFlush, InData APR_SUCCESS ''abc''], ''defg'')"
    by (simp add: sample_get_def sample_input_def blank_worker_def)
  have m: "measures_brigades sample_get ?blen" by (simp add: measures_brigades_def)
  obtain w1 where p: "preread sample_get ?blen ascii_encodings ?w = (Inr True, w1)"
      "wr_eosnCallback w1 = None" "wr_wait_complete w1 = Some False"
    using preread_ok [OF sample_get_filter m g, of ascii_encodings] by (auto simp: sample_input_def blank_worker_def)
  have e: "EndOfRequest (sample_api []) w1 = (Inr (), w1\<lparr>wr_wait_complete := Some True\<rparr>)"
    using p(2,3) by (simp add: EndOfRequest_def fire_callback_def obind_def)
  have "wL ''e'' \<noteq> []" by code_simp
  from handler_returns [where process = "EndOfRequest (sample_api [])" and api = "sample_api []" and meanwhile = "\<lambda>v. v"
      and e_str = "\<lambda>e. wL ''e''", OF utf8_nonempty_ascii this p(1) e]
  show ?thesis by (auto simp: worker_run_def)
qed

text \<open>C32: when ASP.NET leaves \<open>ProcessRequest\<close> with an exception without having ended the request, and no
  other thread ends it, the handler never returns: the exception is logged, the status is set
  to 500, and the thread of httpd waits for an event nobody sets.\<close>

theorem handler_exception_hangs:
  assumes "utf8_nonempty en" "\<And>e. e_str e \<noteq> []"
    "preread get blen en (w\<lparr>wr_wait_complete := Some False\<rparr>) = (Inr True, w1)"
    "process w1 = (Inl e, w2)" "wr_wait_complete w2 \<noteq> Some True"
  shows "Handler api get blen en process e_str (\<lambda>v. v) w = None"
  using Handler_processed [OF assms(1,2,3), where api = api and process = process and meanwhile = "\<lambda>v. v"] assms(4,5)
  by (simp add: processed_def)

theorem handler_exception_hangs_witness:
  "Handler (sample_api []) sample_get (\<lambda>bb. (APR_SUCCESS, int (length (bb_data bb)))) ascii_encodings
     (othrow InvalidCast) (\<lambda>e. wL ''e'') (\<lambda>v. v) (sample_input ''abcdefg'') = None"
proof -
  let ?blen = "\<lambda>bb. (APR_SUCCESS, int (length (bb_data bb)))"
  let ?w = "(sample_input ''abcdefg'')\<lparr>wr_wait_complete := Some False\<rparr>"
  have g: "sample_get 49152 (wr_world ?w) = (APR_SUCCESS, [InFlush, InData APR_SUCCESS ''abc''], ''defg'')"
    by (simp add: sample_get_def sample_input_def blank_worker_def)
  have m: "measures_brigades sample_get ?blen" by (simp add: measures_brigades_def)
  obtain w1 where p: "preread sample_get ?blen ascii_encodings ?w = (Inr True, w1)" "wr_wait_complete w1 = Some False"
    using preread_ok [OF sample_get_filter m g, of ascii_encodings] by auto
  have "wL ''e'' \<noteq> []" by code_simp
  from handler_exception_hangs [where process = "othrow InvalidCast" and e = InvalidCast and e_str = "\<lambda>e. wL ''e''"
      and api = "sample_api []", OF utf8_nonempty_ascii this p(1)] p(2)
  show ?thesis by simp
qed

end
