(* ===== verification/Request_Path.thy ===== *)
theory Request_Path
  imports Module_Startup Worker_Lifecycle
begin

text \<open>
  The way of a request through all four objects: \<open>asp_net_handler\<close> of the native module calls
  \<open>HostFactory::HandleHostRequest\<close> through COM, the factory calls \<open>Host::HandleRequest\<close> in the
  application domain of the mount, and the host constructs a \<open>WorkerRequest\<close> and runs its
  handler. The other theories have each call as an argument; here the arguments are the
  models of the callees. The destructor of a host calls the factory back.
\<close>

section \<open>Host::HandleRequest\<close>

text \<open>
  The worker request is constructed and run under the host's exception handler. A run that
  does not end is \<open>None\<close>; the write past the end of an array is no exception and passes the handler.
\<close>

definition HostHandleRequest ::
  "'w httpd_api \<Rightarrow> 'w get_brigade \<Rightarrow> (in_bucket list \<Rightarrow> apr_status_t \<times> int) \<Rightarrow> culture \<Rightarrow> encodings \<Rightarrow>
   ('w worker, unit) meth \<Rightarrow> (exn \<Rightarrow> wstr) \<Rightarrow> ('w worker \<Rightarrow> 'w worker) \<Rightarrow>
   host \<Rightarrow> request_rec \<Rightarrow> 'w \<Rightarrow> ((read_stop + int) \<times> 'w worker \<times> log_entry list) option" where
  "HostHandleRequest api get blen cu en process e_str meanwhile h rr x =
     (case Handler api get blen en process e_str meanwhile (new_worker cu en rr h x) of
        None \<Rightarrow> None
      | Some (Inr status, w) \<Rightarrow> Some (Inr status, w, [])
      | Some (Inl (Thrown e), w) \<Rightarrow>
          (case HandleRequest en e_str (\<lambda>w. (Inl e, w)) w of
             (Inl e', w, log) \<Rightarrow> Some (Inl (Thrown e'), w, log)
           | (Inr status, w, log) \<Rightarrow> Some (Inr status, w, log))
      | Some (Inl stop, w) \<Rightarrow> Some (Inl stop, w, []))"

text \<open>
  \<open>Host::~Host\<close> takes the host out of the factory; a fault of the factory, which may be gone
  already, is ignored.
\<close>

definition Host_destructor :: "host \<Rightarrow> nat \<Rightarrow> ('w fstate, unit) meth" where
  "Host_destructor h self =
     otry (case hs_thisFactory h of
             None \<Rightarrow> othrow NullReference
           | Some _ \<Rightarrow> HostFinalized (hs_thisHostKey h) self)
       (\<lambda>_. oreturn ())"

section \<open>The call of the factory\<close>

text \<open>
  What is behind the factory while it dispatches: the host objects by address, the request
  record the native module passes by its address, the state behind httpd's filters, and the log.
\<close>

record 'w served =
  sv_hosts :: "nat \<Rightarrow> host option"
  sv_request :: request_rec
  sv_world :: 'w
  sv_log :: "log_entry list"

text \<open>
  The COM call: the wrapper turns the failure of a managed method into a \<open>_com_error\<close>, with
  the code and the description the .NET runtime has for the exception.
\<close>

definition factory_call ::
  "'w served app_env \<Rightarrow> ('w served fstate \<Rightarrow> 'w served fstate) \<Rightarrow> (exn \<Rightarrow> hresult) \<Rightarrow> (exn \<Rightarrow> c_ptr) \<Rightarrow>
   int \<Rightarrow> request_rec \<Rightarrow> 'w served fstate \<Rightarrow> (native_exn + int) \<times> request_rec \<times> 'w served fstate" where
  "factory_call env interfere hr_of desc_of HostKey r f =
     (case HandleHostRequest env interfere HostKey (f\<lparr>fs_world := (fs_world f)\<lparr>sv_request := r\<rparr>\<rparr>) of
        (Inl e, f) \<Rightarrow> (Inl (ComError (hr_of e) (desc_of e)), sv_request (fs_world f), f)
      | (Inr status, f) \<Rightarrow> (Inr status, sv_request (fs_world f), f))"

text \<open>The remote calls of the environment reach host objects that run \<open>handle\<close>.\<close>

definition hosts_run ::
  "'w served app_env \<Rightarrow> (host \<Rightarrow> request_rec \<Rightarrow> 'w \<Rightarrow> ((read_stop + int) \<times> 'w worker \<times> log_entry list) option) \<Rightarrow> bool" where
  "hosts_run env handle \<longleftrightarrow>
     (\<forall>p s h status w log.
        sv_hosts s p = Some h \<longrightarrow> handle h (sv_request s) (sv_world s) = Some (Inr status, w, log) \<longrightarrow>
        ae_HandleRequest env p s =
          (Inr status, s\<lparr>sv_request := wr_rr w, sv_world := wr_world w, sv_log := sv_log s @ wr_log w @ log\<rparr>))"

section \<open>Lemmas\<close>

text \<open>A connected host is called once, and its status is the factory's.\<close>

lemma factory_call_connected:
  assumes "factory_wf (fs_fac f)" "valid_key (fs_fac f) k" "obj_at (fs_fac f) k = Some p"
    and "ae_HandleRequest env p ((fs_world f)\<lparr>sv_request := r\<rparr>) = (Inr status, s)"
  shows "factory_call env interfere hr_of desc_of k r f = (Inr status, sv_request s, f\<lparr>fs_world := s\<rparr>)"
  using assms get_hostObj [of "f\<lparr>fs_world := (fs_world f)\<lparr>sv_request := r\<rparr>\<rparr>" k]
  by (simp add: factory_call_def HandleHostRequest_def first_attempt_def in_world_def obind_def otry_def oreturn_def)

lemma new_worker_start:
  "wr_world (new_worker cu en rr h x) = x" "wr_rr (new_worker cu en rr h x) = rr"
  "wr_body_sent (new_worker cu en rr h x) = False" "wr_log (new_worker cu en rr h x) = []"
proof -
  have e: "wr_world (fold (add_env en) l w) = wr_world w \<and> wr_rr (fold (add_env en) l w) = wr_rr w \<and>
      wr_body_sent (fold (add_env en) l w) = wr_body_sent w \<and> wr_log (fold (add_env en) l w) = wr_log w" for l and w :: "'a worker"
    by (induction l arbitrary: w) (simp_all add: add_env_def)
  have h: "wr_world (fold (add_header cu en) l w) = wr_world w \<and> wr_rr (fold (add_header cu en) l w) = wr_rr w \<and>
      wr_body_sent (fold (add_header cu en) l w) = wr_body_sent w \<and> wr_log (fold (add_header cu en) l w) = wr_log w" for l and w :: "'a worker"
    by (induction l arbitrary: w) (auto simp: add_header_def Let_def)
  show "wr_world (new_worker cu en rr h x) = x" "wr_rr (new_worker cu en rr h x) = rr"
    "wr_body_sent (new_worker cu en rr h x) = False" "wr_log (new_worker cu en rr h x) = []"
    using h e by (simp_all add: new_worker_def Let_def blank_worker_def)
qed

section \<open>Properties\<close>

text \<open>C5: a request, from the hook of httpd to ASP.NET and back. When the request passes the checks and
  lies below a mount whose host is connected, the filters deliver the first part of its body and ASP.NET,
  whatever it does to the worker request, ends it, then the host's handler returns, and the hook
  returns \<open>OK\<close> if a body was sent and the status in the request record otherwise. What ASP.NET sees of the request is
  that of a new worker request with the bytes of the first part; httpd gets the record as the worker request
  left it, the factory is as it was, and the native module logs nothing.\<close>

theorem request_served:
  assumes "find_mount (iter sc) (the (r_uri r)) = Some a" "g_host_store g a = Some hc" "g_pHostFactory g \<noteq> None"
      "check_request dc r = None" "\<not> FAILED (co_init ciex ci)"
    and "factory_wf (fs_fac f)" "valid_key (fs_fac f) (h_host_key hc)" "obj_at (fs_fac f) (h_host_key hc) = Some p"
      "sv_hosts (fs_world f) p = Some ho"
      "hosts_run env (HostHandleRequest api get blen cu en process e_str meanwhile)"
    and "utf8_nonempty en" "\<And>e. e_str e \<noteq> []" "body_filter get remaining" "measures_brigades get blen"
      "get 49152 (sv_world (fs_world f)) = (APR_SUCCESS, bb, x)"
    and "\<And>w. worker_run api get en w (snd (process w))" "\<And>w. worker_run api get en w (meanwhile w)"
      "\<And>w. wr_wait_complete w \<noteq> None \<Longrightarrow> wr_wait_complete (meanwhile w) = Some True"
  shows "\<exists>w status f'.
    HostHandleRequest api get blen cu en process e_str meanwhile ho (cg (cv r)) (sv_world (fs_world f)) =
      Some (Inr status, w, []) \<and>
    asp_net_handler (factory_call env interfere hr_of desc_of) cv cg ciex ci iter g sc dc r f =
      (Status status, wr_rr w, f', []) \<and>
    status = (if wr_body_sent w then OK else r_status (wr_rr w)) \<and>
    fs_fac f' = fs_fac f \<and> sv_world (fs_world f') = wr_world w \<and>
    request_view w = request_view ((new_worker cu en (cg (cv r)) ho (sv_world (fs_world f)))\<lparr>wr_preread_body := Some (bb_data bb)\<rparr>)"
proof -
  let ?w = "new_worker cu en (cg (cv r)) ho (sv_world (fs_world f))"
  let ?start = "?w\<lparr>wr_wait_complete := Some False\<rparr>"
  have "get 49152 (wr_world ?start) = (APR_SUCCESS, bb, x)" using assms(15) by (simp add: new_worker_start)
  from preread_ok [OF assms(13,14) this, of en] obtain w1 where
    w1: "preread get blen en ?start = (Inr True, w1)" "wr_wait_complete w1 = Some False"
      "request_view w1 = request_view (?w\<lparr>wr_preread_body := Some (bb_data bb)\<rparr>)"
    by (auto simp: request_view_def)
  let ?v = "meanwhile (processed api (process w1))"
  have g: "grows w1 (processed api (process w1))"
    using grows_processed [OF assms(16) [of w1], where r = "fst (process w1)"] by simp
  then have e: "wr_wait_complete ?v = Some True" using w1(2) assms(18) by (auto simp: grows_def)
  define status where "status = (if wr_body_sent ?v then OK else r_status (wr_rr ?v))"
  have "Handler api get blen en process e_str meanwhile ?w = Some (Inr status, ?v)"
    using Handler_processed [OF assms(11,12) w1(1), where api = api and process = process and meanwhile = meanwhile] e by (simp add: Let_def status_def)
  then have h: "HostHandleRequest api get blen cu en process e_str meanwhile ho (cg (cv r)) (sv_world (fs_world f)) =
      Some (Inr status, ?v, [])" by (simp add: HostHandleRequest_def)
  have "grows w1 ?v"
    using g worker_run_grows [OF assms(17)] by (auto intro: grows_trans)
  then have v: "request_view ?v = request_view (?w\<lparr>wr_preread_body := Some (bb_data bb)\<rparr>)" using w1(3) by (simp add: grows_def)
  let ?s = "(fs_world f)\<lparr>sv_request := cg (cv r)\<rparr>"
  have "ae_HandleRequest env p ?s = (Inr status, ?s\<lparr>sv_request := wr_rr ?v, sv_world := wr_world ?v,
      sv_log := sv_log ?s @ wr_log ?v @ []\<rparr>)"
    using assms(10) [unfolded hosts_run_def, rule_format, of ?s p ho status ?v "[]"] assms(9) h by simp
  from factory_call_connected [OF assms(6-8) this, of interfere hr_of desc_of]
  have "asp_net_handler (factory_call env interfere hr_of desc_of) cv cg ciex ci iter g sc dc r f =
      (Status status, wr_rr ?v, f\<lparr>fs_world := ?s\<lparr>sv_request := wr_rr ?v, sv_world := wr_world ?v,
        sv_log := sv_log ?s @ wr_log ?v @ []\<rparr>\<rparr>, [])"
    using assms(1-5) by (auto simp: asp_net_handler_def handler_status_def Let_def)
  then show ?thesis
    using h v by (intro exI [of _ ?v] exI [of _ status] exI conjI) (assumption | simp add: status_def)+
qed

text \<open>
  A server with one mount whose host is connected; ASP.NET ends the request at once, and so
  do the other threads.
\<close>

abbreviation sample_length :: "in_bucket list \<Rightarrow> apr_status_t \<times> int" where
  "sample_length \<equiv> \<lambda>bb. (APR_SUCCESS, int (length (bb_data bb)))"

definition end_now :: "string worker \<Rightarrow> string worker" where
  "end_now w = snd (EndOfRequest (sample_api []) w)"

definition sample_handle ::
  "host \<Rightarrow> request_rec \<Rightarrow> string \<Rightarrow> ((read_stop + int) \<times> string worker \<times> log_entry list) option" where
  "sample_handle = HostHandleRequest (sample_api []) sample_get sample_length ordinal_culture ascii_encodings
     (EndOfRequest (sample_api [])) (\<lambda>_. wL ''e'') end_now"

definition serving_env :: "string served app_env" where
  "serving_env = \<lparr>ae_encodings = ascii_encodings, ae_culture = ordinal_culture,
     ae_ToString = (\<lambda>_. wL ''e''), ae_CreateApplicationHost = (\<lambda>v p w. (Inr (Some 1), w)),
     ae_Configure = (\<lambda>h v p k m w. (Inr (), w)),
     ae_HandleRequest = (\<lambda>p s.
       case sv_hosts s p of
         None \<Rightarrow> (Inl NullReference, s)
       | Some h \<Rightarrow>
           (case sample_handle h (sv_request s) (sv_world s) of
              Some (Inr status, w, log) \<Rightarrow>
                (Inr status, s\<lparr>sv_request := wr_rr w, sv_world := wr_world w, sv_log := sv_log s @ wr_log w @ log\<rparr>)
            | _ \<Rightarrow> (Inl OtherException, s)))\<rparr>"

definition served_state :: "string served fstate" where
  "served_state =
     \<lparr>fs_fac = fs_fac (sample_state (Some 1) 1),
      fs_world = \<lparr>sv_hosts = [1 \<mapsto> sample_host], sv_request = request_zero, sv_world = ''abcdefg'', sv_log = []\<rparr>,
      fs_log = []\<rparr>"

definition served_conf :: asp_net_conf where
  "served_conf = sample_conf\<lparr>g_host_store :=
     [0 \<mapsto> (the (g_host_store sample_conf 0))\<lparr>h_host_key := 0\<rparr>]\<rparr>"

lemma serving_hosts_run: "hosts_run serving_env sample_handle"
  by (simp add: hosts_run_def serving_env_def)

lemma end_now_ends: "wr_wait_complete w \<noteq> None \<Longrightarrow> wr_wait_complete (end_now w) = Some True"
  by (cases "wr_eosnCallback w")
    (auto simp: end_now_def EndOfRequest_def fire_callback_def worker_world_def sample_api_def meth_defs)

lemma end_now_step: "worker_run (sample_api []) sample_get ascii_encodings w (end_now w)"
  unfolding worker_run_def end_now_def by (rule r_into_rtranclp, rule step_end) (rule prod.collapse [symmetric])

theorem request_served_witness:
  "\<exists>status r' f'. asp_net_handler (factory_call serving_env id (\<lambda>_. E_FAIL) (\<lambda>_. None)) id id S_OK S_OK
     (\<lambda>_. [sample_alias]) served_conf sample_srv create_asp_net_dirconf (sample_request ''/app/x.aspx'') served_state =
     (Status status, r', f', [])"
proof -
  let ?r = "sample_request ''/app/x.aspx''"
  have m: "find_mount [sample_alias] (the (r_uri ?r)) = Some 0" by code_simp
  have hc: "g_host_store served_conf 0 = Some ((the (g_host_store sample_conf 0))\<lparr>h_host_key := 0\<rparr>)"
    "g_pHostFactory served_conf \<noteq> None" by (simp_all add: served_conf_def sample_defs)
  have ci: "\<not> FAILED (co_init S_OK S_OK)" by (simp add: co_init_def RPC_E_CHANGED_MODE_def S_OK_def FAILED_def)
  let ?k = "h_host_key ((the (g_host_store sample_conf 0))\<lparr>h_host_key := 0\<rparr>)"
  have f: "factory_wf (fs_fac served_state)" "valid_key (fs_fac served_state) ?k" "obj_at (fs_fac served_state) ?k = Some 1"
    "sv_hosts (fs_world served_state) 1 = Some sample_host" by (simp_all add: served_state_def)
  have e: "wL ''e'' \<noteq> []" by code_simp
  have b: "measures_brigades sample_get sample_length" by (simp add: measures_brigades_def)
  have d: "sample_get 49152 (sv_world (fs_world served_state)) = (APR_SUCCESS, [InFlush, InData APR_SUCCESS ''abc''], ''defg'')"
    by (simp add: sample_get_def served_state_def)
  show ?thesis
    using request_served [where iter = "\<lambda>_. [sample_alias]" and sc = sample_srv and cv = id and cg = id and env = serving_env and
        process = "EndOfRequest (sample_api [])" and meanwhile = end_now and interfere = id and hr_of = "\<lambda>_. E_FAIL" and
        desc_of = "\<lambda>_. None", OF m hc sample_checks [of "''app/x.aspx''"] ci f
        serving_hosts_run [unfolded sample_handle_def] utf8_nonempty_ascii e sample_get_filter b d
        end_now_step [unfolded end_now_def] end_now_step end_now_ends] by blast
qed

section \<open>A server that serves\<close>

text \<open>
  Any number of requests one after the other, each with what other threads do to the host objects in
  between: the results of the hook with what it logs, and the factory afterwards.
\<close>

fun serve_all ::
  "'w served app_env \<Rightarrow> (exn \<Rightarrow> hresult) \<Rightarrow> (exn \<Rightarrow> c_ptr) \<Rightarrow> (request_rec \<Rightarrow> request_rec) \<Rightarrow> (request_rec \<Rightarrow> request_rec) \<Rightarrow>
   hresult \<Rightarrow> hresult \<Rightarrow> (asp_net_srvconf \<Rightarrow> asp_net_alias list) \<Rightarrow> asp_net_conf \<Rightarrow> asp_net_srvconf \<Rightarrow> asp_net_dirconf \<Rightarrow>
   (request_rec \<times> ('w served fstate \<Rightarrow> 'w served fstate)) list \<Rightarrow> 'w served fstate \<Rightarrow>
   (handler_result \<times> log_entry list) list \<times> 'w served fstate" where
  "serve_all env hr_of desc_of cv cg ciex ci order g sc dc [] f = ([], f)"
| "serve_all env hr_of desc_of cv cg ciex ci order g sc dc ((r, interfere) # rs) f =
     (case asp_net_handler (factory_call env interfere hr_of desc_of) cv cg ciex ci order g sc dc r f of
        (res, r, f, log) \<Rightarrow>
          (case serve_all env hr_of desc_of cv cg ciex ci order g sc dc rs f of (out, f) \<Rightarrow> ((res, log) # out, f)))"

lemma factory_call_returns:
  assumes "factory_wf (fs_fac f)" "valid_key (fs_fac f) k" "texts_ok env"
    "\<forall>t. kept (fs_fac f) (f_locks (fs_fac f)) t \<longrightarrow> kept (fs_fac f) (f_locks (fs_fac f)) (interfere t)"
  shows "\<exists>st r' f'. factory_call env interfere hr_of desc_of k r f = (Inr st, r', f') \<and>
    f_locks (fs_fac f') = f_locks (fs_fac f) \<and> same_mounts (fs_fac f) (fs_fac f')"
proof -
  let ?f = "f\<lparr>fs_world := (fs_world f)\<lparr>sv_request := r\<rparr>\<rparr>"
  have "fs_fac ?f = fs_fac f" by simp
  then obtain st f' where "HandleHostRequest env interfere k ?f = (Inr st, f')"
      "f_locks (fs_fac f') = f_locks (fs_fac f)" "same_mounts (fs_fac f) (fs_fac f')"
    using HandleHostRequest_returns [of ?f k env interfere] assms by auto
  then show ?thesis by (simp add: factory_call_def)
qed

lemma serve_all_served:
  fixes f :: "'w served fstate"
  assumes "factory_wf (fs_fac f)" "texts_ok env"
    and "\<And>r handle fw. r \<in> fst ` set rs \<Longrightarrow> \<exists>k. valid_key (fs_fac f) k \<and>
        asp_net_handler handle cv cg ciex ci order g sc dc r (fw :: 'w served fstate) =
          (let (res, r, fw) = handle k (cg (cv r)) fw; (st, log) = handler_status res in (Status st, r, fw, log))"
    and "\<And>i. i \<in> snd ` set rs \<Longrightarrow>
        \<forall>f' t. same_mounts (fs_fac f) f' \<longrightarrow> kept f' (f_locks f') t \<longrightarrow> kept f' (f_locks f') (i t)"
  shows "case serve_all env hr_of desc_of cv cg ciex ci order g sc dc rs f of (out, f') \<Rightarrow>
    length out = length rs \<and> (\<forall>o1\<in>set out. \<exists>st. o1 = (Status st, [])) \<and>
    same_mounts (fs_fac f) (fs_fac f') \<and> f_locks (fs_fac f') = f_locks (fs_fac f)"
  using assms
proof (induction rs arbitrary: f)
  case (Cons ri rs)
  obtain r i where ri: "ri = (r, i)" by fastforce
  have "r \<in> fst ` set (ri # rs)" using ri by simp
  from Cons.prems(3) [OF this, of "factory_call env i hr_of desc_of" f] obtain k where k: "valid_key (fs_fac f) k"
      "asp_net_handler (factory_call env i hr_of desc_of) cv cg ciex ci order g sc dc r f =
         (let (res, r, fw) = factory_call env i hr_of desc_of k (cg (cv r)) f; (st, log) = handler_status res
          in (Status st, r, fw, log))" by blast
  let ?n = "f_locks (fs_fac f)"
  have "\<forall>t. kept (fs_fac f) ?n t \<longrightarrow> kept (fs_fac f) ?n (i t)"
    using Cons.prems(4) [of i] ri by simp
  from factory_call_returns [OF Cons.prems(1) k(1) Cons.prems(2) this] obtain st r' f1 where
    c: "factory_call env i hr_of desc_of k (cg (cv r)) f = (Inr st, r', f1)" "f_locks (fs_fac f1) = ?n"
      "same_mounts (fs_fac f) (fs_fac f1)" by blast
  have h: "asp_net_handler (factory_call env i hr_of desc_of) cv cg ciex ci order g sc dc r f = (Status st, r', f1, [])"
    using k(2) c(1) by (simp add: handler_status_def)
  have "case serve_all env hr_of desc_of cv cg ciex ci order g sc dc rs f1 of (out, f') \<Rightarrow>
    length out = length rs \<and> (\<forall>o1\<in>set out. \<exists>st. o1 = (Status st, [])) \<and>
    same_mounts (fs_fac f1) (fs_fac f') \<and> f_locks (fs_fac f') = f_locks (fs_fac f1)"
  proof (rule Cons.IH [OF same_mounts_wf [OF c(3) Cons.prems(1)] Cons.prems(2)])
    fix q handle and fw :: "'w served fstate"
    assume "q \<in> fst ` set rs"
    then show "\<exists>k. valid_key (fs_fac f1) k \<and> asp_net_handler handle cv cg ciex ci order g sc dc q fw =
          (let (res, r, fw) = handle k (cg (cv q)) fw; (st, log) = handler_status res in (Status st, r, fw, log))"
      using Cons.prems(3) [of q handle fw] valid_key_mounts [OF c(3)] by auto
  next
    fix j assume "j \<in> snd ` set rs"
    then show "\<forall>f' t. same_mounts (fs_fac f1) f' \<longrightarrow> kept f' (f_locks f') t \<longrightarrow> kept f' (f_locks f') (j t)"
      using Cons.prems(4) [of j] same_mounts_trans [OF c(3)] by auto
  qed
  then show ?case
    using h c(2,3) ri by (auto split: prod.splits intro: same_mounts_trans)
qed simp

text \<open>C6: from the configuration on, the server keeps serving. After a successful start with the factory's own
  \<open>CreateHost\<close>, any sequence of requests that pass the checks below mounts of the server is answered,
  each by a status that the factory gives, whatever the application domains do, be it that a call throws, a domain
  is gone or cannot be created again, and whatever other threads do to the host objects: the
  native handler follows no null pointer, sees no error of COM and logs nothing, and the mounts and the monitor of the
  factory stay what they are.\<close>

theorem server_keeps_serving:
  fixes aenv :: "'w served app_env"
  assumes "asp_net_post_config env ci ciex (com_create aenv hr_of) u8w acp server iter s f = (Some OK, s', f')"
    "keys_agree (\<lambda>s. factory_entry (fs_fac s)) (\<lambda>p. Replace p slash backslash) (to_bstr u8w acp) (es_conf s) f"
    "factory_wf (fs_fac f)" "texts_ok aenv"
    "\<forall>g. g_hosts g = g_hosts (es_conf s) \<longrightarrow> set (iter g) = ran (g_hosts (es_conf s))"
    "store_mounted (es_conf s)" "aliases_wf (es_conf s) sc" "set (order sc) = ran (sc_aliases sc)"
    "\<not> FAILED (co_init rciex rci)"
    "\<forall>(r, i)\<in>set rs. check_request dc r = None \<and> (\<exists>u\<in>dom (sc_aliases sc). covers u (the (r_uri r))) \<and>
       (\<forall>f1 t. kept f1 (f_locks f1) t \<longrightarrow> kept f1 (f_locks f1) (i t))"
  shows "case serve_all aenv com_hr desc_of cv cg rciex rci order (es_conf s') sc dc rs f' of (out, f'') \<Rightarrow>
    length out = length rs \<and> (\<forall>o1\<in>set out. \<exists>st. o1 = (Status st, [])) \<and>
    same_mounts (fs_fac f') (fs_fac f'') \<and> f_locks (fs_fac f'') = f_locks (fs_fac f')"
proof (rule serve_all_served)
  show "factory_wf (fs_fac f')" using hosts_registered [OF assms(1,2,3,5)] by blast
  show "texts_ok aenv" by (rule assms(4))
next
  fix r handle and fw :: "'w served fstate"
  assume "r \<in> fst ` set rs"
  then obtain u where u: "check_request dc r = None" "u \<in> dom (sc_aliases sc)" "covers u (the (r_uri r))"
    using assms(10) by fastforce
  show "\<exists>k. valid_key (fs_fac f') k \<and> asp_net_handler handle cv cg rciex rci order (es_conf s') sc dc r fw =
      (let (res, r, fw) = handle k (cg (cv r)) fw; (st, log) = handler_status res in (Status st, r, fw, log))"
    using mounted_request [where handle = handle and cv = cv and cg = cg and fw = fw and order = order,
        OF assms(1,2,3,5-8) u(1) assms(9) u(2,3)] by blast
next
  fix i assume "i \<in> snd ` set rs"
  then show "\<forall>f1 t. same_mounts (fs_fac f') f1 \<longrightarrow> kept f1 (f_locks f1) t \<longrightarrow> kept f1 (f_locks f1) (i t)"
    using assms(10) by fastforce
qed

text \<open>A start with the environment of \<open>serving_env\<close>, and two requests; the host object is cleared before the second.\<close>

definition served_start :: "string served fstate" where
  "served_start = \<lparr>fs_fac = new_factory, fs_world = fs_world served_state, fs_log = []\<rparr>"

abbreviation served_post where
  "served_post \<equiv> asp_net_post_config good_env S_OK S_OK (com_create serving_env (\<lambda>_. E_FAIL)) (\<lambda>_. None) wL None
     (\<lambda>_. [0]) started_state served_start"

definition sample_requests :: "(request_rec \<times> (string served fstate \<Rightarrow> string served fstate)) list" where
  "sample_requests = [(sample_request ''/App/x.aspx'', id), (sample_request ''/app/y.aspx'', put_obj 0 None)]"

lemma served_post_run: "\<exists>s' f'. served_post = (Some OK, s', f')"
proof -
  have "case served_post of (r, s', f') \<Rightarrow> r = Some OK" by code_simp
  then show ?thesis by (auto split: prod.splits)
qed

theorem server_keeps_serving_witness:
  "\<exists>s' f'. served_post = (Some OK, s', f') \<and>
     (case serve_all serving_env (\<lambda>_. E_FAIL) (\<lambda>_. None) id id S_OK S_OK (\<lambda>_. [sample_alias]) (es_conf s')
        sample_srv create_asp_net_dirconf sample_requests f' of
      (out, f'') \<Rightarrow> length out = 2 \<and> (\<forall>o1\<in>set out. \<exists>st. o1 = (Status st, [])))"
proof -
  obtain s' f' where r: "served_post = (Some OK, s', f')" using served_post_run by blast
  have wf: "factory_wf (fs_fac served_start)" by (simp add: served_start_def new_factory_def factory_wf_def)
  have tx: "texts_ok serving_env" by (simp add: texts_ok_def serving_env_def wL_def)
  have ci: "\<not> FAILED (co_init S_OK S_OK)" by (simp add: co_init_def RPC_E_CHANGED_MODE_def S_OK_def FAILED_def)
  have c: "covers ''/app'' ''/App/x.aspx''" "covers ''/app'' ''/app/y.aspx''" by code_simp+
  have u: "the (r_uri (sample_request q)) = q" for q by (simp add: sample_request_def)
  have rs: "\<forall>(r, i)\<in>set sample_requests. check_request create_asp_net_dirconf r = None \<and>
      (\<exists>u\<in>dom (sc_aliases sample_srv). covers u (the (r_uri r))) \<and>
      (\<forall>f1 t. kept f1 (f_locks f1) t \<longrightarrow> kept f1 (f_locks f1) (i t))"
    using c by (auto simp: sample_requests_def sample_checks u sample_srv_def kept_put_obj)
  from server_keeps_serving [where order = "\<lambda>_. [sample_alias]" and cv = id and cg = id and com_hr = "\<lambda>_. E_FAIL" and
      desc_of = "\<lambda>_. None", OF r started_keys wf tx started_iter started_mounted started_aliases sample_ran ci rs]
  have "case serve_all serving_env (\<lambda>_. E_FAIL) (\<lambda>_. None) id id S_OK S_OK (\<lambda>_. [sample_alias]) (es_conf s')
        sample_srv create_asp_net_dirconf sample_requests f' of
      (out, f'') \<Rightarrow> length out = length sample_requests \<and> (\<forall>o1\<in>set out. \<exists>st. o1 = (Status st, [])) \<and>
        same_mounts (fs_fac f') (fs_fac f'') \<and> f_locks (fs_fac f'') = f_locks (fs_fac f')" .
  then show ?thesis by (intro exI conjI) (rule r, auto simp: sample_requests_def split: prod.splits)
qed

section \<open>The destructor of a host\<close>

text \<open>C40: the destructor of a host never throws. It takes the host out of a live factory when the entry of
  its key still is this host, and changes nothing else; but when the factory has been destroyed,
  or does not have the key, the exception it ignores has left the monitor of the factory held, for ever.\<close>

theorem Host_destructor_correct:
  assumes "factory_wf (fs_fac s)"
  shows "(hs_thisFactory ho = None \<longrightarrow> Host_destructor ho h s = (Inr (), s)) \<and>
    (hs_thisFactory ho \<noteq> None \<and> valid_key (fs_fac s) (hs_thisHostKey ho) \<longrightarrow>
       Host_destructor ho h s =
         (Inr (), if obj_at (fs_fac s) (hs_thisHostKey ho) = Some h then put_obj (hs_thisHostKey ho) None s else s)) \<and>
    (hs_thisFactory ho \<noteq> None \<and> \<not> valid_key (fs_fac s) (hs_thisHostKey ho) \<longrightarrow>
       Host_destructor ho h s = (Inr (), locked s)) \<and>
    (hs_thisFactory ho \<noteq> None \<longrightarrow> Host_destructor ho h (snd (Destroy s)) = (Inr (), locked (snd (Destroy s))))"
  using HostFinalized_cases [OF assms, of "hs_thisHostKey ho" h]
  by (auto simp: Host_destructor_def otry_def oreturn_def othrow_def)

theorem Host_destructor_correct_witness:
  "Host_destructor (sample_host\<lparr>hs_thisFactory := Some 1, hs_thisHostKey := 7\<rparr>) 1 (sample_state (Some 1) 1) =
     (Inr (), locked (sample_state (Some 1) 1))"
  using Host_destructor_correct [OF sample_live(1), where ho = "sample_host\<lparr>hs_thisFactory := Some 1, hs_thisHostKey := 7\<rparr>" and
      p1 = "Some 1" and w1 = 1 and h = 1]
  by (simp add: valid_key_def sample_state_def)

end
