(* ===== verification/Quick_Search.thy ===== *)
theory Quick_Search
  imports Asp_Prelude "HOL-Library.Word"
begin

unbundle bit_operations_syntax

text \<open>
  The search of the fixed drives for a file (\<open>msi_dll/quicksearch.c\<close>). All calls share one
  buffer for the path; each appends a directory name, searches below it and cuts the path
  again. The file system is a record of functions, a snapshot taken at the start; the calls that
  open, advance and close an enumeration of it are recorded.
\<close>

section \<open>The path buffer\<close>

definition MAX_PATH :: nat where "MAX_PATH = 260"

text \<open>The calls on the handle of an enumeration; a handle is named by its place among them.\<close>

datatype find_call =
    FindFirst nat string
  | FindNext nat
  | FindClose nat

text \<open>
  The buffer, what the callback's argument points to, and the calls that enumerate directories.
  A write past the end of the buffer is a fault.
\<close>

record 's search =
  se_buf :: string
  se_arg :: 's
  se_finds :: "find_call list"

datatype path_fault = PathOverrun

definition store :: "nat \<Rightarrow> char \<Rightarrow> ('s search, path_fault, unit) run" where
  "store i c s =
     (if i < length (se_buf s) then (Inr (), s\<lparr>se_buf := (se_buf s)[i := c]\<rparr>) else (Inl PathOverrun, s))"

definition copy :: "nat \<Rightarrow> string \<Rightarrow> ('s search, path_fault, unit) run" where
  "copy i bytes s =
     (if i + length bytes \<le> length (se_buf s)
      then (Inr (), s\<lparr>se_buf := take i (se_buf s) @ bytes @ drop (i + length bytes) (se_buf s)\<rparr>)
      else (Inl PathOverrun, s))"

section \<open>The file system\<close>

text \<open>
  An entry of a directory is its name and whether it is a directory. \<open>fs_find\<close> gives what
  \<open>FindFirstFileEx\<close> and \<open>FindNextFile\<close> enumerate for a pattern, \<open>[]\<close> for an invalid handle;
  \<open>'f\<close> is the type of file attributes.
\<close>

record 'f file_system =
  fs_attrs :: "string \<Rightarrow> 'f option"
  fs_find :: "string \<Rightarrow> (string \<times> bool) list"
  fs_fixed :: "string \<Rightarrow> bool"

text \<open>A byte of a C string, and the test that leaves out the directories \<open>.\<close> and \<open>..\<close>.\<close>

definition char_at :: "string \<Rightarrow> nat \<Rightarrow> char" where
  "char_at s i = (if i < length s then s ! i else NUL)"

definition not_dots :: "string \<Rightarrow> bool" where
  "not_dots name \<longleftrightarrow>
     char_at name 0 \<noteq> CHR ''.'' \<or>
     (char_at name 1 \<noteq> NUL \<and> (char_at name 1 \<noteq> CHR ''.'' \<or> char_at name 2 \<noteq> NUL))"

section \<open>volsearch\<close>

text \<open>The callback gets the length of the path; it works on the buffer.\<close>

type_synonym ('s, 'f) callback = "nat \<Rightarrow> 'f \<Rightarrow> ('s search, path_fault, unit) run"

text \<open>Up to the test of \<open>depth\<close>: the separator, the file asked for, and the callback if it is there.\<close>

definition probe ::
  "'f file_system \<Rightarrow> ('s, 'f) callback \<Rightarrow> string \<Rightarrow> nat \<Rightarrow> ('s search, path_fault, nat) run" where
  "probe fs cb findfile pathlen =
     obind (if pathlen > 3 then store pathlen (CHR 0x5C) else oreturn ()) (\<lambda>_.
     let pathlen = (if pathlen > 3 then pathlen + 1 else pathlen) in
     obind (copy pathlen (findfile @ [NUL])) (\<lambda>_.
     obind (oget (\<lambda>s. c_str (se_buf s))) (\<lambda>curpath.
     obind (case fs_attrs fs curpath of None \<Rightarrow> oreturn () | Some fi \<Rightarrow> cb pathlen fi) (\<lambda>_.
     oreturn pathlen))))"

text \<open>
  An enumeration: \<open>FindFirstFileEx\<close> opens it, unless nothing is found and the handle is invalid;
  after every entry \<open>FindNextFile\<close> is called, and when it fails the handle is closed.
\<close>

definition find_event :: "find_call \<Rightarrow> ('s search, path_fault, unit) run" where
  "find_event c = omap (\<lambda>s. s\<lparr>se_finds := se_finds s @ [c]\<rparr>)"

definition find_first :: "'f file_system \<Rightarrow> string \<Rightarrow> ('s search, path_fault, nat \<times> (string \<times> bool) list) run" where
  "find_first fs pat s =
     (let h = length (se_finds s); found = fs_find fs pat
      in (Inr (h, found), if found = [] then s else s\<lparr>se_finds := se_finds s @ [FindFirst h pat]\<rparr>))"

fun walk :: "('a \<Rightarrow> ('s search, path_fault, unit) run) \<Rightarrow> nat \<Rightarrow> 'a list \<Rightarrow> ('s search, path_fault, unit) run" where
  "walk f h [] = oreturn ()"
| "walk f h (x # xs) =
     obind (f x) (\<lambda>_.
     obind (find_event (FindNext h)) (\<lambda>_.
     if xs = [] then find_event (FindClose h) else walk f h xs))"

definition list_dir ::
  "'f file_system \<Rightarrow> nat \<Rightarrow> (string \<times> bool \<Rightarrow> ('s search, path_fault, unit) run) \<Rightarrow> ('s search, path_fault, unit) run" where
  "list_dir fs pathlen f =
     obind (store pathlen (CHR ''*'')) (\<lambda>_.
     obind (store (pathlen + 1) NUL) (\<lambda>_.
     obind (oget (\<lambda>s. c_str (se_buf s))) (\<lambda>curpath.
     obind (find_first fs curpath) (\<lambda>(h, found). walk f h found))))"

definition enters :: "string \<Rightarrow> nat \<Rightarrow> string \<times> bool \<Rightarrow> bool" where
  "enters findfile pathlen e \<longleftrightarrow>
     snd e \<and> not_dots (fst e) \<and> pathlen + length (fst e) + length findfile + 1 \<le> MAX_PATH"

text \<open>\<open>depth\<close> is not negative in any call of the program.\<close>

primrec volsearch ::
  "nat \<Rightarrow> 'f file_system \<Rightarrow> ('s, 'f) callback \<Rightarrow> string \<Rightarrow> nat \<Rightarrow> ('s search, path_fault, unit) run" where
  "volsearch 0 fs cb findfile pathlen =
     obind (probe fs cb findfile pathlen) (\<lambda>pathlen. store pathlen NUL)"
| "volsearch (Suc depth) fs cb findfile pathlen =
     obind (probe fs cb findfile pathlen) (\<lambda>pathlen.
     obind (list_dir fs pathlen
              (\<lambda>e. if enters findfile pathlen e
                    then obind (copy pathlen (fst e @ [NUL])) (\<lambda>_.
                         volsearch depth fs cb findfile (pathlen + length (fst e)))
                    else oreturn ())) (\<lambda>_.
     store pathlen NUL))"

section \<open>drsearch\<close>

text \<open>\<open>++search[0]\<close>, on a byte.\<close>

definition next_letter :: "('s search, path_fault, unit) run" where
  "next_letter = obind (oget se_buf) (\<lambda>buf. store 0 (char_of (of_char (buf ! 0) + 1 :: nat)))"

lemma drop_bit_1_less: "w \<noteq> 0 \<Longrightarrow> unat (drop_bit (Suc 0) w) < unat (w :: 32 word)"
proof -
  assume "w \<noteq> 0"
  then have "0 < unat w" by (simp add: unat_gt_0)
  moreover have "unat (drop_bit (Suc 0) w) = unat w div 2"
    by (subst unat_drop_bit_eq) (simp add: drop_bit_Suc)
  ultimately show ?thesis by simp
qed

function drives_loop ::
  "'f file_system \<Rightarrow> ('s, 'f) callback \<Rightarrow> string \<Rightarrow> nat \<Rightarrow> 32 word \<Rightarrow> ('s search, path_fault, unit) run" where
  "drives_loop fs cb findfile depth drives =
     (if drives = 0 then oreturn ()
      else
        obind (if drives AND 1 \<noteq> 0 then
                 obind (store 3 NUL) (\<lambda>_.
                 obind (oget (\<lambda>s. c_str (se_buf s))) (\<lambda>search.
                 if fs_fixed fs search then volsearch depth fs cb findfile 3 else oreturn ()))
               else oreturn ()) (\<lambda>_.
        obind next_letter (\<lambda>_.
        drives_loop fs cb findfile depth (drop_bit 1 drives))))"
  by pat_completeness auto

termination
  by (relation "measure (\<lambda>(fs, cb, findfile, depth, drives). unat drives)") (simp_all add: drop_bit_1_less)

declare drives_loop.simps [simp del]

text \<open>\<open>junk\<close> is what is in the buffer on the stack; \<open>drives\<close> is the mask of \<open>GetLogicalDrives\<close>.\<close>

definition drsearch ::
  "'f file_system \<Rightarrow> 32 word \<Rightarrow> string \<Rightarrow> ('s, 'f) callback \<Rightarrow> string \<Rightarrow> nat \<Rightarrow> 's \<Rightarrow> (path_fault + unit) \<times> 's search" where
  "drsearch fs drives junk cb findfile depth arg =
     obind (store 0 (CHR ''A'')) (\<lambda>_. obind (store 1 (CHR '':'')) (\<lambda>_. obind (store 2 (CHR 0x5C)) (\<lambda>_.
       drives_loop fs cb findfile depth drives))) \<lparr>se_buf = junk, se_arg = arg, se_finds = []\<rparr>"

section \<open>What the search finds\<close>

text \<open>
  The directories of the file system, apart from the search: the names of the directories in one, and
  the directories \<open>n\<close> steps below a root. \<open>base\<close> is the path with a separator at its end, which
  the root of a drive has already.
\<close>

definition base :: "string \<Rightarrow> string" where
  "base dir = (if length dir > 3 then dir @ [CHR 0x5C] else dir)"

definition subdirectories :: "'f file_system \<Rightarrow> string \<Rightarrow> string list" where
  "subdirectories fs dir =
     map fst (filter (\<lambda>(name, is_dir). is_dir \<and> name \<notin> {''.'', ''..''}) (fs_find fs (base dir @ ''*'')))"

inductive below :: "'f file_system \<Rightarrow> string \<Rightarrow> nat \<Rightarrow> string \<Rightarrow> bool" for fs :: "'f file_system" and root :: string where
  below_root: "below fs root 0 root"
| below_step: "below fs root n dir \<Longrightarrow> name \<in> set (subdirectories fs dir) \<Longrightarrow> below fs root (Suc n) (base dir @ name)"

text \<open>The path of a directory, a separator and the file fit into \<open>MAX_PATH\<close>.\<close>

definition fits_path :: "string \<Rightarrow> string \<Rightarrow> bool" where
  "fits_path findfile dir \<longleftrightarrow> length dir + 1 + length findfile \<le> MAX_PATH"

text \<open>
  The search without the buffer: the directory itself and those below it, to the given depth, that
  hold the file, each with a separator at its end, a directory before those below it.
\<close>

definition hit :: "'f file_system \<Rightarrow> string \<Rightarrow> string \<Rightarrow> (string \<times> 'f) list" where
  "hit fs findfile dir =
     (case fs_attrs fs (base dir @ findfile) of None \<Rightarrow> [] | Some fi \<Rightarrow> [(base dir, fi)])"

primrec hits :: "nat \<Rightarrow> 'f file_system \<Rightarrow> string \<Rightarrow> string \<Rightarrow> (string \<times> 'f) list" where
  "hits 0 fs findfile dir = hit fs findfile dir"
| "hits (Suc depth) fs findfile dir =
     hit fs findfile dir @
     concat (map (hits depth fs findfile)
       (filter (fits_path findfile) (map (\<lambda>name. base dir @ name) (subdirectories fs dir))))"

definition drive_root :: "nat \<Rightarrow> string" where
  "drive_root k = [char_of (65 + k), CHR '':'', CHR 0x5C]"

definition drive_hits :: "nat \<Rightarrow> 'f file_system \<Rightarrow> string \<Rightarrow> 32 word \<Rightarrow> (string \<times> 'f) list" where
  "drive_hits depth fs findfile drives =
     concat (map (\<lambda>k. if bit drives k \<and> fs_fixed fs (drive_root k) then hits depth fs findfile (drive_root k) else [])
       [0..<32])"

lemma drive_root_simps [simp]: "length (drive_root k) = 3" "base (drive_root k) = drive_root k"
  by (simp_all add: drive_root_def base_def)

lemma NUL_drive_root: "k < 32 \<Longrightarrow> NUL \<notin> set (drive_root k)"
proof -
  assume "k < 32"
  then have "(of_char (char_of (65 + k) :: char) :: nat) \<noteq> of_char NUL" by simp
  then have "char_of (65 + k) \<noteq> NUL" by metis
  then show ?thesis by (simp add: drive_root_def)
qed

text \<open>Names of a file system hold no NUL.\<close>

definition fs_names_ok :: "'f file_system \<Rightarrow> bool" where
  "fs_names_ok fs \<longleftrightarrow> (\<forall>pat. \<forall>e \<in> set (fs_find fs pat). NUL \<notin> set (fst e))"

text \<open>The code's test of an entry, a comparison of single characters, is the one on names.\<close>

lemma not_dots_names: "NUL \<notin> set name \<Longrightarrow> not_dots name \<longleftrightarrow> name \<notin> {''.'', ''..''}"
proof -
  assume n: "NUL \<notin> set name"
  consider "name = []" | a where "name = [a]" | a b where "name = [a, b]" | a b c t where "name = a # b # c # t"
    by (metis neq_Nil_conv)
  then show "not_dots name \<longleftrightarrow> name \<notin> {''.'', ''..''}"
    by cases (use n in \<open>auto simp: not_dots_def char_at_def\<close>)
qed

lemma enters_child:
  "NUL \<notin> set (fst e) \<Longrightarrow>
   enters findfile (length b) e \<longleftrightarrow> snd e \<and> fst e \<notin> {''.'', ''..''} \<and> fits_path findfile (b @ fst e)"
  unfolding enters_def by (auto simp: not_dots_names fits_path_def)

lemma hits_entries:
  assumes "fs_names_ok fs"
  shows "concat (map (hits depth fs findfile)
      (filter (fits_path findfile) (map (\<lambda>name. base dir @ name) (subdirectories fs dir)))) =
    concat (map (\<lambda>e. if enters findfile (length (base dir)) e then hits depth fs findfile (base dir @ fst e) else [])
      (fs_find fs (base dir @ ''*'')))"
proof -
  have "concat (map (hits depth fs findfile) (filter (fits_path findfile) (map (\<lambda>name. base dir @ name)
      (map fst (filter (\<lambda>(name, is_dir). is_dir \<and> name \<notin> {''.'', ''..''}) es))))) =
    concat (map (\<lambda>e. if enters findfile (length (base dir)) e then hits depth fs findfile (base dir @ fst e) else []) es)"
    if "\<forall>e\<in>set es. NUL \<notin> set (fst e)" for es
    using that by (induction es) (auto simp: enters_child split: prod.splits)
  from this [of "fs_find fs (base dir @ ''*'')"] assms show ?thesis unfolding subdirectories_def fs_names_ok_def by blast
qed

text \<open>How often the handle of an enumeration is open.\<close>

fun find_delta :: "nat \<Rightarrow> find_call \<Rightarrow> int" where
  "find_delta h (FindFirst x pat) = (if x = h then 1 else 0)"
| "find_delta h (FindNext x) = 0"
| "find_delta h (FindClose x) = (if x = h then -1 else 0)"

definition finds_held :: "nat \<Rightarrow> find_call list \<Rightarrow> int" where
  "finds_held h calls = sum_list (map (find_delta h) calls)"

lemma finds_held_simps [simp]:
  "finds_held h [] = 0" "finds_held h (c # cs) = find_delta h c + finds_held h cs"
  "finds_held h (a @ b) = finds_held h a + finds_held h b"
  by (simp_all add: finds_held_def)

lemma take_app_prefix: "take (length (p @ q)) buf = p @ q \<Longrightarrow> take (length p) buf = p"
  using arg_cong [where f = "take (length p)" and x = "take (length (p @ q)) buf"] by force

text \<open>
  What the search relies on: the callback may change the buffer behind the path, and nothing
  else of it; \<open>visit\<close> is its effect on what its argument points to.
\<close>

locale search_callback =
  fixes cb :: "nat \<Rightarrow> 'f \<Rightarrow> ('s search, path_fault, unit) run"
    and visit :: "string \<times> 'f \<Rightarrow> 's \<Rightarrow> 's"
  assumes cb_keeps: "n < length buf \<Longrightarrow>
    \<exists>buf'. cb n fi \<lparr>se_buf = buf, se_arg = x, se_finds = hs\<rparr> =
        (Inr (), \<lparr>se_buf = buf', se_arg = visit (take n buf, fi) x, se_finds = hs\<rparr>) \<and>
      length buf' = length buf \<and> take n buf' = take n buf"
begin

text \<open>
  A run that starts with the path \<open>p\<close> in the buffer, gives \<open>r\<close>, visits the directories \<open>vs\<close>,
  leaves the path \<open>q\<close> in the buffer and closes every enumeration it opens.
\<close>

definition visits :: "string \<Rightarrow> ('s search, path_fault, 'a) run \<Rightarrow> 'a \<Rightarrow> (string \<times> 'f) list \<Rightarrow> string \<Rightarrow> bool" where
  "visits p m r vs q \<longleftrightarrow>
     (\<forall>buf x hs. length buf = Suc MAX_PATH \<longrightarrow> take (length p) buf = p \<longrightarrow>
        (\<exists>buf' cs. m \<lparr>se_buf = buf, se_arg = x, se_finds = hs\<rparr> =
              (Inr r, \<lparr>se_buf = buf', se_arg = fold visit vs x, se_finds = hs @ cs\<rparr>) \<and>
           length buf' = Suc MAX_PATH \<and> take (length q) buf' = q \<and> (\<forall>h. finds_held h cs = 0)))"

lemma visitsI:
  assumes "\<And>buf x hs. length buf = Suc MAX_PATH \<Longrightarrow> take (length p) buf = p \<Longrightarrow>
    \<exists>buf' cs. m \<lparr>se_buf = buf, se_arg = x, se_finds = hs\<rparr> =
        (Inr r, \<lparr>se_buf = buf', se_arg = fold visit vs x, se_finds = hs @ cs\<rparr>) \<and>
      length buf' = Suc MAX_PATH \<and> take (length q) buf' = q \<and> (\<forall>h. finds_held h cs = 0)"
  shows "visits p m r vs q"
  using assms unfolding visits_def by blast

text \<open>Without an enumeration.\<close>

lemma visitsI_none:
  assumes "\<And>buf x hs. length buf = Suc MAX_PATH \<Longrightarrow> take (length p) buf = p \<Longrightarrow>
    \<exists>buf'. m \<lparr>se_buf = buf, se_arg = x, se_finds = hs\<rparr> = (Inr r, \<lparr>se_buf = buf', se_arg = fold visit vs x, se_finds = hs\<rparr>) \<and>
      length buf' = Suc MAX_PATH \<and> take (length q) buf' = q"
  shows "visits p m r vs q"
proof (rule visitsI)
  fix buf x hs assume "length buf = Suc MAX_PATH" "take (length p) buf = p"
  from assms [OF this, of x hs] show "\<exists>buf' cs. m \<lparr>se_buf = buf, se_arg = x, se_finds = hs\<rparr> =
      (Inr r, \<lparr>se_buf = buf', se_arg = fold visit vs x, se_finds = hs @ cs\<rparr>) \<and>
      length buf' = Suc MAX_PATH \<and> take (length q) buf' = q \<and> (\<forall>h. finds_held h cs = 0)"
    by (elim exE) (intro exI [of _ "[]"] exI, auto)
qed

lemma visitsE:
  assumes "visits p m r vs q" "length buf = Suc MAX_PATH" "take (length p) buf = p"
  obtains buf' cs where "m \<lparr>se_buf = buf, se_arg = x, se_finds = hs\<rparr> =
      (Inr r, \<lparr>se_buf = buf', se_arg = fold visit vs x, se_finds = hs @ cs\<rparr>)"
    "length buf' = Suc MAX_PATH" "take (length q) buf' = q" "\<forall>h. finds_held h cs = 0"
  using assms unfolding visits_def by blast

lemma visits_return: "visits p (oreturn r) r [] p"
  by (auto intro: visitsI_none)

lemma visits_obind:
  assumes "visits p m r vs q" "visits q (k r) r' ws q'"
  shows "visits p (obind m k) r' (vs @ ws) q'"
proof (rule visitsI)
  fix buf x hs assume b: "length buf = Suc MAX_PATH" "take (length p) buf = p"
  obtain buf1 c1 where 1: "m \<lparr>se_buf = buf, se_arg = x, se_finds = hs\<rparr> =
      (Inr r, \<lparr>se_buf = buf1, se_arg = fold visit vs x, se_finds = hs @ c1\<rparr>)"
      "length buf1 = Suc MAX_PATH" "take (length q) buf1 = q" "\<forall>h. finds_held h c1 = 0"
    by (rule visitsE [OF assms(1) b, where x = x and hs = hs])
  obtain buf2 c2 where "k r \<lparr>se_buf = buf1, se_arg = fold visit vs x, se_finds = hs @ c1\<rparr> =
      (Inr r', \<lparr>se_buf = buf2, se_arg = fold visit ws (fold visit vs x), se_finds = (hs @ c1) @ c2\<rparr>)"
      "length buf2 = Suc MAX_PATH" "take (length q') buf2 = q'" "\<forall>h. finds_held h c2 = 0"
    by (rule visitsE [OF assms(2) 1(2,3), where x = "fold visit vs x" and hs = "hs @ c1"])
  with 1(1,4) show "\<exists>buf' cs. obind m k \<lparr>se_buf = buf, se_arg = x, se_finds = hs\<rparr> =
      (Inr r', \<lparr>se_buf = buf', se_arg = fold visit (vs @ ws) x, se_finds = hs @ cs\<rparr>) \<and>
      length buf' = Suc MAX_PATH \<and> take (length q') buf' = q' \<and> (\<forall>h. finds_held h cs = 0)"
    by (intro exI [of _ buf2] exI [of _ "c1 @ c2"]) (simp add: obind_def)
qed

lemma visits_obindI:
  assumes "visits p m r vs q" "visits q (k r) r' ws q'" "us = vs @ ws"
  shows "visits p (obind m k) r' us q'"
  unfolding assms(3) using assms(1,2) by (rule visits_obind)

lemma visits_shorten: "visits p m r vs (q @ q') \<Longrightarrow> visits p m r vs q"
  unfolding visits_def using take_app_prefix by blast

lemma visits_return_prefix: "visits (p @ q) (oreturn r) r [] p"
  by (rule visits_shorten [OF visits_return])

lemma visits_longer: "visits p m r vs q \<Longrightarrow> visits (p @ p') m r vs q"
  unfolding visits_def using take_app_prefix by blast

lemma visits_copy:
  assumes "length p + length bytes \<le> Suc MAX_PATH"
  shows "visits p (copy (length p) bytes) () [] (p @ bytes)"
  using assms by (auto simp: copy_def intro!: visitsI_none)

lemma visits_store:
  assumes "length p \<le> MAX_PATH"
  shows "visits p (store (length p) c) () [] (p @ [c])"
proof (rule visitsI_none)
  fix buf x hs assume b: "length buf = Suc MAX_PATH" "take (length p) buf = p"
  then have "take (Suc (length p)) (buf[length p := c]) = p @ [c]"
    using assms by (simp add: take_Suc_conv_app_nth)
  with b assms show "\<exists>buf'. store (length p) c \<lparr>se_buf = buf, se_arg = x, se_finds = hs\<rparr> =
      (Inr (), \<lparr>se_buf = buf', se_arg = fold visit [] x, se_finds = hs\<rparr>) \<and>
      length buf' = Suc MAX_PATH \<and> take (length (p @ [c])) buf' = p @ [c]"
    by (simp add: store_def)
qed

lemma visits_callback:
  assumes "length p \<le> MAX_PATH"
  shows "visits p (cb (length p) fi) () [(p, fi)] p"
proof (rule visitsI_none)
  fix buf x hs assume b: "length buf = Suc MAX_PATH" "take (length p) buf = p"
  then show "\<exists>buf'. cb (length p) fi \<lparr>se_buf = buf, se_arg = x, se_finds = hs\<rparr> =
      (Inr (), \<lparr>se_buf = buf', se_arg = fold visit [(p, fi)] x, se_finds = hs\<rparr>) \<and>
      length buf' = Suc MAX_PATH \<and> take (length p) buf' = p"
    using cb_keeps [of "length p" buf fi x hs] assms by auto
qed

text \<open>The buffer read as a C string, when the path ends with a NUL.\<close>

lemma c_str_path: "take (length p + 1) buf = p @ [NUL] \<Longrightarrow> NUL \<notin> set p \<Longrightarrow> c_str buf = p"
  by (metis append_take_drop_id append.assoc append_Cons append_Nil c_str_app_NUL c_str_id)

lemma visits_read:
  assumes "NUL \<notin> set p" "visits (p @ [NUL]) (k p) r vs q"
  shows "visits (p @ [NUL]) (obind (oget (\<lambda>s. c_str (se_buf s))) k) r vs q"
  using assms(2) c_str_path [of p, OF _ assms(1)] unfolding visits_def by simp

text \<open>The entries of an enumeration, whose handle is closed at the end.\<close>

lemma walk_run:
  "(\<And>e. e \<in> set es \<Longrightarrow> visits p (f e) () (g e) p) \<Longrightarrow> es \<noteq> [] \<Longrightarrow> length buf = Suc MAX_PATH \<Longrightarrow> take (length p) buf = p \<Longrightarrow>
   \<exists>buf' cs. walk f h es \<lparr>se_buf = buf, se_arg = x, se_finds = hs\<rparr> =
       (Inr (), \<lparr>se_buf = buf', se_arg = fold visit (concat (map g es)) x, se_finds = hs @ cs\<rparr>) \<and>
     length buf' = Suc MAX_PATH \<and> take (length p) buf' = p \<and> (\<forall>h'. finds_held h' cs = (if h' = h then -1 else 0))"
proof (induction es arbitrary: buf x hs)
  case (Cons e es)
  have "visits p (f e) () (g e) p" using Cons.prems(1) by simp
  then obtain buf1 c1 where 1: "f e \<lparr>se_buf = buf, se_arg = x, se_finds = hs\<rparr> =
      (Inr (), \<lparr>se_buf = buf1, se_arg = fold visit (g e) x, se_finds = hs @ c1\<rparr>)"
      "length buf1 = Suc MAX_PATH" "take (length p) buf1 = p" "\<forall>h. finds_held h c1 = 0"
    by (rule visitsE [OF _ Cons.prems(3,4), where x = x and hs = hs])
  show ?case
  proof (cases "es = []")
    case True
    with 1 show ?thesis
      by (intro exI [of _ buf1] exI [of _ "c1 @ [FindNext h, FindClose h]"]) (simp add: obind_def find_event_def)
  next
    case False
    have "\<And>e. e \<in> set es \<Longrightarrow> visits p (f e) () (g e) p" using Cons.prems(1) by simp
    from Cons.IH [OF this False 1(2,3), of "fold visit (g e) x" "hs @ c1 @ [FindNext h]"] obtain buf2 c2 where
      "walk f h es \<lparr>se_buf = buf1, se_arg = fold visit (g e) x, se_finds = hs @ c1 @ [FindNext h]\<rparr> =
        (Inr (), \<lparr>se_buf = buf2, se_arg = fold visit (concat (map g es)) (fold visit (g e) x),
          se_finds = (hs @ c1 @ [FindNext h]) @ c2\<rparr>)"
      "length buf2 = Suc MAX_PATH" "take (length p) buf2 = p" "\<forall>h'. finds_held h' c2 = (if h' = h then -1 else 0)" by blast
    with 1 False show ?thesis
      by (intro exI [of _ buf2] exI [of _ "c1 @ [FindNext h] @ c2"]) (simp add: obind_def find_event_def)
  qed
qed simp

lemma visits_walk:
  assumes "\<And>e. e \<in> set (fs_find fs pat) \<Longrightarrow> visits p (f e) () (g e) p"
  shows "visits p (obind (find_first fs pat) (\<lambda>(h, found). walk f h found)) () (concat (map g (fs_find fs pat))) p"
proof (cases "fs_find fs pat = []")
  case True
  then show ?thesis by (intro visitsI_none) (simp add: obind_def find_first_def Let_def)
next
  case False
  show ?thesis
  proof (rule visitsI)
    fix buf x and hs :: "find_call list" assume b: "length buf = Suc MAX_PATH" "take (length p) buf = p"
    let ?h = "length hs"
    obtain buf1 cs where "walk f ?h (fs_find fs pat) \<lparr>se_buf = buf, se_arg = x, se_finds = hs @ [FindFirst ?h pat]\<rparr> =
        (Inr (), \<lparr>se_buf = buf1, se_arg = fold visit (concat (map g (fs_find fs pat))) x, se_finds = (hs @ [FindFirst ?h pat]) @ cs\<rparr>)"
        "length buf1 = Suc MAX_PATH" "take (length p) buf1 = p" "\<forall>h'. finds_held h' cs = (if h' = ?h then -1 else 0)"
      using walk_run [where es = "fs_find fs pat" and p = p and f = f and g = g and h = ?h and x = x and
          hs = "hs @ [FindFirst ?h pat]", OF _ False b] assms by blast
    with False show "\<exists>buf' cs. obind (find_first fs pat) (\<lambda>(h, found). walk f h found) \<lparr>se_buf = buf, se_arg = x, se_finds = hs\<rparr> =
        (Inr (), \<lparr>se_buf = buf', se_arg = fold visit (concat (map g (fs_find fs pat))) x, se_finds = hs @ cs\<rparr>) \<and>
        length buf' = Suc MAX_PATH \<and> take (length p) buf' = p \<and> (\<forall>h. finds_held h cs = 0)"
      by (intro exI [of _ buf1] exI [of _ "FindFirst ?h pat # cs"]) (simp add: obind_def find_first_def Let_def)
  qed
qed

lemma visits_probe:
  assumes "3 \<le> length dir" "length (base dir) + length findfile \<le> MAX_PATH" "NUL \<notin> set dir" "NUL \<notin> set findfile"
  shows "visits dir (probe fs cb findfile (length dir)) (length (base dir))
    (hit fs findfile dir) (base dir)"
proof -
  let ?b = "base dir" and ?file = "base dir @ findfile"
  have len: "(if 3 < length dir then length dir + 1 else length dir) = length ?b" by (simp add: base_def)
  have sep: "visits dir (if 3 < length dir then store (length dir) (CHR 0x5C) else oreturn ()) () [] ?b"
    using visits_store [of dir "CHR 0x5C"] visits_return [of dir "()"] assms(2)
    by (cases "3 < length dir") (simp_all add: base_def)
  have nul: "NUL \<notin> set ?file" using assms(3,4) by (auto simp: base_def)
  have cb: "visits (?file @ [NUL]) (case fs_attrs fs ?file of None \<Rightarrow> oreturn () | Some fi \<Rightarrow> cb (length ?b) fi) ()
      (case fs_attrs fs ?file of None \<Rightarrow> [] | Some fi \<Rightarrow> [(?b, fi)]) ?b"
  proof (cases "fs_attrs fs ?file")
    case None
    then show ?thesis using visits_return_prefix [of ?b "findfile @ [NUL]" "()"] by simp
  next
    case (Some fi)
    then show ?thesis
      using visits_longer [OF visits_callback [of ?b fi], of "findfile @ [NUL]"] assms(2) by simp
  qed
  have r: "visits (?file @ [NUL]) (obind (oget (\<lambda>s. c_str (se_buf s))) (\<lambda>curpath.
      obind (case fs_attrs fs curpath of None \<Rightarrow> oreturn () | Some fi \<Rightarrow> cb (length ?b) fi) (\<lambda>_. oreturn (length ?b))))
      (length ?b) (case fs_attrs fs ?file of None \<Rightarrow> [] | Some fi \<Rightarrow> [(?b, fi)]) ?b"
    by (rule visits_read [OF nul], rule visits_obindI [OF cb visits_return]) simp
  have "visits ?b (copy (length ?b) (findfile @ [NUL])) () [] (?file @ [NUL])"
    using visits_copy [of ?b "findfile @ [NUL]"] assms(2) by simp
  note cp = this
  show ?thesis
    unfolding probe_def Let_def len hit_def
    by (rule visits_obindI [OF sep], rule visits_obindI [OF cp], rule r) simp_all
qed

lemma visits_list_dir:
  assumes "length p < MAX_PATH" "NUL \<notin> set p" "\<And>e. e \<in> set (fs_find fs (p @ ''*'')) \<Longrightarrow> visits p (f e) () (g e) p"
  shows "visits p (list_dir fs (length p) f) () (concat (map g (fs_find fs (p @ ''*'')))) p"
proof -
  let ?q = "p @ ''*''"
  have 1: "visits p (store (length p) (CHR ''*'')) () [] ?q" using visits_store [of p] assms(1) by simp
  have 2: "visits ?q (store (length p + 1) NUL) () [] (?q @ [NUL])" using visits_store [of ?q NUL] assms(1) by simp
  have "visits (?q @ [NUL]) (obind (find_first fs ?q) (\<lambda>(h, found). walk f h found)) () (concat (map g (fs_find fs ?q))) p"
    using visits_longer [OF visits_walk [OF assms(3)], where p' = "''*'' @ [NUL]"] by simp
  then have 3: "visits (?q @ [NUL]) (obind (oget (\<lambda>s. c_str (se_buf s)))
      (\<lambda>c. obind (find_first fs c) (\<lambda>(h, found). walk f h found))) () (concat (map g (fs_find fs ?q))) p"
    using assms(2) by (intro visits_read) auto
  show ?thesis
    unfolding list_dir_def by (rule visits_obindI [OF 1 visits_obindI [OF 2 3]]) simp_all
qed

lemma visits_volsearch:
  assumes "fs_names_ok fs" "findfile \<noteq> []" "NUL \<notin> set findfile"
  shows "3 \<le> length dir \<Longrightarrow> length (base dir) + length findfile \<le> MAX_PATH \<Longrightarrow> NUL \<notin> set dir \<Longrightarrow>
    visits dir (volsearch depth fs cb findfile (length dir)) () (hits depth fs findfile dir) (base dir)"
proof (induction depth arbitrary: dir)
  case 0
  have "visits (base dir) (store (length (base dir)) NUL) () [] (base dir)"
    using visits_store [of "base dir" NUL] visits_shorten 0 by simp
  then show ?case
    unfolding volsearch.simps hits.simps by (rule visits_obindI [OF visits_probe [OF 0 assms(3)]]) simp
next
  case (Suc depth)
  let ?b = "base dir"
  have nul: "NUL \<notin> set ?b" using Suc.prems(3) by (auto simp: base_def)
  have "length ?b < MAX_PATH" using Suc.prems(2) assms(2) by (cases findfile) auto
  note ls = visits_list_dir [OF this nul]
  have st: "visits ?b (store (length ?b) NUL) () [] ?b"
    using visits_store [of ?b NUL] visits_shorten Suc.prems(2) by simp
  have enter: "visits ?b (if enters findfile (length ?b) e
      then obind (copy (length ?b) (fst e @ [NUL])) (\<lambda>_. volsearch depth fs cb findfile (length ?b + length (fst e)))
      else oreturn ()) () (if enters findfile (length ?b) e then hits depth fs findfile (?b @ fst e) else []) ?b"
    if e: "e \<in> set (fs_find fs (?b @ ''*''))" for e
  proof (cases "enters findfile (length ?b) e")
    case True
    let ?d = "?b @ fst e"
    have d: "3 \<le> length ?d" "length (base ?d) + length findfile \<le> MAX_PATH" "NUL \<notin> set ?d"
      "\<exists>t. base ?d = ?b @ t"
      using True Suc.prems e assms(1) nul by (auto simp: enters_def base_def fs_names_ok_def)
    then obtain t where t: "base ?d = ?b @ t" by blast
    have "visits ?d (volsearch depth fs cb findfile (length ?d)) () (hits depth fs findfile ?d) ?b"
      using Suc.IH [OF d(1-3)] visits_shorten t by metis
    from visits_longer [OF this, of "[NUL]"]
    have "visits (?b @ fst e @ [NUL]) (volsearch depth fs cb findfile (length ?b + length (fst e))) ()
        (hits depth fs findfile ?d) ?b" by simp
    moreover have "visits ?b (copy (length ?b) (fst e @ [NUL])) () [] (?b @ fst e @ [NUL])"
      using True by (intro visits_copy) (auto simp: enters_def)
    ultimately show ?thesis using True by (simp add: visits_obindI)
  qed (simp add: visits_return)
  show ?case
    unfolding volsearch.simps hits.simps
    by (rule visits_obindI [OF visits_probe [OF Suc.prems assms(3)]],
        rule visits_obindI [OF ls [OF enter] st]) (simp_all add: hits_entries [OF assms(1)])
qed

lemma visits_next_letter: "k < 32 \<Longrightarrow> visits (drive_root k) next_letter () [] (drive_root (Suc k))"
proof (rule visitsI_none)
  fix buf x hs assume k: "k < 32" and b: "length buf = Suc MAX_PATH" "take (length (drive_root k)) buf = drive_root k"
  then obtain rest where buf: "buf = drive_root k @ rest" by (metis append_take_drop_id)
  have "char_of (of_char (buf ! 0) + 1 :: nat) = (char_of (65 + Suc k) :: char)"
    using k by (simp add: buf drive_root_def of_char_of)
  then show "\<exists>buf'. next_letter \<lparr>se_buf = buf, se_arg = x, se_finds = hs\<rparr> =
      (Inr (), \<lparr>se_buf = buf', se_arg = fold visit [] x, se_finds = hs\<rparr>) \<and>
      length buf' = Suc MAX_PATH \<and> take (length (drive_root (Suc k))) buf' = drive_root (Suc k)"
    using b(1) by (simp add: next_letter_def store_def buf drive_root_def)
qed

lemma drives_loop_0: "drives_loop fs cb findfile depth 0 = oreturn ()"
  by (subst drives_loop.simps) (simp only: simp_thms if_True)

lemma drives_loop_next:
  "w \<noteq> 0 \<Longrightarrow> drives_loop fs cb findfile depth w =
     obind (if w AND 1 \<noteq> 0 then
              obind (store 3 NUL) (\<lambda>_.
              obind (oget (\<lambda>s. c_str (se_buf s))) (\<lambda>search.
              if fs_fixed fs search then volsearch depth fs cb findfile 3 else oreturn ()))
            else oreturn ()) (\<lambda>_.
     obind next_letter (\<lambda>_.
     drives_loop fs cb findfile depth (drop_bit 1 w)))"
  by (subst drives_loop.simps) (simp only: if_False)

lemma no_drives:
  "visits p (drives_loop fs cb findfile depth 0) () (concat (map (\<lambda>i. if bit (0 :: 32 word) i \<and> P i then g i else []) ns)) p"
proof -
  have "concat (map (\<lambda>i. if bit (0 :: 32 word) i \<and> P i then g i else []) ns) = []" by simp
  then show ?thesis unfolding drives_loop_0 by (metis visits_return)
qed

text \<open>The drives from the \<open>k\<close>th on, when the mask has been shifted by \<open>k\<close>.\<close>

lemma visits_drives:
  assumes "fs_names_ok fs" "findfile \<noteq> []" "NUL \<notin> set findfile" "3 + length findfile \<le> MAX_PATH"
  shows "k + n \<le> 32 \<Longrightarrow> (\<And>i. n \<le> i \<Longrightarrow> \<not> bit w i) \<Longrightarrow>
    \<exists>q. visits (drive_root k) (drives_loop fs cb findfile depth w) ()
      (concat (map (\<lambda>i. if bit w i \<and> fs_fixed fs (drive_root (k + i)) then hits depth fs findfile (drive_root (k + i)) else [])
        [0..<n])) q"
proof (induction n arbitrary: k w)
  case 0
  then have "w = 0" by (intro bit_word_eqI) simp
  show ?case unfolding \<open>w = 0\<close> by (rule exI, rule no_drives)
next
  case (Suc n)
  show ?case
  proof (cases "w = 0")
    case True
    show ?thesis unfolding True by (rule exI, rule no_drives)
  next
    case False
    let ?d = "drive_root k"
    let ?here = "if bit w 0 \<and> fs_fixed fs ?d then hits depth fs findfile ?d else []"
    have k: "k < 32" using Suc.prems(1) by simp
    have odd: "w AND 1 \<noteq> 0 \<longleftrightarrow> bit w 0" by (simp add: and_one_eq mod_2_eq_odd bit_0)
    have "visits ?d (volsearch depth fs cb findfile 3) () (hits depth fs findfile ?d) ?d"
      using visits_volsearch [OF assms(1-3), of ?d depth] assms(4) NUL_drive_root [OF k] by simp
    from visits_longer [OF this, of "[NUL]"] visits_return_prefix [of ?d "[NUL]" "()"]
    have "visits (?d @ [NUL]) (if fs_fixed fs ?d then volsearch depth fs cb findfile 3 else oreturn ()) ()
        (if fs_fixed fs ?d then hits depth fs findfile ?d else []) ?d" by simp
    then have "visits (?d @ [NUL]) (obind (oget (\<lambda>s. c_str (se_buf s)))
        (\<lambda>search. if fs_fixed fs search then volsearch depth fs cb findfile 3 else oreturn ())) ()
        (if fs_fixed fs ?d then hits depth fs findfile ?d else []) ?d"
      by (rule visits_read [OF NUL_drive_root [OF k]])
    moreover have "visits ?d (store 3 NUL) () [] (?d @ [NUL])"
      using visits_store [of ?d NUL] assms(4) by simp
    ultimately have probe: "visits ?d (if w AND 1 \<noteq> 0 then obind (store 3 NUL) (\<lambda>_. obind (oget (\<lambda>s. c_str (se_buf s)))
        (\<lambda>search. if fs_fixed fs search then volsearch depth fs cb findfile 3 else oreturn ())) else oreturn ()) () ?here ?d"
      unfolding odd by (simp add: visits_obindI visits_return)
    have "\<not> bit (drop_bit 1 w) i" if "n \<le> i" for i
      using Suc.prems(2) [of "Suc i"] that by (simp add: bit_drop_bit_eq)
    with Suc.IH [of "Suc k" "drop_bit 1 w"] Suc.prems(1) obtain q where
      rest: "visits (drive_root (Suc k)) (drives_loop fs cb findfile depth (drop_bit 1 w)) ()
        (concat (map (\<lambda>i. if bit (drop_bit 1 w) i \<and> fs_fixed fs (drive_root (Suc k + i))
           then hits depth fs findfile (drive_root (Suc k + i)) else []) [0..<n])) q" by auto
    have split: "concat (map (\<lambda>i. if bit w i \<and> fs_fixed fs (drive_root (k + i)) then hits depth fs findfile (drive_root (k + i)) else [])
        [0..<Suc n]) = ?here @ [] @ concat (map (\<lambda>i. if bit (drop_bit 1 w) i \<and> fs_fixed fs (drive_root (Suc k + i))
           then hits depth fs findfile (drive_root (Suc k + i)) else []) [0..<n])"
      unfolding upt_conv_Cons [OF zero_less_Suc] map_Suc_upt [symmetric] by (simp add: bit_drop_bit_eq comp_def cong: if_cong)
    show ?thesis
      unfolding split drives_loop_next [OF False]
      by (rule exI [of _ q], rule visits_obindI [OF probe], rule visits_obindI [OF visits_next_letter [OF k] rest]) simp_all
  qed
qed

lemma drsearch_ok:
  assumes "fs_names_ok fs" "findfile \<noteq> []" "NUL \<notin> set findfile" "3 + length findfile \<le> MAX_PATH"
    "length junk = Suc MAX_PATH"
  shows "\<exists>buf' finds. drsearch fs drives junk cb findfile depth x =
      (Inr (), \<lparr>se_buf = buf', se_arg = fold visit (drive_hits depth fs findfile drives) x, se_finds = finds\<rparr>) \<and>
    length buf' = Suc MAX_PATH \<and> (\<forall>h. finds_held h finds = 0)"
proof -
  have "\<not> bit drives i" if "32 \<le> i" for i using bit_imp_le_length [of drives i] that by auto
  with visits_drives [OF assms(1-4), of 0 32 drives depth] obtain q where
    d: "visits (drive_root 0) (drives_loop fs cb findfile depth drives) () (drive_hits depth fs findfile drives) q"
    by (auto simp: drive_hits_def cong: if_cong)
  have A: "char_of (65 :: nat) = CHR ''A''" by code_simp
  have s: "visits [] (store 0 (CHR ''A'')) () [] ''A''" "visits ''A'' (store 1 (CHR '':'')) () [] ''A:''"
    "visits ''A:'' (store 2 (CHR 0x5C)) () [] (drive_root 0)"
    using visits_store [of "[]"] visits_store [of "''A''"] visits_store [of "''A:''"]
    by (simp_all add: MAX_PATH_def drive_root_def numeral_2_eq_2 A)
  have "visits [] (obind (store 0 (CHR ''A'')) (\<lambda>_. obind (store 1 (CHR '':'')) (\<lambda>_. obind (store 2 (CHR 0x5C)) (\<lambda>_.
      drives_loop fs cb findfile depth drives)))) () (drive_hits depth fs findfile drives) q"
    by (rule visits_obindI [OF s(1)], rule visits_obindI [OF s(2)], rule visits_obindI [OF s(3) d]) simp_all
  from this [unfolded visits_def, rule_format, OF assms(5), of x "[]"] show ?thesis
    unfolding drsearch_def by auto
qed

end

section \<open>Which directories the search finds\<close>

lemma below_length: "below fs root n d \<Longrightarrow> length root \<le> length d"
  by (induction rule: below.induct) (simp_all add: base_def)

text \<open>A directory below another, seen from the first step instead of the last.\<close>

lemma below_first: "below fs (base root @ name) n d \<Longrightarrow> name \<in> set (subdirectories fs root) \<Longrightarrow> below fs root (Suc n) d"
proof (induction rule: below.induct)
  case below_root
  then show ?case using below.below_step [OF below.below_root] by blast
next
  case (below_step n dir nm)
  then show ?case using below.below_step by blast
qed

lemma below_first_cases:
  assumes "below fs root (Suc n) d"
  obtains name where "name \<in> set (subdirectories fs root)" "below fs (base root @ name) n d"
  using assms
proof (induction n arbitrary: d thesis)
  case 0
  from 0(2) obtain dir name where "below fs root 0 dir" "name \<in> set (subdirectories fs dir)" "d = base dir @ name"
    by (auto elim: below.cases)
  moreover from this(1) have "dir = root" by (auto elim: below.cases)
  ultimately show ?case using 0(1) below.below_root by blast
next
  case (Suc n)
  from Suc.prems(2) obtain dir name where d: "below fs root (Suc n) dir" "name \<in> set (subdirectories fs dir)"
      "d = base dir @ name" by (auto elim: below.cases)
  from Suc.IH [OF _ d(1)] obtain first where "first \<in> set (subdirectories fs root)" "below fs (base root @ first) n dir" by blast
  then show ?case using Suc.prems(1) below.below_step d(2,3) by blast
qed

lemma below_cases:
  "below fs root 0 d \<longleftrightarrow> d = root"
  "below fs root (Suc n) d \<longleftrightarrow> (\<exists>name\<in>set (subdirectories fs root). below fs (base root @ name) n d)"
  by (auto elim: below.cases intro: below.below_root) (blast intro: below_first elim: below_first_cases)+

text \<open>The search finds exactly the directories in reach that hold the file.\<close>

lemma set_hits:
  "(p, fi) \<in> set (hits depth fs findfile dir) \<longleftrightarrow>
     (\<exists>n d. n \<le> depth \<and> below fs dir n d \<and> (n = 0 \<or> fits_path findfile d) \<and> p = base d \<and>
        fs_attrs fs (p @ findfile) = Some fi)"
proof (induction depth arbitrary: dir)
  case 0
  show ?case by (auto simp: hit_def elim: below.cases split: option.splits intro: below.below_root)
next
  case (Suc depth)
  have here: "(p, fi) \<in> set (hit fs findfile dir) \<longleftrightarrow> p = base dir \<and> fs_attrs fs (p @ findfile) = Some fi"
    by (auto simp: hit_def split: option.splits)
  have step: "(\<exists>n. n \<le> Suc depth \<and> P n) \<longleftrightarrow> P 0 \<or> (\<exists>n. n \<le> depth \<and> P (Suc n))" for P
    by (metis Suc_le_mono not0_implies_Suc zero_le)
  have sub: "(n = 0 \<or> fits_path findfile d) \<and> fits_path findfile child \<longleftrightarrow> fits_path findfile d"
    if "below fs child n d" for n d child
    using that below_length [OF that] by (cases n) (auto simp: fits_path_def elim: below.cases)
  have "(p, fi) \<in> set (hits (Suc depth) fs findfile dir) \<longleftrightarrow> p = base dir \<and> fs_attrs fs (p @ findfile) = Some fi \<or>
      (\<exists>name\<in>set (subdirectories fs dir). fits_path findfile (base dir @ name) \<and> (p, fi) \<in> set (hits depth fs findfile (base dir @ name)))"
    using here by auto
  also have "\<dots> \<longleftrightarrow> p = base dir \<and> fs_attrs fs (p @ findfile) = Some fi \<or>
      (\<exists>n d. n \<le> depth \<and> (\<exists>name\<in>set (subdirectories fs dir). below fs (base dir @ name) n d) \<and> fits_path findfile d \<and>
        p = base d \<and> fs_attrs fs (p @ findfile) = Some fi)"
    unfolding Suc.IH using sub by blast
  also have "\<dots> \<longleftrightarrow> (\<exists>n. n \<le> Suc depth \<and> (\<exists>d. below fs dir n d \<and> (n = 0 \<or> fits_path findfile d) \<and> p = base d \<and>
        fs_attrs fs (p @ findfile) = Some fi))"
    unfolding step by (simp add: below_cases)
  finally show ?case by blast
qed

end
