(* ===== verification/Resolve_Apache.thy ===== *)
theory Resolve_Apache
  imports Quick_Search "HOL-Library.Sublist"
begin

text \<open>
  The two custom actions of the installer (\<open>msi_dll/resolve_apache.c\<close>): the list of the Apache
  installations found on the fixed drives, and the check of the path the user has chosen.
  The calls of the installer's API are recorded in the order they are made, with their
  results; what the API answers is a function of the calls made before.
\<close>

section \<open>The installer's API\<close>

datatype msi_call =
    GetActiveDatabase nat nat
  | CreateRecord nat nat
  | SetProperty nat string string
  | GetProperty nat string
  | SetTargetPath nat string string
  | OpenView nat string "32 word" nat
  | ViewFetch nat "32 word" nat
  | ViewModify nat nat "32 word"
  | ViewExecute nat nat
  | RecordSetString nat nat c_ptr
  | RecordSetInteger nat nat int
  | CloseHandle nat

definition ERROR_SUCCESS :: "32 word" where "ERROR_SUCCESS = 0"
definition ERROR_NO_MORE_ITEMS :: "32 word" where "ERROR_NO_MORE_ITEMS = 259"

record msi_env =
  me_database :: "msi_call list \<Rightarrow> nat"
  me_record :: "msi_call list \<Rightarrow> nat"
  me_property :: "msi_call list \<Rightarrow> 32 word \<times> string"
  me_open :: "msi_call list \<Rightarrow> 32 word \<times> nat"
  me_fetch :: "msi_call list \<Rightarrow> 32 word \<times> nat"
  me_modify :: "msi_call list \<Rightarrow> 32 word"

text \<open>The callback's argument, with the calls made so far; \<open>prop\<close> is never set or read.\<close>

record cbResolverArg =
  ra_hInstall :: nat
  ra_hDB :: nat
  ra_hView :: nat
  ra_combo :: string
  ra_prop :: c_ptr
  ra_index :: int
  ra_calls :: "msi_call list"

definition log_call :: "msi_call \<Rightarrow> cbResolverArg \<Rightarrow> cbResolverArg" where
  "log_call c w = w\<lparr>ra_calls := ra_calls w @ [c]\<rparr>"

section \<open>cbResolver\<close>

text \<open>What is done with a record and the path once both are there.\<close>

definition add_row :: "msi_env \<Rightarrow> nat \<Rightarrow> string \<Rightarrow> cbResolverArg \<Rightarrow> cbResolverArg" where
  "add_row env rec path w =
     (let w = (if ra_index w = 0
               then log_call (SetTargetPath (ra_hInstall w) ''INSTALLDIR'' path)
                     (log_call (SetProperty (ra_hInstall w) (ra_combo w) path)
                     (log_call (SetProperty (ra_hInstall w) ''_BadPath'' ''0'') w))
               else w);
          w = log_call (RecordSetString rec 1 (Some (ra_combo w))) w;
          w = w\<lparr>ra_index := ra_index w + 1\<rparr>;
          w = log_call (RecordSetInteger rec 2 (ra_index w)) w;
          w = log_call (RecordSetString rec 3 (Some path)) w;
          w = log_call (RecordSetString rec 4 None) w;
          res = me_modify env (ra_calls w);
          w = log_call (ViewModify (ra_hView w) rec res) w;
          w = (if res = ERROR_SUCCESS then log_call (ViewExecute (ra_hView w) rec) w else w)
      in log_call (CloseHandle rec) w)"

definition cbResolver :: "msi_env \<Rightarrow> (cbResolverArg, 'f) callback" where
  "cbResolver env len fi s =
     (let wrk = se_arg s;
          rec = me_record env (ra_calls wrk);
          wrk = log_call (CreateRecord 4 rec) wrk
      in if rec = 0 then (Inr (), s\<lparr>se_arg := wrk\<rparr>)
         else obind (store len NUL) (\<lambda>_.
              omap (\<lambda>s. s\<lparr>se_arg := add_row env rec (c_str (se_buf s)) wrk\<rparr>)) s)"

section \<open>ResolveApacheInstances\<close>

text \<open>Besides the calls of the installer's API, the result has those that enumerate directories.\<close>

text \<open>The local structure after its first assignments; \<open>hView\<close> is not set yet.\<close>

definition new_resolver :: "msi_env \<Rightarrow> nat \<Rightarrow> msi_call list \<Rightarrow> cbResolverArg" where
  "new_resolver env hInstall calls =
     (let hDB = me_database env calls in
      \<lparr>ra_hInstall = hInstall, ra_hDB = hDB, ra_hView = 0, ra_combo = ''INSTALLDIR'', ra_prop = None,
       ra_index = 0, ra_calls = calls @ [GetActiveDatabase hInstall hDB]\<rparr>)"

text \<open>\<open>BINARY\<close> is set by the project files: \<open>Apache.exe\<close> or \<open>httpd.exe\<close>.\<close>

definition chkfile :: "string \<Rightarrow> string" where
  "chkfile binary = ''bin'' @ CHR 0x5C # binary"

definition ResolveApacheInstances ::
  "msi_env \<Rightarrow> 'f file_system \<Rightarrow> 32 word \<Rightarrow> string \<Rightarrow> string \<Rightarrow> nat \<Rightarrow> msi_call list \<Rightarrow>
     (path_fault + 32 word) \<times> msi_call list \<times> find_call list" where
  "ResolveApacheInstances env fs drives junk binary hInstall calls =
     (let wrk = new_resolver env hInstall calls in
      if ra_hDB wrk = 0 then (Inr ERROR_SUCCESS, ra_calls wrk, [])
      else
        (let wrk = log_call (SetProperty hInstall ''_BadPath'' ''1'') wrk;
             (res, hView) = me_open env (ra_calls wrk);
             wrk = log_call (OpenView (ra_hDB wrk) ''SELECT * FROM ComboBox'' res hView) wrk
         in if res \<noteq> ERROR_SUCCESS then (Inr res, ra_calls (log_call (CloseHandle (ra_hDB wrk)) wrk), [])
            else
              (case drsearch fs drives junk (cbResolver env) (chkfile binary) 3 (wrk\<lparr>ra_hView := hView\<rparr>) of
                 (Inl e, s) \<Rightarrow> (Inl e, ra_calls (se_arg s), se_finds s)
               | (Inr _, s) \<Rightarrow>
                   (let wrk = se_arg s in
                    (Inr ERROR_SUCCESS,
                     ra_calls (log_call (CloseHandle (ra_hDB wrk)) (log_call (CloseHandle (ra_hView wrk)) wrk)), se_finds s)))))"

section \<open>tryAddPath\<close>

text \<open>\<open>StringCchPrintfA\<close> into 1024 bytes: the text is cut to 1023.\<close>

definition path_query :: "string \<Rightarrow> string \<Rightarrow> string" where
  "path_query combo str =
     take 1023 (''SELECT * FROM ComboBox WHERE Property = '' @ CHR 0x22 # combo @ CHR 0x22 #
        '' AND Value = '' @ CHR 0x22 # str @ [CHR 0x22])"

text \<open>The result with the buffer and the calls made.\<close>

definition tryAddPath ::
  "msi_env \<Rightarrow> nat \<Rightarrow> string \<Rightarrow> nat \<Rightarrow> 'f \<Rightarrow> msi_call list \<Rightarrow> (path_fault + 32 word) \<times> string \<times> msi_call list" where
  "tryAddPath env hInstall str len fi calls =
     (let wrk = new_resolver env hInstall calls in
      case store len NUL \<lparr>se_buf = str, se_arg = wrk, se_finds = []\<rparr> of
        (Inl e, s) \<Rightarrow> (Inl e, se_buf s, ra_calls wrk)
      | (Inr _, s) \<Rightarrow>
          if ra_hDB wrk = 0 then (Inr ERROR_SUCCESS, se_buf s, ra_calls wrk)
          else
            (let wrk = log_call (SetProperty hInstall ''_BadPath'' ''1'') wrk;
                 query = path_query (ra_combo wrk) (c_str (se_buf s));
                 (res, hView) = me_open env (ra_calls wrk);
                 wrk = log_call (OpenView (ra_hDB wrk) query res hView) wrk
             in if res \<noteq> ERROR_SUCCESS then (Inr res, se_buf s, ra_calls (log_call (CloseHandle (ra_hDB wrk)) wrk))
                else
                  (let wrk = wrk\<lparr>ra_hView := hView\<rparr>;
                       (res, rec) = me_fetch env (ra_calls wrk);
                       wrk = log_call (ViewFetch hView res rec) wrk
                   in case (if res = ERROR_SUCCESS
                            then (Inr (), s\<lparr>se_arg := (if rec \<noteq> 0 then log_call (CloseHandle rec) wrk else wrk)\<rparr>)
                            else if res = ERROR_NO_MORE_ITEMS then cbResolver env len fi (s\<lparr>se_arg := wrk\<rparr>)
                            else (Inr (), s\<lparr>se_arg := wrk\<rparr>)) of
                        (Inl e, s) \<Rightarrow> (Inl e, se_buf s, ra_calls (se_arg s))
                      | (Inr _, s) \<Rightarrow>
                          (let wrk = se_arg s in
                           (Inr ERROR_SUCCESS, se_buf s,
                            ra_calls (log_call (CloseHandle (ra_hDB wrk)) (log_call (CloseHandle (ra_hView wrk)) wrk)))))))"

section \<open>VerifyApachePath\<close>

text \<open>
  The separator at the end of the path: a read of the buffer at an index of type \<open>DWORD\<close>,
  which wraps around below zero, and two writes when it is missing.
\<close>

definition add_separator ::
  "nat \<Rightarrow> string \<Rightarrow> msi_call list \<Rightarrow> path_fault + (string \<times> nat \<times> msi_call list)" where
  "add_separator hInstall str calls =
     (let len = length (c_str str);
          pos = nat ((int len - 1) mod 2 ^ 32)
      in if pos \<ge> length str then Inl PathOverrun
         else if str ! pos \<noteq> CHR 0x5C then
           (if len + 1 \<ge> length str then Inl PathOverrun
            else
              (let str = str[len := CHR 0x5C, len + 1 := NUL]
               in Inr (str, len + 1, calls @ [SetProperty hInstall ''INSTALLDIR'' (c_str str)])))
         else Inr (str, len, calls))"

text \<open>
  The test of the file and what follows from it. In a release build \<open>strcpy_s\<close> writes the
  string and its NUL, whatever size it is told.
\<close>

definition verify_file ::
  "msi_env \<Rightarrow> (string \<Rightarrow> 'f option) \<Rightarrow> string \<Rightarrow> nat \<Rightarrow> string \<Rightarrow> nat \<Rightarrow> msi_call list \<Rightarrow> (path_fault + 32 word) \<times> msi_call list" where
  "verify_file env attrs file hInstall str len calls =
     (case copy len (file @ [NUL]) \<lparr>se_buf = str, se_arg = (), se_finds = []\<rparr> of
        (Inl e, _) \<Rightarrow> (Inl e, calls)
      | (Inr _, s) \<Rightarrow>
          (case attrs (c_str (se_buf s)) of
             None \<Rightarrow> (Inr ERROR_SUCCESS, calls @ [SetProperty hInstall ''_BadPath'' ''1''])
           | Some fi \<Rightarrow>
               (let str = (se_buf s)[len := NUL];
                    calls = calls @ [SetTargetPath hInstall ''INSTALLDIR'' (c_str str)]
                in case tryAddPath env hInstall str len fi calls of
                     (Inl e, _, calls) \<Rightarrow> (Inl e, calls)
                   | (Inr _, _, calls) \<Rightarrow> (Inr ERROR_SUCCESS, calls @ [SetProperty hInstall ''_BadPath'' ''0'']))))"

text \<open>
  The buffer is \<open>junk\<close> before \<open>MsiGetProperty\<close> stores a value and a NUL in it; the test of the
  length leaves room for the separator and the file.
\<close>

definition VerifyApachePath ::
  "msi_env \<Rightarrow> (string \<Rightarrow> 'f option) \<Rightarrow> string \<Rightarrow> string \<Rightarrow> nat \<Rightarrow> msi_call list \<Rightarrow> (path_fault + 32 word) \<times> msi_call list" where
  "VerifyApachePath env attrs junk binary hInstall calls =
     (let (res, dirval) = me_property env calls;
          calls = calls @ [GetProperty hInstall ''INSTALLDIR'']
      in if res \<noteq> ERROR_SUCCESS \<or> length dirval + (length (chkfile binary) + 1) > MAX_PATH
         then (Inr ERROR_SUCCESS, calls @ [SetProperty hInstall ''_BadPath'' ''1''])
         else
           (case add_separator hInstall (dirval @ NUL # drop (length dirval + 1) junk) calls of
              Inl e \<Rightarrow> (Inl e, calls)
            | Inr (str, len, calls) \<Rightarrow> verify_file env attrs (chkfile binary) hInstall str len calls))"

section \<open>The callback meets the contract of the search\<close>

definition resolver_visit :: "msi_env \<Rightarrow> string \<times> 'f \<Rightarrow> cbResolverArg \<Rightarrow> cbResolverArg" where
  "resolver_visit env v wrk =
     (let rec = me_record env (ra_calls wrk);
          wrk = log_call (CreateRecord 4 rec) wrk
      in if rec = 0 then wrk else add_row env rec (c_str (fst v)) wrk)"

lemma c_str_cut: "n < length buf \<Longrightarrow> c_str (buf[n := NUL]) = c_str (take n buf)"
  by (simp add: upd_conv_take_nth_drop)

interpretation rs: search_callback "cbResolver env" "resolver_visit env"
proof
  fix n buf fi and x :: cbResolverArg and hs assume n: "n < length (buf :: string)"
  let ?rec = "me_record env (ra_calls x)"
  show "\<exists>buf'. cbResolver env n fi \<lparr>se_buf = buf, se_arg = x, se_finds = hs\<rparr> =
      (Inr (), \<lparr>se_buf = buf', se_arg = resolver_visit env (take n buf, fi) x, se_finds = hs\<rparr>) \<and>
      length buf' = length buf \<and> take n buf' = take n buf"
    using n by (intro exI [of _ "if ?rec = 0 then buf else buf[n := NUL]"])
      (simp add: cbResolver_def resolver_visit_def store_def obind_def c_str_cut Let_def)
qed

section \<open>Reading the record of calls\<close>

text \<open>The rows put into records, their indices, and the value a property was last set to.\<close>

fun row_path :: "msi_call \<Rightarrow> string list" where
  "row_path (RecordSetString rec n (Some p)) = (if n = 3 then [p] else [])"
| "row_path _ = []"

fun row_index :: "msi_call \<Rightarrow> int list" where
  "row_index (RecordSetInteger rec n i) = [i]"
| "row_index _ = []"

definition rows :: "msi_call list \<Rightarrow> string list" where
  "rows calls = concat (map row_path calls)"

definition indices :: "msi_call list \<Rightarrow> int list" where
  "indices calls = concat (map row_index calls)"

fun set_to :: "string \<Rightarrow> string option \<Rightarrow> msi_call \<Rightarrow> string option" where
  "set_to name v (SetProperty h n x) = (if n = name then Some x else v)"
| "set_to name v _ = v"

definition property_value :: "string \<Rightarrow> msi_call list \<Rightarrow> string option" where
  "property_value name calls = foldl (set_to name) None calls"

text \<open>How often a handle has been given out and not closed again.\<close>

fun handle_delta :: "nat \<Rightarrow> msi_call \<Rightarrow> int" where
  "handle_delta h (GetActiveDatabase hi db) = (if db = h \<and> db \<noteq> 0 then 1 else 0)"
| "handle_delta h (CreateRecord n rec) = (if rec = h \<and> rec \<noteq> 0 then 1 else 0)"
| "handle_delta h (OpenView db q res v) = (if v = h \<and> res = ERROR_SUCCESS then 1 else 0)"
| "handle_delta h (ViewFetch v res rec) = (if rec = h \<and> res = ERROR_SUCCESS \<and> rec \<noteq> 0 then 1 else 0)"
| "handle_delta h (CloseHandle x) = (if x = h then -1 else 0)"
| "handle_delta h _ = 0"

definition held :: "nat \<Rightarrow> msi_call list \<Rightarrow> int" where
  "held h calls = sum_list (map (handle_delta h) calls)"

lemma calls_append [simp]:
  "rows (a @ b) = rows a @ rows b" "indices (a @ b) = indices a @ indices b"
  "property_value n (a @ b) = foldl (set_to n) (property_value n a) b"
  "held h (a @ b) = held h a + held h b"
  by (simp_all add: rows_def indices_def property_value_def held_def)

lemma calls_Cons [simp]:
  "rows [] = []" "indices [] = []" "held h [] = 0"
  "rows (c # cs) = row_path c @ rows cs" "indices (c # cs) = row_index c @ indices cs"
  "held h (c # cs) = handle_delta h c + held h cs"
  by (simp_all add: rows_def indices_def held_def)

lemma log_call_simps [simp]:
  "ra_calls (log_call c w) = ra_calls w @ [c]" "ra_index (log_call c w) = ra_index w"
  "ra_hView (log_call c w) = ra_hView w" "ra_hDB (log_call c w) = ra_hDB w"
  "ra_hInstall (log_call c w) = ra_hInstall w" "ra_combo (log_call c w) = ra_combo w"
  by (simp_all add: log_call_def)

lemma add_row_fields [simp]:
  "ra_index (add_row env rec path w) = ra_index w + 1" "ra_hView (add_row env rec path w) = ra_hView w"
  "ra_hDB (add_row env rec path w) = ra_hDB w" "ra_combo (add_row env rec path w) = ra_combo w"
  "ra_hInstall (add_row env rec path w) = ra_hInstall w"
  by (simp_all add: add_row_def Let_def)

lemma add_row_calls:
  "rows (ra_calls (add_row env rec path w)) = rows (ra_calls w) @ [path]"
  "indices (ra_calls (add_row env rec path w)) = indices (ra_calls w) @ [ra_index w + 1]"
  "held h (ra_calls (add_row env rec path w)) = held h (ra_calls w) - (if h = rec then 1 else 0)"
  "property_value n (ra_calls (add_row env rec path w)) =
     (if ra_index w \<noteq> 0 then property_value n (ra_calls w)
      else if n = ra_combo w then Some path
      else if n = ''_BadPath'' then Some ''0'' else property_value n (ra_calls w))"
  by (simp_all add: add_row_def Let_def)

lemma visit_fields [simp]:
  "ra_hView (resolver_visit env v w) = ra_hView w" "ra_hDB (resolver_visit env v w) = ra_hDB w"
  "ra_combo (resolver_visit env v w) = ra_combo w" "ra_hInstall (resolver_visit env v w) = ra_hInstall w"
  "held h (ra_calls (resolver_visit env v w)) = held h (ra_calls w)"
  by (simp_all add: resolver_visit_def add_row_calls Let_def)

lemma fold_visit_fields [simp]:
  "ra_hView (fold (resolver_visit env) vs w) = ra_hView w" "ra_hDB (fold (resolver_visit env) vs w) = ra_hDB w"
  "held h (ra_calls (fold (resolver_visit env) vs w)) = held h (ra_calls w)"
  by (induction vs arbitrary: w) simp_all



section \<open>The actions\<close>

text \<open>The search of the action, when the file's name fits.\<close>

definition binary_ok :: "string \<Rightarrow> bool" where
  "binary_ok binary \<longleftrightarrow> NUL \<notin> set binary \<and> length binary + 7 \<le> MAX_PATH"

lemma resolver_search:
  assumes "fs_names_ok fs" "binary_ok binary" "length junk = Suc MAX_PATH"
  shows "\<exists>buf' finds. drsearch fs drives junk (cbResolver env) (chkfile binary) 3 x =
    (Inr (), \<lparr>se_buf = buf', se_arg = fold (resolver_visit env) (drive_hits 3 fs (chkfile binary) drives) x, se_finds = finds\<rparr>) \<and>
    (\<forall>h. finds_held h finds = 0)"
proof -
  have "chkfile binary \<noteq> []" "NUL \<notin> set (chkfile binary)" "3 + length (chkfile binary) \<le> MAX_PATH"
    using assms(2) by (simp_all add: chkfile_def binary_ok_def)
  from rs.drsearch_ok [OF assms(1) this assms(3)] show ?thesis by blast
qed




lemma tryAddPath_ok:
  assumes "len < length str"
  shows "\<exists>res str' calls'. tryAddPath env hInstall str len fi calls = (Inr res, str', calls') \<and>
    (\<forall>h. held h calls' = held h calls)"
proof -
  have cb: "\<exists>s'. cbResolver env len fi \<lparr>se_buf = b, se_arg = w, se_finds = []\<rparr> = (Inr (), s') \<and> ra_hDB (se_arg s') = ra_hDB w \<and>
      ra_hView (se_arg s') = ra_hView w \<and> (\<forall>h. held h (ra_calls (se_arg s')) = held h (ra_calls w))"
    if "length b = length str" for b w
  proof -
    from assms that have "len < length b" by simp
    from rs.cb_keeps [OF this, of env fi w "[]"] show ?thesis by fastforce
  qed
  let ?w0 = "new_resolver env hInstall calls"
  have st: "store len NUL \<lparr>se_buf = str, se_arg = ?w0, se_finds = []\<rparr> = (Inr (), \<lparr>se_buf = str[len := NUL], se_arg = ?w0, se_finds = []\<rparr>)"
    using assms by (simp add: store_def)
  have h0: "held h (ra_calls ?w0) = held h calls + (if ra_hDB ?w0 = h \<and> ra_hDB ?w0 \<noteq> 0 then 1 else 0)" for h
    by (simp add: new_resolver_def Let_def)
  show ?thesis
  proof (cases "ra_hDB ?w0 = 0")
    case True
    then show ?thesis using st h0 by (simp add: tryAddPath_def)
  next
    case False
    let ?w1 = "log_call (SetProperty hInstall ''_BadPath'' ''1'') ?w0"
    let ?q = "path_query (ra_combo ?w1) (c_str (str[len := NUL]))"
    obtain res hView where o: "me_open env (ra_calls ?w1) = (res, hView)" by fastforce
    let ?w2 = "log_call (OpenView (ra_hDB ?w1) ?q res hView) ?w1"
    show ?thesis
    proof (cases "res = ERROR_SUCCESS")
      case F: False
      with False st h0 o show ?thesis by (simp add: tryAddPath_def Let_def)
    next
      case True
      let ?w3 = "?w2\<lparr>ra_hView := hView\<rparr>"
      obtain res2 rec where f: "me_fetch env (ra_calls ?w3) = (res2, rec)" by fastforce
      obtain s' where s': "cbResolver env len fi \<lparr>se_buf = str[len := NUL], se_arg = log_call (ViewFetch hView res2 rec) ?w3, se_finds = []\<rparr> = (Inr (), s')"
        "ra_hDB (se_arg s') = ra_hDB ?w0" "ra_hView (se_arg s') = hView"
        "\<forall>h. held h (ra_calls (se_arg s')) = held h (ra_calls (log_call (ViewFetch hView res2 rec) ?w3))"
        using cb [of "str[len := NUL]" "log_call (ViewFetch hView res2 rec) ?w3"] by auto
      show ?thesis
        using False True st h0 o f s' by (auto simp: tryAddPath_def Let_def)
    qed
  qed
qed

lemma ResolveApacheInstances_ok:
  assumes "fs_names_ok fs" "binary_ok binary" "length junk = Suc MAX_PATH"
    "me_open env (calls @ [GetActiveDatabase hInstall (me_database env calls), SetProperty hInstall ''_BadPath'' ''1'']) = (res, hView)"
    "me_database env calls \<noteq> 0"
  shows "\<exists>finds. ResolveApacheInstances env fs drives junk binary hInstall calls =
    (let wrk = log_call (OpenView (me_database env calls) ''SELECT * FROM ComboBox'' res hView)
                 (log_call (SetProperty hInstall ''_BadPath'' ''1'') (new_resolver env hInstall calls))
     in if res \<noteq> ERROR_SUCCESS then (Inr res, ra_calls (log_call (CloseHandle (me_database env calls)) wrk), finds)
        else (Inr ERROR_SUCCESS,
          ra_calls (log_call (CloseHandle (me_database env calls)) (log_call (CloseHandle hView)
            (fold (resolver_visit env) (drive_hits 3 fs (chkfile binary) drives) (wrk\<lparr>ra_hView := hView\<rparr>)))), finds)) \<and>
    (\<forall>h. finds_held h finds = 0)"
proof -
  have n: "ra_hDB (new_resolver env hInstall calls) = me_database env calls"
    "ra_calls (new_resolver env hInstall calls) = calls @ [GetActiveDatabase hInstall (me_database env calls)]"
    by (simp_all add: new_resolver_def Let_def)
  let ?w = "(log_call (OpenView (me_database env calls) ''SELECT * FROM ComboBox'' res hView)
                 (log_call (SetProperty hInstall ''_BadPath'' ''1'') (new_resolver env hInstall calls)))\<lparr>ra_hView := hView\<rparr>"
  obtain buf finds where "drsearch fs drives junk (cbResolver env) (chkfile binary) 3 ?w =
      (Inr (), \<lparr>se_buf = buf, se_arg = fold (resolver_visit env) (drive_hits 3 fs (chkfile binary) drives) ?w, se_finds = finds\<rparr>)"
      "\<forall>h. finds_held h finds = 0"
    using resolver_search [OF assms(1-3)] by blast
  note search = this
  show ?thesis
  proof (cases "res = ERROR_SUCCESS")
    case True
    with search assms(4,5) n show ?thesis by (intro exI [of _ finds]) (simp add: ResolveApacheInstances_def Let_def)
  next
    case False
    with assms(4,5) n show ?thesis by (intro exI [of _ "[]"]) (simp add: ResolveApacheInstances_def Let_def)
  qed
qed

text \<open>The directory the user means: the value of the property with a separator at its end.\<close>

definition with_separator :: "string \<Rightarrow> string" where
  "with_separator value = (if last value = CHR 0x5C then value else value @ [CHR 0x5C])"

text \<open>The buffer after the value is stored and the separator is added.\<close>

lemma add_separator_ok:
  assumes "length junk = Suc MAX_PATH" "NUL \<notin> set dirval" "dirval \<noteq> []" "length dirval + 1 < MAX_PATH"
  shows "\<exists>str. add_separator hInstall (dirval @ NUL # drop (length dirval + 1) junk) calls =
      Inr (str, length (with_separator dirval), calls @
        (if last dirval = CHR 0x5C then [] else [SetProperty hInstall ''INSTALLDIR'' (with_separator dirval)])) \<and>
    length str = Suc MAX_PATH \<and> take (length (with_separator dirval)) str = with_separator dirval"
proof -
  let ?str = "dirval @ NUL # drop (length dirval + 1) junk"
  let ?cut = "?str[length dirval := CHR 0x5C, length dirval + 1 := NUL]"
  have len: "length ?str = Suc MAX_PATH" using assms(1,4) by simp
  have c: "c_str ?str = dirval" using assms(2) by simp
  obtain v where v: "length dirval = Suc v" using assms(3) by (cases dirval) auto
  have pos: "nat ((int (length dirval) - 1) mod 2 ^ 32) = length dirval - 1"
    using v assms(4) by (simp add: MAX_PATH_def)
  have nth: "?str ! (length dirval - 1) = last dirval" using assms(3) v by (simp add: nth_append last_conv_nth)
  have r: "length dirval - 1 < length ?str" using v by simp
  have room: "length dirval + 1 < length ?str" "length dirval < length ?str" "length dirval < MAX_PATH"
    using len assms(4) by linarith+
  have cut: "?cut = (dirval @ [CHR 0x5C]) @ (drop (length dirval + 1) junk)[0 := NUL]"
    by (simp add: list_update_append)
  moreover have "\<exists>t. (drop (length dirval + 1) junk)[0 := NUL] = NUL # t"
    using assms(1,4) by (cases "drop (length dirval + 1) junk") auto
  ultimately have e: "c_str ?cut = dirval @ [CHR 0x5C]" using assms(2) by (auto simp del: append_assoc)
  have t: "take (Suc (length dirval)) ?cut = dirval @ [CHR 0x5C]" unfolding cut by simp
  show ?thesis
  proof (cases "last dirval = CHR 0x5C")
    case True
    then show ?thesis
      using c pos nth r len by (simp only: add_separator_def Let_def) (simp add: with_separator_def)
  next
    case False
    then show ?thesis
      using c pos nth r len e t room
      by (simp only: add_separator_def Let_def) (simp add: with_separator_def not_le)
  qed
qed

lemma verify_file_ok:
  assumes "NUL \<notin> set dir" "NUL \<notin> set file" "length dir + length file < length str" "take (length dir) str = dir"
  shows "\<exists>buf. length dir < length buf \<and>
    verify_file env attrs file hInstall str (length dir) calls =
      (case attrs (dir @ file) of
         None \<Rightarrow> (Inr ERROR_SUCCESS, calls @ [SetProperty hInstall ''_BadPath'' ''1''])
       | Some fi \<Rightarrow>
           (case tryAddPath env hInstall buf (length dir) fi (calls @ [SetTargetPath hInstall ''INSTALLDIR'' dir]) of
              (Inl e, _, c2) \<Rightarrow> (Inl e, c2)
            | (Inr _, _, c2) \<Rightarrow> (Inr ERROR_SUCCESS, c2 @ [SetProperty hInstall ''_BadPath'' ''0''])))"
proof -
  define buf where "buf = dir @ file @ NUL # drop (length dir + length file + 1) str"
  have c: "copy (length dir) (file @ [NUL]) \<lparr>se_buf = str, se_arg = (), se_finds = []\<rparr> = (Inr (), \<lparr>se_buf = buf, se_arg = (), se_finds = []\<rparr>)"
    using assms(3,4) by (simp add: copy_def buf_def)
  have b: "c_str buf = dir @ file" "length dir < length buf" "c_str (buf[length dir := NUL]) = dir"
    using assms(1,2) by (simp_all add: buf_def c_str_append c_str_cut)
  show ?thesis
    by (intro exI [of _ "buf[length dir := NUL]"], cases "attrs (dir @ file)")
      (simp_all add: verify_file_def c b Let_def)
qed

lemma Verify_found:
  fixes hInstall :: nat
  assumes "length junk = Suc MAX_PATH" "me_property env calls = (ERROR_SUCCESS, dirval)" "NUL \<notin> set dirval" "dirval \<noteq> []"
    "NUL \<notin> set binary" "length dirval + (length (chkfile binary) + 1) \<le> MAX_PATH"
  defines "dir \<equiv> with_separator dirval"
    and "c1 \<equiv> calls @ [GetProperty hInstall ''INSTALLDIR''] @
      (if last dirval = CHR 0x5C then [] else [SetProperty hInstall ''INSTALLDIR'' (with_separator dirval)])"
  shows "\<exists>buf. length dir < length buf \<and>
    VerifyApachePath env attrs junk binary hInstall calls =
      (case attrs (dir @ chkfile binary) of
         None \<Rightarrow> (Inr ERROR_SUCCESS, c1 @ [SetProperty hInstall ''_BadPath'' ''1''])
       | Some fi \<Rightarrow>
           (case tryAddPath env hInstall buf (length dir) fi (c1 @ [SetTargetPath hInstall ''INSTALLDIR'' dir]) of
              (Inl e, _, c2) \<Rightarrow> (Inl e, c2)
            | (Inr _, _, c2) \<Rightarrow> (Inr ERROR_SUCCESS, c2 @ [SetProperty hInstall ''_BadPath'' ''0''])))"
proof -
  have nf: "NUL \<notin> set (chkfile binary)" "1 < length (chkfile binary)" using assms(5) by (simp_all add: chkfile_def)
  have l: "length dirval + 1 < MAX_PATH" using assms(6) nf(2) by linarith
  obtain str where str: "add_separator hInstall (dirval @ NUL # drop (length dirval + 1) junk) (calls @ [GetProperty hInstall ''INSTALLDIR'']) =
      Inr (str, length dir, c1)" "length str = Suc MAX_PATH" "take (length dir) str = dir"
    using add_separator_ok [OF assms(1,3,4) l, of hInstall "calls @ [GetProperty hInstall ''INSTALLDIR'']"]
    by (auto simp: dir_def c1_def)
  have d: "NUL \<notin> set dir" "length dir + length (chkfile binary) < length str"
    using assms(3,6) str(2) by (auto simp: dir_def with_separator_def)
  have "VerifyApachePath env attrs junk binary hInstall calls = verify_file env attrs (chkfile binary) hInstall str (length dir) c1"
    using assms(2,6) str(1) by (simp add: VerifyApachePath_def Let_def)
  with verify_file_ok [OF d(1) nf(1) d(2) str(3)] show ?thesis by simp
qed

text \<open>Both actions return and give back every handle.\<close>

lemma Resolve_held:
  assumes "fs_names_ok fs" "binary_ok binary" "length junk = Suc MAX_PATH"
  shows "\<exists>res c finds. ResolveApacheInstances env fs drives junk binary hInstall calls = (Inr res, c, finds) \<and>
    (\<forall>h. held h c = held h calls) \<and> (\<forall>h. finds_held h finds = 0)"
proof (cases "me_database env calls = 0")
  case True
  then show ?thesis by (simp add: ResolveApacheInstances_def new_resolver_def Let_def)
next
  case False
  obtain res hView where o: "me_open env (calls @ [GetActiveDatabase hInstall (me_database env calls),
      SetProperty hInstall ''_BadPath'' ''1'']) = (res, hView)" by fastforce
  have "ra_calls (new_resolver env hInstall calls) = calls @ [GetActiveDatabase hInstall (me_database env calls)]"
    by (simp add: new_resolver_def Let_def)
  with ResolveApacheInstances_ok [OF assms o False, of drives] False show ?thesis
    by (cases "res = ERROR_SUCCESS") (auto simp: Let_def)
qed

lemma Verify_cases:
  assumes "length junk = Suc MAX_PATH" "me_property env calls = (res, dirval)" "NUL \<notin> set dirval" "binary_ok binary"
    "dirval \<noteq> []"
  shows "\<exists>c. VerifyApachePath env attrs junk binary hInstall calls = (Inr ERROR_SUCCESS, c) \<and> (\<forall>h. held h c = held h calls) \<and>
    property_value ''_BadPath'' c = Some
      (if res \<noteq> ERROR_SUCCESS \<or> length dirval + (length (chkfile binary) + 1) > MAX_PATH \<or>
          attrs (with_separator dirval @ chkfile binary) = None then ''1'' else ''0'')"
proof (cases "res \<noteq> ERROR_SUCCESS \<or> length dirval + (length (chkfile binary) + 1) > MAX_PATH")
  case True
  with assms(2) show ?thesis by (auto simp: VerifyApachePath_def Let_def)
next
  case False
  then have r: "me_property env calls = (ERROR_SUCCESS, dirval)" "length dirval + (length (chkfile binary) + 1) \<le> MAX_PATH"
    using assms(2) by simp_all
  have "NUL \<notin> set binary" using assms(4) by (simp add: binary_ok_def)
  note v = Verify_found [OF assms(1) r(1) assms(3,5) this r(2), where hInstall = hInstall and attrs = attrs]
  show ?thesis
  proof (cases "attrs (with_separator dirval @ chkfile binary)")
    case None
    with v False show ?thesis by auto
  next
    case (Some fi)
    with v obtain buf c1 where buf: "length (with_separator dirval) < length buf"
      "VerifyApachePath env attrs junk binary hInstall calls =
        (case tryAddPath env hInstall buf (length (with_separator dirval)) fi c1 of
           (Inl e, _, c2) \<Rightarrow> (Inl e, c2) | (Inr _, _, c2) \<Rightarrow> (Inr ERROR_SUCCESS, c2 @ [SetProperty hInstall ''_BadPath'' ''0'']))"
      "\<forall>h. held h c1 = held h calls" by auto
    obtain res' str' c' where "tryAddPath env hInstall buf (length (with_separator dirval)) fi c1 = (Inr res', str', c')"
        "\<forall>h. held h c' = held h c1"
      using tryAddPath_ok [OF buf(1), of env hInstall fi c1] by blast
    with buf False Some show ?thesis by auto
  qed
qed

text \<open>A file system with one installation on the drive C, and an API that always succeeds.\<close>

definition sample_dir :: string where "sample_dir = ''C:'' @ CHR 0x5C # ''web'' @ [CHR 0x5C]"

definition sample_fs :: "unit file_system" where
  "sample_fs = \<lparr>fs_attrs = (\<lambda>p. if p = sample_dir @ chkfile ''httpd.exe'' then Some () else None),
     fs_find = (\<lambda>p. if p = ''C:'' @ CHR 0x5C # ''*'' then [(''.'', True), (''web'', True), (''x.txt'', False)] else []),
     fs_fixed = (\<lambda>d. d = ''C:'' @ [CHR 0x5C])\<rparr>"

definition sample_msi :: msi_env where
  "sample_msi = \<lparr>me_database = (\<lambda>_. 5), me_record = (\<lambda>cs. 7), me_property = (\<lambda>_. (ERROR_SUCCESS, ''C:'' @ CHR 0x5C # ''web'')),
     me_open = (\<lambda>_. (ERROR_SUCCESS, 6)), me_fetch = (\<lambda>_. (ERROR_NO_MORE_ITEMS, 0)), me_modify = (\<lambda>_. ERROR_SUCCESS)\<rparr>"

section \<open>Properties\<close>




text \<open>C34: what the actions hold. \<open>ResolveApacheInstances\<close> returns, whatever the installer's API answers,
  and gives back every database, view and record, and every handle of a directory it enumerates, as
  often as it was given one. \<open>VerifyApachePath\<close> does, too, when the property \<open>INSTALLDIR\<close> is not empty or cannot be
  read; when it is read and empty, the action reads the byte before its buffer.\<close>

theorem installer_handles_closed:
  assumes "fs_names_ok fs" "binary_ok binary" "length junk = Suc MAX_PATH"
    "NUL \<notin> set (snd (me_property env calls))"
  shows "(\<exists>res c finds. ResolveApacheInstances env fs drives junk binary hInstall calls = (Inr res, c, finds) \<and>
            held h c = held h calls \<and> finds_held h' finds = 0) \<and>
         (\<not> (\<exists>res c. VerifyApachePath env attrs junk binary hInstall calls = (Inr res, c) \<and> held h c = held h calls) \<longleftrightarrow>
            me_property env calls = (ERROR_SUCCESS, [])) \<and>
         (me_property env calls = (ERROR_SUCCESS, []) \<longrightarrow>
            fst (VerifyApachePath env attrs junk binary hInstall calls) = Inl PathOverrun)"
proof -
  obtain res dirval where p: "me_property env calls = (res, dirval)" by fastforce
  have "\<exists>res c finds. ResolveApacheInstances env fs drives junk binary hInstall calls = (Inr res, c, finds) \<and>
      held h c = held h calls \<and> finds_held h' finds = 0"
    using Resolve_held [OF assms(1-3), of env drives hInstall calls] by blast
  moreover have "fst (VerifyApachePath env attrs junk binary hInstall calls) = Inl PathOverrun"
    if "res = ERROR_SUCCESS" "dirval = []"
    using that p assms(2,3) by (simp add: VerifyApachePath_def add_separator_def Let_def c_str_def MAX_PATH_def binary_ok_def chkfile_def)
  moreover have "\<exists>res c. VerifyApachePath env attrs junk binary hInstall calls = (Inr res, c) \<and> held h c = held h calls"
    if "res \<noteq> ERROR_SUCCESS"
    using that p by (simp add: VerifyApachePath_def Let_def)
  moreover have "\<exists>res c. VerifyApachePath env attrs junk binary hInstall calls = (Inr res, c) \<and> held h c = held h calls"
    if "dirval \<noteq> []"
    using Verify_cases [OF assms(3) p _ assms(2) that, where attrs = attrs and hInstall = hInstall] assms(4) p by auto
  ultimately show ?thesis using p by (cases "VerifyApachePath env attrs junk binary hInstall calls") auto
qed

theorem installer_handles_closed_witness:
  "(\<exists>res c finds. ResolveApacheInstances sample_msi sample_fs 4 (replicate 261 NUL) ''httpd.exe'' 1 [] = (Inr res, c, finds) \<and>
      held 7 c = 0 \<and> finds_held 0 finds = 0) \<and>
   (\<exists>res c. VerifyApachePath sample_msi (fs_attrs sample_fs) (replicate 261 NUL) ''httpd.exe'' 1 [] = (Inr res, c) \<and> held 7 c = 0)"
proof -
  have f: "fs_names_ok sample_fs" by (auto simp: fs_names_ok_def sample_fs_def)
  have b: "binary_ok ''httpd.exe''" by (simp add: binary_ok_def MAX_PATH_def)
  have j: "length (replicate 261 NUL) = Suc MAX_PATH" by (simp add: MAX_PATH_def)
  have p: "NUL \<notin> set (snd (me_property sample_msi []))" "me_property sample_msi [] \<noteq> (ERROR_SUCCESS, [])"
    by (simp_all add: sample_msi_def)
  from installer_handles_closed [OF f b j p(1), where drives = 4 and hInstall = 1 and h = 7 and h' = 0 and attrs = "fs_attrs sample_fs"] p(2)
  show ?thesis by auto
qed

text \<open>\<open>VerifyApachePath\<close> on the property \<open>INSTALLDIR\<close>: a property that cannot be read or leaves no room
  is a bad path, an empty one reads the byte before the buffer, and any other path, with a
  separator added where it has none, is good exactly when the binary is there.\<close>

theorem verify_apache_path:
  assumes "length junk = Suc MAX_PATH" "me_property env calls = (res, dirval)" "NUL \<notin> set dirval" "binary_ok binary"
  shows "(res = ERROR_SUCCESS \<and> dirval = [] \<longrightarrow>
            fst (VerifyApachePath env attrs junk binary hInstall calls) = Inl PathOverrun) \<and>
    (dirval \<noteq> [] \<longrightarrow>
       (\<exists>c. VerifyApachePath env attrs junk binary hInstall calls = (Inr ERROR_SUCCESS, c) \<and>
          property_value ''_BadPath'' c = Some
            (if res = ERROR_SUCCESS \<and> length dirval + (length (chkfile binary) + 1) \<le> MAX_PATH \<and>
                attrs (with_separator dirval @ chkfile binary) \<noteq> None then ''0'' else ''1'')))"
proof (cases "dirval = []")
  case True
  have "length (chkfile binary) + 1 \<le> MAX_PATH" using assms(4) by (simp add: binary_ok_def chkfile_def)
  with True assms(1,2) show ?thesis
    by (auto simp: VerifyApachePath_def add_separator_def Let_def c_str_def MAX_PATH_def)
next
  case False
  from Verify_cases [OF assms False, where attrs = attrs and hInstall = hInstall] False show ?thesis by (auto cong: if_cong)
qed

theorem verify_apache_path_witness:
  "\<exists>c. VerifyApachePath sample_msi (fs_attrs sample_fs) (replicate 261 NUL) ''httpd.exe'' 1 [] = (Inr ERROR_SUCCESS, c) \<and>
     property_value ''_BadPath'' c = Some ''0''"
proof -
  have "length (replicate 261 NUL) = Suc MAX_PATH" "binary_ok ''httpd.exe''"
    by (simp_all add: binary_ok_def MAX_PATH_def)
  moreover have "me_property sample_msi [] = (ERROR_SUCCESS, ''C:'' @ CHR 0x5C # ''web'')"
    "NUL \<notin> set (''C:'' @ CHR 0x5C # ''web'')" by (simp_all add: sample_msi_def)
  moreover have "fs_attrs sample_fs (with_separator (''C:'' @ CHR 0x5C # ''web'') @ chkfile ''httpd.exe'') = Some ()"
    "length (''C:'' @ CHR 0x5C # ''web'') + (length (chkfile ''httpd.exe'') + 1) \<le> MAX_PATH" by code_simp+
  ultimately show ?thesis
    using verify_apache_path [of "replicate 261 NUL" sample_msi "[]" ERROR_SUCCESS "''C:'' @ CHR 0x5C # ''web''" "''httpd.exe''"
        "fs_attrs sample_fs" 1] by auto
qed

end
