(* ===== verification/Apr_Ring.thy ===== *)
theory Apr_Ring
  imports Main
begin

text \<open>
  The rings of APR (\<open>apache2_4_include/apr_ring.h\<close>), macros that are compiled into the module:
  doubly linked lists whose ends meet at a sentinel, an address that would be the head's if
  the head were an element. Addresses are integers; the memory holds, for the address of
  every \<open>APR_RING_ENTRY\<close> and every \<open>APR_RING_HEAD\<close>, the two pointers stored there. \<open>link\<close> is
  the offset of the entry in an element.
\<close>

section \<open>Memory and macros\<close>

record ring_mem =
  rm_next :: "int \<Rightarrow> int"
  rm_prev :: "int \<Rightarrow> int"

definition RING_SENTINEL :: "int \<Rightarrow> int \<Rightarrow> int" where "RING_SENTINEL link hp = hp - link"

definition RING_FIRST :: "int \<Rightarrow> ring_mem \<Rightarrow> int" where "RING_FIRST hp m = rm_next m hp"
definition RING_LAST :: "int \<Rightarrow> ring_mem \<Rightarrow> int" where "RING_LAST hp m = rm_prev m hp"
definition RING_NEXT :: "int \<Rightarrow> int \<Rightarrow> ring_mem \<Rightarrow> int" where "RING_NEXT link ep m = rm_next m (ep + link)"
definition RING_PREV :: "int \<Rightarrow> int \<Rightarrow> ring_mem \<Rightarrow> int" where "RING_PREV link ep m = rm_prev m (ep + link)"

text \<open>The assignments to \<open>APR_RING_NEXT\<close> and \<open>APR_RING_PREV\<close>.\<close>

definition set_next :: "int \<Rightarrow> int \<Rightarrow> int \<Rightarrow> ring_mem \<Rightarrow> ring_mem" where
  "set_next link ep v m = m\<lparr>rm_next := (rm_next m)(ep + link := v)\<rparr>"

definition set_prev :: "int \<Rightarrow> int \<Rightarrow> int \<Rightarrow> ring_mem \<Rightarrow> ring_mem" where
  "set_prev link ep v m = m\<lparr>rm_prev := (rm_prev m)(ep + link := v)\<rparr>"

definition RING_INIT :: "int \<Rightarrow> int \<Rightarrow> ring_mem \<Rightarrow> ring_mem" where
  "RING_INIT link hp m =
     (let m = m\<lparr>rm_next := (rm_next m)(hp := RING_SENTINEL link hp)\<rparr>;
          m = m\<lparr>rm_prev := (rm_prev m)(hp := RING_SENTINEL link hp)\<rparr>
      in m)"

definition RING_EMPTY :: "int \<Rightarrow> int \<Rightarrow> ring_mem \<Rightarrow> bool" where
  "RING_EMPTY link hp m \<longleftrightarrow> RING_FIRST hp m = RING_SENTINEL link hp"

definition RING_ELEM_INIT :: "int \<Rightarrow> int \<Rightarrow> ring_mem \<Rightarrow> ring_mem" where
  "RING_ELEM_INIT link ep m = set_prev link ep ep (set_next link ep ep m)"

definition RING_SPLICE_BEFORE :: "int \<Rightarrow> int \<Rightarrow> int \<Rightarrow> int \<Rightarrow> ring_mem \<Rightarrow> ring_mem" where
  "RING_SPLICE_BEFORE link lep ep1 epN m =
     (let m = set_next link epN lep m;
          m = set_prev link ep1 (RING_PREV link lep m) m;
          m = set_next link (RING_PREV link lep m) ep1 m;
          m = set_prev link lep epN m
      in m)"

definition RING_SPLICE_AFTER :: "int \<Rightarrow> int \<Rightarrow> int \<Rightarrow> int \<Rightarrow> ring_mem \<Rightarrow> ring_mem" where
  "RING_SPLICE_AFTER link lep ep1 epN m =
     (let m = set_prev link ep1 lep m;
          m = set_next link epN (RING_NEXT link lep m) m;
          m = set_prev link (RING_NEXT link lep m) epN m;
          m = set_next link lep ep1 m
      in m)"

definition RING_INSERT_BEFORE :: "int \<Rightarrow> int \<Rightarrow> int \<Rightarrow> ring_mem \<Rightarrow> ring_mem" where
  "RING_INSERT_BEFORE link lep nep m = RING_SPLICE_BEFORE link lep nep nep m"

definition RING_INSERT_AFTER :: "int \<Rightarrow> int \<Rightarrow> int \<Rightarrow> ring_mem \<Rightarrow> ring_mem" where
  "RING_INSERT_AFTER link lep nep m = RING_SPLICE_AFTER link lep nep nep m"

definition RING_SPLICE_HEAD :: "int \<Rightarrow> int \<Rightarrow> int \<Rightarrow> int \<Rightarrow> ring_mem \<Rightarrow> ring_mem" where
  "RING_SPLICE_HEAD link hp ep1 epN m = RING_SPLICE_AFTER link (RING_SENTINEL link hp) ep1 epN m"

definition RING_SPLICE_TAIL :: "int \<Rightarrow> int \<Rightarrow> int \<Rightarrow> int \<Rightarrow> ring_mem \<Rightarrow> ring_mem" where
  "RING_SPLICE_TAIL link hp ep1 epN m = RING_SPLICE_BEFORE link (RING_SENTINEL link hp) ep1 epN m"

definition RING_INSERT_HEAD :: "int \<Rightarrow> int \<Rightarrow> int \<Rightarrow> ring_mem \<Rightarrow> ring_mem" where
  "RING_INSERT_HEAD link hp nep m = RING_SPLICE_HEAD link hp nep nep m"

definition RING_INSERT_TAIL :: "int \<Rightarrow> int \<Rightarrow> int \<Rightarrow> ring_mem \<Rightarrow> ring_mem" where
  "RING_INSERT_TAIL link hp nep m = RING_SPLICE_TAIL link hp nep nep m"

definition RING_CONCAT :: "int \<Rightarrow> int \<Rightarrow> int \<Rightarrow> ring_mem \<Rightarrow> ring_mem" where
  "RING_CONCAT link h1 h2 m =
     (if \<not> RING_EMPTY link h2 m then
        (let m = RING_SPLICE_BEFORE link (RING_SENTINEL link h1) (RING_FIRST h2 m) (RING_LAST h2 m) m
         in RING_INIT link h2 m)
      else m)"

definition RING_PREPEND :: "int \<Rightarrow> int \<Rightarrow> int \<Rightarrow> ring_mem \<Rightarrow> ring_mem" where
  "RING_PREPEND link h1 h2 m =
     (if \<not> RING_EMPTY link h2 m then
        (let m = RING_SPLICE_AFTER link (RING_SENTINEL link h1) (RING_FIRST h2 m) (RING_LAST h2 m) m
         in RING_INIT link h2 m)
      else m)"

definition RING_UNSPLICE :: "int \<Rightarrow> int \<Rightarrow> int \<Rightarrow> ring_mem \<Rightarrow> ring_mem" where
  "RING_UNSPLICE link ep1 epN m =
     (let m = set_next link (RING_PREV link ep1 m) (RING_NEXT link epN m) m;
          m = set_prev link (RING_NEXT link epN m) (RING_PREV link ep1 m) m
      in m)"

definition RING_REMOVE :: "int \<Rightarrow> int \<Rightarrow> ring_mem \<Rightarrow> ring_mem" where
  "RING_REMOVE link ep m = RING_UNSPLICE link ep ep m"

text \<open>
  The loops, over a body that may change the memory and a state of its own. A loop that does
  not come back to the sentinel is \<open>None\<close>.
\<close>

partial_function (option) foreach_loop ::
  "int \<Rightarrow> int \<Rightarrow> (int \<Rightarrow> ring_mem \<times> 's \<Rightarrow> ring_mem \<times> 's) \<Rightarrow> int \<Rightarrow> ring_mem \<times> 's \<Rightarrow> (ring_mem \<times> 's) option" where
  "foreach_loop link hp body ep x =
     (if ep = RING_SENTINEL link hp then Some x
      else (let x = body ep x in foreach_loop link hp body (RING_NEXT link ep (fst x)) x))"

definition RING_FOREACH ::
  "int \<Rightarrow> int \<Rightarrow> (int \<Rightarrow> ring_mem \<times> 's \<Rightarrow> ring_mem \<times> 's) \<Rightarrow> ring_mem \<times> 's \<Rightarrow> (ring_mem \<times> 's) option" where
  "RING_FOREACH link hp body x = foreach_loop link hp body (RING_FIRST hp (fst x)) x"

partial_function (option) foreach_safe_loop ::
  "int \<Rightarrow> int \<Rightarrow> (int \<Rightarrow> ring_mem \<times> 's \<Rightarrow> ring_mem \<times> 's) \<Rightarrow> int \<Rightarrow> int \<Rightarrow> ring_mem \<times> 's \<Rightarrow> (ring_mem \<times> 's) option" where
  "foreach_safe_loop link hp body ep1 ep2 x =
     (if ep1 = RING_SENTINEL link hp then Some x
      else (let x = body ep1 x in foreach_safe_loop link hp body ep2 (RING_NEXT link ep2 (fst x)) x))"

definition RING_FOREACH_SAFE ::
  "int \<Rightarrow> int \<Rightarrow> (int \<Rightarrow> ring_mem \<times> 's \<Rightarrow> ring_mem \<times> 's) \<Rightarrow> ring_mem \<times> 's \<Rightarrow> (ring_mem \<times> 's) option" where
  "RING_FOREACH_SAFE link hp body x =
     (let ep1 = RING_FIRST hp (fst x) in foreach_safe_loop link hp body ep1 (RING_NEXT link ep1 (fst x)) x)"

text \<open>\<open>APR_RING_CHECK_ELEM_CONSISTENCY\<close>, a loop of assertions: \<open>Some False\<close> when one fails.\<close>

partial_function (option) check_loop :: "int \<Rightarrow> int \<Rightarrow> int \<Rightarrow> ring_mem \<Rightarrow> bool option" where
  "check_loop link start here m =
     (if RING_PREV link (RING_NEXT link here m) m \<noteq> here then Some False
      else if RING_NEXT link (RING_PREV link here m) m \<noteq> here then Some False
      else (let here = RING_NEXT link here m in
            if here \<noteq> start then check_loop link start here m else Some True))"

definition RING_CHECK_CONSISTENCY :: "int \<Rightarrow> int \<Rightarrow> ring_mem \<Rightarrow> bool option" where
  "RING_CHECK_CONSISTENCY link hp m = check_loop link (RING_SENTINEL link hp) (RING_SENTINEL link hp) m"

section \<open>Rings as lists\<close>

text \<open>Elements linked to each other in order, in both directions; a ring with its sentinel at both ends.\<close>

fun linked :: "int \<Rightarrow> ring_mem \<Rightarrow> int list \<Rightarrow> bool" where
  "linked link m (x # y # r) = (RING_NEXT link x m = y \<and> RING_PREV link y m = x \<and> linked link m (y # r))"
| "linked link m _ = True"

definition is_ring :: "int \<Rightarrow> int \<Rightarrow> int list \<Rightarrow> ring_mem \<Rightarrow> bool" where
  "is_ring link hp xs m \<longleftrightarrow>
     linked link m (RING_SENTINEL link hp # xs @ [RING_SENTINEL link hp]) \<and> distinct (RING_SENTINEL link hp # xs)"

lemma links_upd [simp]:
  "RING_NEXT link x (set_next link e v m) = (if x = e then v else RING_NEXT link x m)"
  "RING_PREV link x (set_prev link e v m) = (if x = e then v else RING_PREV link x m)"
  "RING_NEXT link x (set_prev link e v m) = RING_NEXT link x m"
  "RING_PREV link x (set_next link e v m) = RING_PREV link x m"
  by (simp_all add: RING_NEXT_def RING_PREV_def set_next_def set_prev_def)

lemma sentinel_links:
  "RING_FIRST hp m = RING_NEXT link (RING_SENTINEL link hp) m"
  "RING_LAST hp m = RING_PREV link (RING_SENTINEL link hp) m"
  "RING_INIT link hp m = set_prev link (RING_SENTINEL link hp) (RING_SENTINEL link hp)
     (set_next link (RING_SENTINEL link hp) (RING_SENTINEL link hp) m)"
  by (simp_all add: RING_FIRST_def RING_LAST_def RING_NEXT_def RING_PREV_def RING_SENTINEL_def RING_INIT_def
      set_next_def set_prev_def)

lemma linked_join:
  "xs \<noteq> [] \<Longrightarrow> ys \<noteq> [] \<Longrightarrow>
   linked link m (xs @ ys) \<longleftrightarrow>
     linked link m xs \<and> linked link m ys \<and> RING_NEXT link (last xs) m = hd ys \<and> RING_PREV link (hd ys) m = last xs"
proof (induction xs)
  case (Cons x xs)
  show ?case
  proof (cases xs)
    case Nil
    then show ?thesis using Cons.prems(2) by (cases ys) auto
  next
    case (Cons x' xs')
    with Cons.IH Cons.prems(2) show ?thesis by auto
  qed
qed simp

lemma linked_set_next [simp]: "e \<notin> set (butlast l) \<Longrightarrow> linked link (set_next link e v m) l = linked link m l"
  by (induction link m l rule: linked.induct) auto

lemma linked_set_prev [simp]: "e \<notin> set (tl l) \<Longrightarrow> linked link (set_prev link e v m) l = linked link m l"
  by (induction link m l rule: linked.induct) auto

text \<open>A ring cut at one place.\<close>

lemma is_ring_cut:
  "is_ring link hp (xs @ ys) m \<longleftrightarrow>
     (let s = RING_SENTINEL link hp in
      linked link m (s # xs) \<and> linked link m (ys @ [s]) \<and>
      RING_NEXT link (last (s # xs)) m = hd (ys @ [s]) \<and> RING_PREV link (hd (ys @ [s])) m = last (s # xs) \<and>
      distinct (s # xs @ ys))"
  using linked_join [of "RING_SENTINEL link hp # xs" "ys @ [RING_SENTINEL link hp]" link m]
  by (auto simp: is_ring_def Let_def)

lemma butlast_notin: "distinct l \<Longrightarrow> last l \<notin> set (butlast l)"
  by (cases l rule: rev_cases) auto

lemma is_ring_insert:
  assumes "zs \<noteq> []"
  shows "is_ring link hp (xs @ zs @ ys) m \<longleftrightarrow>
     (let s = RING_SENTINEL link hp in
      linked link m (s # xs) \<and> linked link m zs \<and> linked link m (ys @ [s]) \<and>
      RING_NEXT link (last (s # xs)) m = hd zs \<and> RING_PREV link (hd zs) m = last (s # xs) \<and>
      RING_NEXT link (last zs) m = hd (ys @ [s]) \<and> RING_PREV link (hd (ys @ [s])) m = last zs \<and>
      distinct (s # xs @ zs @ ys))"
  using assms linked_join [of zs "ys @ [RING_SENTINEL link hp]" link m]
  by (auto simp: is_ring_cut [of link hp xs "zs @ ys"] Let_def)

text \<open>The four assignments of a splice, in either order, between two stretches of a ring.\<close>

definition spliced :: "int \<Rightarrow> int list \<Rightarrow> int list \<Rightarrow> int list \<Rightarrow> ring_mem \<Rightarrow> bool" where
  "spliced link l1 zs l2 m \<longleftrightarrow>
     linked link m l1 \<and> linked link m zs \<and> linked link m l2 \<and>
     RING_NEXT link (last l1) m = hd zs \<and> RING_PREV link (hd zs) m = last l1 \<and>
     RING_NEXT link (last zs) m = hd l2 \<and> RING_PREV link (hd l2) m = last zs"

lemma splice_links:
  assumes "linked link m l1" "linked link m l2" "linked link m zs"
    "RING_NEXT link (last l1) m = hd l2" "RING_PREV link (hd l2) m = last l1"
    "last zs \<notin> set (butlast l1)" "last zs \<notin> set (butlast l2)" "last zs \<notin> set (butlast zs)"
    "hd zs \<notin> set (tl l1)" "hd zs \<notin> set (tl l2)" "hd zs \<notin> set (tl zs)"
    "last l1 \<notin> set (butlast l1)" "last l1 \<notin> set (butlast l2)" "last l1 \<notin> set (butlast zs)" "last l1 \<noteq> last zs"
    "hd l2 \<notin> set (tl l1)" "hd l2 \<notin> set (tl l2)" "hd l2 \<notin> set (tl zs)" "hd l2 \<noteq> hd zs"
  shows "spliced link l1 zs l2 (RING_SPLICE_BEFORE link (hd l2) (hd zs) (last zs) m)"
    and "spliced link l1 zs l2 (RING_SPLICE_AFTER link (last l1) (hd zs) (last zs) m)"
  using assms by (simp_all add: spliced_def RING_SPLICE_BEFORE_def RING_SPLICE_AFTER_def Let_def)

text \<open>
  Elements linked among themselves and foreign to a ring can be spliced in anywhere, also
  before the first element, after the last one and into an empty ring.
\<close>

definition foreign :: "int \<Rightarrow> int \<Rightarrow> int list \<Rightarrow> int list \<Rightarrow> ring_mem \<Rightarrow> bool" where
  "foreign link hp xs zs m \<longleftrightarrow>
     zs \<noteq> [] \<and> linked link m zs \<and> distinct zs \<and> set zs \<inter> set (RING_SENTINEL link hp # xs) = {}"

lemma splice_ok:
  assumes r: "is_ring link hp (xs @ ys) m" and z: "foreign link hp (xs @ ys) zs m"
  shows "is_ring link hp (xs @ zs @ ys)
      (RING_SPLICE_BEFORE link (hd (ys @ [RING_SENTINEL link hp])) (hd zs) (last zs) m)"
    and "is_ring link hp (xs @ zs @ ys)
      (RING_SPLICE_AFTER link (last (RING_SENTINEL link hp # xs)) (hd zs) (last zs) m)"
proof -
  let ?s = "RING_SENTINEL link hp"
  define l1 where "l1 = ?s # xs"
  define l2 where "l2 = ys @ [?s]"
  from r have R: "linked link m l1" "linked link m l2" "RING_NEXT link (last l1) m = hd l2"
      "RING_PREV link (hd l2) m = last l1" "distinct (?s # xs @ ys)"
    by (simp_all add: is_ring_cut Let_def l1_def l2_def)
  from z have Z: "zs \<noteq> []" "linked link m zs" "distinct zs" "set zs \<inter> set l1 = {}" "set zs \<inter> set l2 = {}"
    by (auto simp: foreign_def l1_def l2_def)
  have l1: "last l1 \<in> set l1" by (rule last_in_set) (simp add: l1_def)
  have l2: "hd l2 \<in> set l2" by (rule hd_in_set) (simp add: l2_def)
  have d: "hd l2 \<notin> set (tl l1)" "hd l2 \<notin> set (tl l2)"
    using R(5) by (cases ys; auto simp: l1_def l2_def)+
  have e: "last l1 \<notin> set (butlast l1)" "last l1 \<notin> set (butlast l2)"
    using R(5) by (cases xs rule: rev_cases; auto simp: l1_def l2_def butlast_append)+
  have zd: "last zs \<notin> set (butlast zs)" "hd zs \<notin> set (tl zs)"
    using Z(1,3) butlast_notin by (cases zs; auto)+
  have out: "last zs \<notin> set l1" "last zs \<notin> set l2" "hd zs \<notin> set l1" "hd zs \<notin> set l2" "last l1 \<notin> set zs" "hd l2 \<notin> set zs"
    using Z l1 l2 last_in_set [OF Z(1)] hd_in_set [OF Z(1)] by blast+
  have ne: "last l1 \<noteq> last zs" "hd l2 \<noteq> hd zs" using out Z(1) by auto
  have sub: "set (tl l) \<subseteq> set l" "set (butlast l) \<subseteq> set l" for l :: "int list"
    by (cases l; auto dest: in_set_butlastD)+
  note s = splice_links [OF R(1,2) Z(2) R(3,4)]
  have "spliced link l1 zs l2 m' \<Longrightarrow> is_ring link hp (xs @ zs @ ys) m'" for m'
    using Z R(5) by (auto simp: is_ring_insert [OF Z(1)] spliced_def l1_def l2_def Let_def)
  then show "is_ring link hp (xs @ zs @ ys) (RING_SPLICE_BEFORE link (hd (ys @ [?s])) (hd zs) (last zs) m)"
    and "is_ring link hp (xs @ zs @ ys) (RING_SPLICE_AFTER link (last (?s # xs)) (hd zs) (last zs) m)"
    using s out d e zd ne sub unfolding l1_def [symmetric] l2_def [symmetric] by (metis subsetD)+
qed

lemma unsplice_ok:
  assumes r: "is_ring link hp (xs @ zs @ ys) m" and z: "zs \<noteq> []"
  shows "is_ring link hp (xs @ ys) (RING_UNSPLICE link (hd zs) (last zs) m)"
    and "linked link (RING_UNSPLICE link (hd zs) (last zs) m) zs"
proof -
  let ?s = "RING_SENTINEL link hp"
  define l1 where "l1 = ?s # xs"
  define l2 where "l2 = ys @ [?s]"
  from r have R: "linked link m l1" "linked link m l2" "linked link m zs" "RING_NEXT link (last zs) m = hd l2"
      "RING_PREV link (hd zs) m = last l1" "distinct (?s # xs @ zs @ ys)"
    by (simp_all add: is_ring_insert [OF z] Let_def l1_def l2_def)
  have l1: "last l1 \<in> set l1" by (rule last_in_set) (simp add: l1_def)
  have l2: "hd l2 \<in> set l2" by (rule hd_in_set) (simp add: l2_def)
  have d: "hd l2 \<notin> set (tl l1)" "hd l2 \<notin> set (tl l2)"
    using R(6) by (cases ys; auto simp: l1_def l2_def)+
  have e: "last l1 \<notin> set (butlast l1)" "last l1 \<notin> set (butlast l2)"
    using R(6) by (cases xs rule: rev_cases; auto simp: l1_def l2_def butlast_append)+
  have out: "last l1 \<notin> set zs" "hd l2 \<notin> set zs"
    using R(6) l1 l2 by (auto simp: l1_def l2_def)
  have ne: "last l1 \<noteq> last zs" using out last_in_set [OF z] by metis
  have zs: "last l1 \<notin> set (butlast zs)" "hd l2 \<notin> set (tl zs)"
    using out by (auto dest: in_set_butlastD) (cases zs, auto)
  let ?m = "set_prev link (hd l2) (last l1) (set_next link (last l1) (hd l2) m)"
  have u: "RING_UNSPLICE link (hd zs) (last zs) m = ?m"
    using R(4,5) ne by (simp add: RING_UNSPLICE_def Let_def)
  have "linked link ?m l1" "linked link ?m l2" "RING_NEXT link (last l1) ?m = hd l2" "RING_PREV link (hd l2) ?m = last l1"
    using R(1,2) d e by simp_all
  then show "is_ring link hp (xs @ ys) (RING_UNSPLICE link (hd zs) (last zs) m)"
    using R(6) unfolding u by (auto simp: is_ring_cut Let_def l1_def l2_def)
  show "linked link (RING_UNSPLICE link (hd zs) (last zs) m) zs"
    using R(3) zs unfolding u by simp
qed

lemma is_ring_init: "is_ring link hp [] (RING_INIT link hp m)"
  by (simp add: is_ring_def sentinel_links(3))

lemma is_ring_other: "RING_SENTINEL link h2 \<notin> set (RING_SENTINEL link hp # xs) \<Longrightarrow>
    is_ring link hp xs (RING_INIT link h2 m) = is_ring link hp xs m"
proof -
  assume "RING_SENTINEL link h2 \<notin> set (RING_SENTINEL link hp # xs)"
  then have "RING_SENTINEL link h2 \<notin> set (tl (RING_SENTINEL link hp # xs @ [RING_SENTINEL link hp]))"
    "RING_SENTINEL link h2 \<notin> set (butlast (RING_SENTINEL link hp # xs @ [RING_SENTINEL link hp]))"
    by (auto simp: butlast_append)
  then show ?thesis unfolding is_ring_def sentinel_links(3) by simp
qed

lemma ring_ends:
  assumes "is_ring link hp xs m"
  shows "RING_FIRST hp m = hd (xs @ [RING_SENTINEL link hp])"
    and "RING_LAST hp m = last (RING_SENTINEL link hp # xs)"
    and "RING_EMPTY link hp m \<longleftrightarrow> xs = []"
proof -
  show f: "RING_FIRST hp m = hd (xs @ [RING_SENTINEL link hp])"
    using assms is_ring_cut [of link hp "[]" xs m] by (simp add: sentinel_links(1) [of hp m link] Let_def)
  show "RING_LAST hp m = last (RING_SENTINEL link hp # xs)"
    using assms is_ring_cut [of link hp xs "[]" m] by (simp add: sentinel_links(2) [of hp m link] Let_def)
  show "RING_EMPTY link hp m \<longleftrightarrow> xs = []"
    using assms f by (cases xs) (auto simp: RING_EMPTY_def is_ring_def)
qed

text \<open>A ring put behind or in front of another one.\<close>

lemma concat_ok:
  assumes r: "is_ring link h1 xs m" "is_ring link h2 zs m"
    and d: "set (RING_SENTINEL link h1 # xs) \<inter> set (RING_SENTINEL link h2 # zs) = {}"
  shows "is_ring link h1 (xs @ zs) (RING_CONCAT link h1 h2 m) \<and> is_ring link h2 [] (RING_CONCAT link h1 h2 m)"
    and "is_ring link h1 (zs @ xs) (RING_PREPEND link h1 h2 m) \<and> is_ring link h2 [] (RING_PREPEND link h1 h2 m)"
proof -
  note e = ring_ends [OF r(2)]
  have "linked link m zs" if "zs \<noteq> []"
    using r(2) is_ring_insert [OF that, of link h2 "[]" "[]" m] by (simp add: Let_def)
  then have "foreign link h1 xs zs m" if "zs \<noteq> []"
    using that r(2) d by (auto simp: foreign_def is_ring_def)
  note f = this
  have o: "RING_SENTINEL link h2 \<notin> set (RING_SENTINEL link h1 # xs @ zs)" "RING_SENTINEL link h2 \<notin> set (RING_SENTINEL link h1 # zs @ xs)"
    using d r(2) by (auto simp: is_ring_def)
  have "is_ring link h1 (xs @ zs) (RING_SPLICE_BEFORE link (RING_SENTINEL link h1) (hd zs) (last zs) m)"
    "is_ring link h1 (zs @ xs) (RING_SPLICE_AFTER link (RING_SENTINEL link h1) (hd zs) (last zs) m)" if "zs \<noteq> []"
    using splice_ok(1) [of link h1 xs "[]" m zs] splice_ok(2) [of link h1 "[]" xs m zs] r(1) f [OF that] by simp_all
  then show "is_ring link h1 (xs @ zs) (RING_CONCAT link h1 h2 m) \<and> is_ring link h2 [] (RING_CONCAT link h1 h2 m)"
    and "is_ring link h1 (zs @ xs) (RING_PREPEND link h1 h2 m) \<and> is_ring link h2 [] (RING_PREPEND link h1 h2 m)"
    using r e by (cases "zs = []";
      simp add: RING_CONCAT_def RING_PREPEND_def Let_def is_ring_init is_ring_other [OF o(1)] is_ring_other [OF o(2)])+
qed


section \<open>Single elements\<close>

lemma insert_ok:
  assumes r: "is_ring link hp (xs @ ys) m" and z: "z \<notin> set (RING_SENTINEL link hp # xs @ ys)"
  shows "is_ring link hp (xs @ z # ys) (RING_INSERT_BEFORE link (hd (ys @ [RING_SENTINEL link hp])) z m)"
    and "is_ring link hp (xs @ z # ys) (RING_INSERT_AFTER link (last (RING_SENTINEL link hp # xs)) z m)"
  using splice_ok [OF r, of "[z]"] z by (auto simp: foreign_def RING_INSERT_BEFORE_def RING_INSERT_AFTER_def)

lemma insert_end_ok:
  assumes r: "is_ring link hp xs m" and z: "z \<notin> set (RING_SENTINEL link hp # xs)"
  shows "is_ring link hp (z # xs) (RING_INSERT_HEAD link hp z m)"
    and "is_ring link hp (xs @ [z]) (RING_INSERT_TAIL link hp z m)"
  using insert_ok(2) [of link hp "[]" xs m z] insert_ok(1) [of link hp xs "[]" m z] r z
  by (simp_all add: RING_INSERT_HEAD_def RING_INSERT_TAIL_def RING_SPLICE_HEAD_def RING_SPLICE_TAIL_def
      RING_INSERT_BEFORE_def RING_INSERT_AFTER_def)

lemma remove_ok:
  "is_ring link hp (xs @ z # ys) m \<Longrightarrow> is_ring link hp (xs @ ys) (RING_REMOVE link z m)"
  using unsplice_ok(1) [of link hp xs "[z]" ys m] by (simp add: RING_REMOVE_def)

lemma ring_steps:
  assumes "is_ring link hp (xs @ x # ys) m"
  shows "RING_NEXT link x m = hd (ys @ [RING_SENTINEL link hp])"
    and "RING_PREV link x m = last (RING_SENTINEL link hp # xs)"
  using assms is_ring_insert [of "[x]" link hp xs ys m] by (simp_all add: Let_def)

section \<open>The loops\<close>

text \<open>A body that leaves the links alone sees every element once, in order.\<close>

lemma foreach_loop_fold:
  assumes "\<And>ep s. body ep (m, s) = (m, f ep s)"
  shows "is_ring link hp (xs @ ys) m \<Longrightarrow>
    foreach_loop link hp body (hd (ys @ [RING_SENTINEL link hp])) (m, s) = Some (m, fold f ys s)"
proof (induction ys arbitrary: xs s)
  case Nil
  show ?case by (subst foreach_loop.simps) simp
next
  case (Cons y ys)
  have "y \<noteq> RING_SENTINEL link hp" using Cons.prems by (auto simp: is_ring_def)
  with Cons.IH [of "xs @ [y]" "f y s"] Cons.prems show ?case
    by (subst foreach_loop.simps) (simp add: assms ring_steps(1) [OF Cons.prems])
qed

lemma foreach_fold:
  "(\<And>ep s. body ep (m, s) = (m, f ep s)) \<Longrightarrow> is_ring link hp xs m \<Longrightarrow>
   RING_FOREACH link hp body (m, s) = Some (m, fold f xs s)"
  using foreach_loop_fold [of body m f link hp "[]" xs s] ring_ends(1) [of link hp xs m]
  by (simp add: RING_FOREACH_def)

text \<open>The safe loop also when the body removes the current element.\<close>

definition remove_if :: "int \<Rightarrow> (int \<Rightarrow> bool) \<Rightarrow> (int \<Rightarrow> 's \<Rightarrow> 's) \<Rightarrow> int \<Rightarrow> ring_mem \<times> 's \<Rightarrow> ring_mem \<times> 's" where
  "remove_if link P f ep x = (if P ep then RING_REMOVE link ep (fst x) else fst x, f ep (snd x))"

lemma foreach_safe_loop_filter:
  "is_ring link hp (xs @ ys) m \<Longrightarrow>
   \<exists>m'. foreach_safe_loop link hp (remove_if link P f) (hd (ys @ [RING_SENTINEL link hp]))
       (RING_NEXT link (hd (ys @ [RING_SENTINEL link hp])) m) (m, s) = Some (m', fold f ys s) \<and>
     is_ring link hp (xs @ filter (\<lambda>x. \<not> P x) ys) m'"
proof (induction ys arbitrary: xs m s)
  case Nil
  then show ?case by (subst foreach_safe_loop.simps) simp
next
  case (Cons y ys)
  define xs' where "xs' = (if P y then xs else xs @ [y])"
  define m1 where "m1 = (if P y then RING_REMOVE link y m else m)"
  have r: "is_ring link hp (xs' @ ys) m1"
    using Cons.prems remove_ok [of link hp xs y ys m] by (simp add: xs'_def m1_def)
  have "y \<noteq> RING_SENTINEL link hp" using Cons.prems by (auto simp: is_ring_def)
  then have "foreach_safe_loop link hp (remove_if link P f) y (RING_NEXT link y m) (m, s) =
      foreach_safe_loop link hp (remove_if link P f) (hd (ys @ [RING_SENTINEL link hp]))
        (RING_NEXT link (hd (ys @ [RING_SENTINEL link hp])) m1) (m1, f y s)"
    by (subst foreach_safe_loop.simps) (simp add: remove_if_def m1_def ring_steps(1) [OF Cons.prems])
  moreover have "xs' @ filter (\<lambda>x. \<not> P x) ys = xs @ filter (\<lambda>x. \<not> P x) (y # ys)" by (simp add: xs'_def)
  ultimately show ?case using Cons.IH [OF r, of "f y s"] by simp
qed

lemma foreach_safe_filter:
  "is_ring link hp xs m \<Longrightarrow>
   \<exists>m'. RING_FOREACH_SAFE link hp (remove_if link P f) (m, s) = Some (m', fold f xs s) \<and>
     is_ring link hp (filter (\<lambda>x. \<not> P x) xs) m'"
  using foreach_safe_loop_filter [of link hp "[]" xs m P f s] ring_ends(1) [of link hp xs m]
  by (simp add: RING_FOREACH_SAFE_def Let_def)

section \<open>The consistency check\<close>

lemma linked_nth: "linked link m l \<Longrightarrow> Suc i < length l \<Longrightarrow> RING_PREV link (l ! Suc i) m = l ! i"
proof (induction link m l arbitrary: i rule: linked.induct)
  case (1 link m x y r)
  then show ?case by (cases i) auto
qed auto

lemma linked_distinct:
  assumes l: "linked link m (s # xs)" and s: "s \<notin> set xs"
  shows "distinct (s # xs)"
proof -
  have "i < j \<Longrightarrow> j < length (s # xs) \<Longrightarrow> (s # xs) ! i \<noteq> (s # xs) ! j" for i j
  proof (induction i arbitrary: j)
    case 0
    then show ?case using s by (cases j) auto
  next
    case (Suc i)
    then obtain j' where "j = Suc j'" by (cases j) auto
    with Suc linked_nth [OF l, of i] linked_nth [OF l, of j'] show ?case by fastforce
  qed
  then show ?thesis unfolding distinct_conv_nth by (metis nat_neq_iff)
qed

lemma check_loop_ring:
  "is_ring link hp (xs @ ys) m \<Longrightarrow>
   check_loop link (RING_SENTINEL link hp) (last (RING_SENTINEL link hp # xs)) m = Some True"
proof (induction ys arbitrary: xs)
  case Nil
  let ?s = "RING_SENTINEL link hp"
  from Nil have n: "RING_NEXT link (last (?s # xs)) m = ?s" "RING_PREV link ?s m = last (?s # xs)"
    using is_ring_cut [of link hp xs "[]" m] by (simp_all add: Let_def)
  have "RING_NEXT link (RING_PREV link (last (?s # xs)) m) m = last (?s # xs)"
  proof (cases xs rule: rev_cases)
    case Nil
    with n show ?thesis by simp
  next
    case (snoc xs' x)
    with \<open>is_ring link hp (xs @ []) m\<close> have r: "is_ring link hp (xs' @ [x]) m" by simp
    then show ?thesis using snoc is_ring_cut [of link hp xs' "[x]" m] by (simp add: ring_steps(2) [OF r] Let_def)
  qed
  with n show ?case by (subst check_loop.simps) simp
next
  case (Cons y ys)
  let ?s = "RING_SENTINEL link hp"
  from Cons.prems have n: "RING_NEXT link (last (?s # xs)) m = y" "RING_PREV link y m = last (?s # xs)" "y \<noteq> ?s"
    by (auto simp: is_ring_cut [of link hp xs "y # ys"] Let_def)
  have "RING_NEXT link (RING_PREV link (last (?s # xs)) m) m = last (?s # xs)"
  proof (cases xs rule: rev_cases)
    case Nil
    have "is_ring link hp ((y # ys) @ []) m" using Cons.prems Nil by simp
    then show ?thesis using Nil is_ring_cut [of link hp "y # ys" "[]" m] by (simp add: Let_def)
  next
    case (snoc xs' x)
    with Cons.prems have r: "is_ring link hp (xs' @ x # y # ys) m" by simp
    then show ?thesis using snoc is_ring_cut [of link hp xs' "x # y # ys" m] by (simp add: ring_steps(2) [OF r] Let_def)
  qed
  with n Cons.IH [of "xs @ [y]"] Cons.prems show ?case by (subst check_loop.simps) simp
qed

lemma check_loop_linked:
  assumes "check_loop link start here m = Some b" and b
  shows "\<exists>ys. linked link m (here # ys @ [start]) \<and> start \<notin> set ys"
proof -
  have "b \<longrightarrow> (\<exists>ys. linked link m (here # ys @ [start]) \<and> start \<notin> set ys)"
  proof (rule check_loop.raw_induct [where P = "\<lambda>link start here m b. b \<longrightarrow>
        (\<exists>ys. linked link m (here # ys @ [start]) \<and> start \<notin> set ys)", OF _ assms(1)])
    fix loop :: "int \<Rightarrow> int \<Rightarrow> int \<Rightarrow> ring_mem \<Rightarrow> bool option" and link start here m b
    assume ih: "\<And>link start here m b. loop link start here m = Some b \<Longrightarrow>
        b \<longrightarrow> (\<exists>ys. linked link m (here # ys @ [start]) \<and> start \<notin> set ys)"
      and eq: "(if RING_PREV link (RING_NEXT link here m) m \<noteq> here then Some False
        else if RING_NEXT link (RING_PREV link here m) m \<noteq> here then Some False
        else (let here = RING_NEXT link here m in
              if here \<noteq> start then loop link start here m else Some True)) = Some b"
    show "b \<longrightarrow> (\<exists>ys. linked link m (here # ys @ [start]) \<and> start \<notin> set ys)"
    proof
      assume b
      with eq have p: "RING_PREV link (RING_NEXT link here m) m = here" by (auto split: if_splits)
      show "\<exists>ys. linked link m (here # ys @ [start]) \<and> start \<notin> set ys"
      proof (cases "RING_NEXT link here m = start")
        case True
        with p show ?thesis by (intro exI [of _ "[]"]) simp
      next
        case False
        with eq \<open>b\<close> have "loop link start (RING_NEXT link here m) m = Some b" by (auto simp: Let_def split: if_splits)
        from ih [OF this] \<open>b\<close> obtain ys where "linked link m (RING_NEXT link here m # ys @ [start])" "start \<notin> set ys" by blast
        with p False show ?thesis by (intro exI [of _ "RING_NEXT link here m # ys"]) simp
      qed
    qed
  qed
  with assms(2) show ?thesis by simp
qed


section \<open>Correctness\<close>

text \<open>C30: A ring is a list. With a ring whose elements are xs and then ys, the first element, the
  last one and the test for the empty ring are those of the list, the next element after each
  one is its successor in the list; splicing a foreign stretch before the element that
  follows xs, or after the last of xs, gives xs, the stretch, ys, wherever the cut is, at
  the two ends and in an empty ring included; and unsplicing that stretch again gives the ring back.
\<close>

theorem ring_splices:
  assumes "is_ring link hp (xs @ ys) m" and "foreign link hp (xs @ ys) zs m"
    and "before = RING_SPLICE_BEFORE link (hd (ys @ [RING_SENTINEL link hp])) (hd zs) (last zs) m"
    and "after = RING_SPLICE_AFTER link (last (RING_SENTINEL link hp # xs)) (hd zs) (last zs) m"
  shows "RING_FIRST hp before = hd (xs @ zs) \<and> RING_LAST hp after = last (zs @ ys) \<and>
    (RING_EMPTY link hp m \<longleftrightarrow> xs @ ys = []) \<and> \<not> RING_EMPTY link hp before \<and> \<not> RING_EMPTY link hp after \<and>
    is_ring link hp (xs @ zs @ ys) before \<and> is_ring link hp (xs @ zs @ ys) after \<and>
    is_ring link hp (xs @ ys) (RING_UNSPLICE link (hd zs) (last zs) before) \<and>
    is_ring link hp (xs @ ys) (RING_UNSPLICE link (hd zs) (last zs) after)"
proof -
  have z: "zs \<noteq> []" using assms(2) by (simp add: foreign_def)
  have r: "is_ring link hp (xs @ zs @ ys) before" "is_ring link hp (xs @ zs @ ys) after"
    unfolding assms(3,4) by (rule splice_ok [OF assms(1,2)])+
  show ?thesis
    using r unsplice_ok(1) [OF r(1) z] unsplice_ok(1) [OF r(2) z] ring_ends [OF r(1)] ring_ends [OF r(2)]
      ring_ends(3) [OF assms(1)] z by (cases xs; cases zs) simp_all
qed

text \<open>The consistency check of the debug build, a loop of assertions that follows the links
  from the sentinel until it is back there, ends with every assertion true exactly when the
  memory holds a ring: some list of distinct elements linked in both directions.
\<close>

theorem ring_check_exact:
  "RING_CHECK_CONSISTENCY link hp m = Some True \<longleftrightarrow> (\<exists>xs. is_ring link hp xs m)"
proof
  let ?s = "RING_SENTINEL link hp"
  assume "RING_CHECK_CONSISTENCY link hp m = Some True"
  then obtain ys where y: "linked link m (?s # ys @ [?s])" "?s \<notin> set ys"
    using check_loop_linked [of link ?s ?s m True] by (auto simp: RING_CHECK_CONSISTENCY_def)
  have "linked link m (?s # ys)" using y(1) linked_join [of "?s # ys" "[?s]" link m] by simp
  then have "is_ring link hp ys m" using y linked_distinct [of link m ?s ys] by (simp add: is_ring_def)
  then show "\<exists>xs. is_ring link hp xs m" ..
next
  assume "\<exists>xs. is_ring link hp xs m"
  then obtain xs where "is_ring link hp xs m" ..
  then show "RING_CHECK_CONSISTENCY link hp m = Some True"
    using check_loop_ring [of link hp "[]" xs m] by (simp add: RING_CHECK_CONSISTENCY_def)
qed

text \<open>
  The two loops. A body that leaves the links alone is run once on every element, in
  order, and the loop ends. The safe loop also ends, having run its body on every element in order, when
  the body takes some of the elements out of the ring, and the ring then holds the others, in order.
\<close>

theorem ring_loops:
  assumes "is_ring link hp xs m"
  shows "RING_FOREACH link hp (\<lambda>ep x. (fst x, f ep (snd x))) (m, s) = Some (m, fold f xs s) \<and>
    (\<exists>m'. RING_FOREACH_SAFE link hp (remove_if link P f) (m, s) = Some (m', fold f xs s) \<and>
      is_ring link hp (filter (\<lambda>x. \<not> P x) xs) m')"
  using foreach_fold [of "\<lambda>ep x. (fst x, f ep (snd x))" m f] foreach_safe_filter assms by simp

text \<open>A ring of two elements with a link at offset 8, built from its head.\<close>

definition sample_ring :: ring_mem where
  "sample_ring = RING_INSERT_TAIL 8 100 300 (RING_INSERT_TAIL 8 100 200 (RING_INIT 8 100 \<lparr>rm_next = \<lambda>_. 0, rm_prev = \<lambda>_. 0\<rparr>))"

lemma sample_ring_ok: "is_ring 8 100 [200, 300] sample_ring"
proof -
  have "is_ring 8 100 ([200] @ [300]) sample_ring"
    unfolding sample_ring_def
    by (intro insert_end_ok(2) insert_end_ok(2) [of 8 100 "[]", simplified append_Nil] is_ring_init) (simp_all add: RING_SENTINEL_def)
  then show ?thesis by simp
qed

theorem ring_splices_witness:
  "is_ring 8 100 [500, 200, 300] (RING_SPLICE_BEFORE 8 200 500 500 sample_ring)"
  using ring_splices [of 8 100 "[]" "[200, 300]" sample_ring "[500]", OF _ _ refl refl] sample_ring_ok
  by (simp add: foreign_def RING_SENTINEL_def)

theorem ring_loops_witness:
  "RING_FOREACH 8 100 (\<lambda>ep x. (fst x, ep # snd x)) (sample_ring, []) = Some (sample_ring, [300, 200])"
  using ring_loops [OF sample_ring_ok, of "(#)" "[]" "\<lambda>_. False"] by simp

end
