(* ===== verification/Apr_Buckets.thy ===== *)
theory Apr_Buckets
  imports Apr_Ring Worker_Handler
begin

text \<open>
  Bucket brigades (the macros and structures of \<open>apache2_4_include/apr_buckets.h\<close>, compiled
  into the module): a brigade is a ring of buckets, and a bucket's type is a table of
  functions. Those functions belong to the APR library and are fields of the environment. The
  loop over an input brigade is written here as the worker request has it, on the ring; it
  does what \<open>drain\<close> of \<open>Worker_Input\<close> does on the list of the chunks that the buckets deliver.
\<close>

section \<open>Buckets and brigades\<close>

datatype apr_read_type_e = APR_BLOCK_READ | APR_NONBLOCK_READ

datatype bucket_metadata = APR_BUCKET_DATA | APR_BUCKET_METADATA

text \<open>
  A bucket without its links, which are in the ring memory at the bucket's own address, as \<open>link\<close>
  is the first member. The pointers, the one to \<open>free\<close> included, are addresses.
\<close>

record apr_bucket =
  b_type :: int
  b_length :: int
  b_start :: int
  b_data :: int
  b_free :: int
  b_list :: int

text \<open>The memory a bucket function can change: the links, the buckets and what is behind them.\<close>

record 'w bucket_mem =
  bm_ring :: ring_mem
  bm_bucket :: "int \<Rightarrow> apr_bucket"
  bm_world :: 'w

text \<open>\<open>read\<close> returns its status with the bytes it leaves at \<open>*str\<close> and \<open>*len\<close>; \<open>copy\<close> the new bucket.\<close>

record 'w apr_bucket_type_t =
  bt_name :: string
  bt_num_func :: int
  bt_is_metadata :: bucket_metadata
  bt_destroy :: "int \<Rightarrow> 'w bucket_mem \<Rightarrow> 'w bucket_mem"
  bt_read :: "int \<Rightarrow> apr_read_type_e \<Rightarrow> 'w bucket_mem \<Rightarrow> (apr_status_t \<times> string) \<times> 'w bucket_mem"
  bt_setaside :: "int \<Rightarrow> int \<Rightarrow> 'w bucket_mem \<Rightarrow> apr_status_t \<times> 'w bucket_mem"
  bt_split :: "int \<Rightarrow> nat \<Rightarrow> 'w bucket_mem \<Rightarrow> apr_status_t \<times> 'w bucket_mem"
  bt_copy :: "int \<Rightarrow> 'w bucket_mem \<Rightarrow> (apr_status_t \<times> int) \<times> 'w bucket_mem"

text \<open>
  The environment: the type structure at an address, the \<open>free\<close> function at an address, and
  the addresses of the structures \<open>apr_bucket_type_eos\<close> and so on.
\<close>

record 'w bucket_env =
  be_type :: "int \<Rightarrow> 'w apr_bucket_type_t"
  be_free :: "int \<Rightarrow> int \<Rightarrow> 'w bucket_mem \<Rightarrow> 'w bucket_mem"
  be_eos :: int
  be_flush :: int
  be_file :: int
  be_pipe :: int
  be_socket :: int
  be_heap :: int
  be_transient :: int
  be_immortal :: int
  be_mmap :: int
  be_pool :: int

text \<open>
  The layout on Win32: \<open>link\<close> is at the start of a bucket, and the list of a brigade follows
  the pointer to the pool, four bytes after its start.
\<close>

definition bucket_link :: int where "bucket_link = 0"
definition brigade_list :: "int \<Rightarrow> int" where "brigade_list b = b + 4"

definition on_ring :: "(ring_mem \<Rightarrow> ring_mem) \<Rightarrow> 'w bucket_mem \<Rightarrow> 'w bucket_mem" where
  "on_ring f m = m\<lparr>bm_ring := f (bm_ring m)\<rparr>"

definition BRIGADE_SENTINEL :: "int \<Rightarrow> int" where
  "BRIGADE_SENTINEL b = RING_SENTINEL bucket_link (brigade_list b)"

definition BRIGADE_EMPTY :: "int \<Rightarrow> 'w bucket_mem \<Rightarrow> bool" where
  "BRIGADE_EMPTY b m = RING_EMPTY bucket_link (brigade_list b) (bm_ring m)"

definition BRIGADE_FIRST :: "int \<Rightarrow> 'w bucket_mem \<Rightarrow> int" where
  "BRIGADE_FIRST b m = RING_FIRST (brigade_list b) (bm_ring m)"

definition BRIGADE_LAST :: "int \<Rightarrow> 'w bucket_mem \<Rightarrow> int" where
  "BRIGADE_LAST b m = RING_LAST (brigade_list b) (bm_ring m)"

definition BRIGADE_INSERT_HEAD :: "int \<Rightarrow> int \<Rightarrow> 'w bucket_mem \<Rightarrow> 'w bucket_mem" where
  "BRIGADE_INSERT_HEAD b e = on_ring (RING_INSERT_HEAD bucket_link (brigade_list b) e)"

definition BRIGADE_INSERT_TAIL :: "int \<Rightarrow> int \<Rightarrow> 'w bucket_mem \<Rightarrow> 'w bucket_mem" where
  "BRIGADE_INSERT_TAIL b e = on_ring (RING_INSERT_TAIL bucket_link (brigade_list b) e)"

definition BRIGADE_CONCAT :: "int \<Rightarrow> int \<Rightarrow> 'w bucket_mem \<Rightarrow> 'w bucket_mem" where
  "BRIGADE_CONCAT a b = on_ring (RING_CONCAT bucket_link (brigade_list a) (brigade_list b))"

definition BRIGADE_PREPEND :: "int \<Rightarrow> int \<Rightarrow> 'w bucket_mem \<Rightarrow> 'w bucket_mem" where
  "BRIGADE_PREPEND a b = on_ring (RING_PREPEND bucket_link (brigade_list a) (brigade_list b))"

definition BUCKET_INSERT_BEFORE :: "int \<Rightarrow> int \<Rightarrow> 'w bucket_mem \<Rightarrow> 'w bucket_mem" where
  "BUCKET_INSERT_BEFORE a b = on_ring (RING_INSERT_BEFORE bucket_link a b)"

definition BUCKET_INSERT_AFTER :: "int \<Rightarrow> int \<Rightarrow> 'w bucket_mem \<Rightarrow> 'w bucket_mem" where
  "BUCKET_INSERT_AFTER a b = on_ring (RING_INSERT_AFTER bucket_link a b)"

definition BUCKET_NEXT :: "int \<Rightarrow> 'w bucket_mem \<Rightarrow> int" where
  "BUCKET_NEXT e m = RING_NEXT bucket_link e (bm_ring m)"

definition BUCKET_PREV :: "int \<Rightarrow> 'w bucket_mem \<Rightarrow> int" where
  "BUCKET_PREV e m = RING_PREV bucket_link e (bm_ring m)"

definition BUCKET_REMOVE :: "int \<Rightarrow> 'w bucket_mem \<Rightarrow> 'w bucket_mem" where
  "BUCKET_REMOVE e = on_ring (RING_REMOVE bucket_link e)"

definition BUCKET_INIT :: "int \<Rightarrow> 'w bucket_mem \<Rightarrow> 'w bucket_mem" where
  "BUCKET_INIT e = on_ring (RING_ELEM_INIT bucket_link e)"

section \<open>Calls through the type of a bucket\<close>

definition bucket_type :: "'w bucket_env \<Rightarrow> int \<Rightarrow> 'w bucket_mem \<Rightarrow> 'w apr_bucket_type_t" where
  "bucket_type env e m = be_type env (b_type (bm_bucket m e))"

definition BUCKET_IS_METADATA :: "'w bucket_env \<Rightarrow> int \<Rightarrow> 'w bucket_mem \<Rightarrow> bool" where
  "BUCKET_IS_METADATA env e m \<longleftrightarrow> bt_is_metadata (bucket_type env e m) \<noteq> APR_BUCKET_DATA"

definition BUCKET_IS_FLUSH :: "'w bucket_env \<Rightarrow> int \<Rightarrow> 'w bucket_mem \<Rightarrow> bool" where
  "BUCKET_IS_FLUSH env e m \<longleftrightarrow> b_type (bm_bucket m e) = be_flush env"

definition BUCKET_IS_EOS :: "'w bucket_env \<Rightarrow> int \<Rightarrow> 'w bucket_mem \<Rightarrow> bool" where
  "BUCKET_IS_EOS env e m \<longleftrightarrow> b_type (bm_bucket m e) = be_eos env"

definition BUCKET_IS_FILE :: "'w bucket_env \<Rightarrow> int \<Rightarrow> 'w bucket_mem \<Rightarrow> bool" where
  "BUCKET_IS_FILE env e m \<longleftrightarrow> b_type (bm_bucket m e) = be_file env"

definition BUCKET_IS_PIPE :: "'w bucket_env \<Rightarrow> int \<Rightarrow> 'w bucket_mem \<Rightarrow> bool" where
  "BUCKET_IS_PIPE env e m \<longleftrightarrow> b_type (bm_bucket m e) = be_pipe env"

definition BUCKET_IS_SOCKET :: "'w bucket_env \<Rightarrow> int \<Rightarrow> 'w bucket_mem \<Rightarrow> bool" where
  "BUCKET_IS_SOCKET env e m \<longleftrightarrow> b_type (bm_bucket m e) = be_socket env"

definition BUCKET_IS_HEAP :: "'w bucket_env \<Rightarrow> int \<Rightarrow> 'w bucket_mem \<Rightarrow> bool" where
  "BUCKET_IS_HEAP env e m \<longleftrightarrow> b_type (bm_bucket m e) = be_heap env"

definition BUCKET_IS_TRANSIENT :: "'w bucket_env \<Rightarrow> int \<Rightarrow> 'w bucket_mem \<Rightarrow> bool" where
  "BUCKET_IS_TRANSIENT env e m \<longleftrightarrow> b_type (bm_bucket m e) = be_transient env"

definition BUCKET_IS_IMMORTAL :: "'w bucket_env \<Rightarrow> int \<Rightarrow> 'w bucket_mem \<Rightarrow> bool" where
  "BUCKET_IS_IMMORTAL env e m \<longleftrightarrow> b_type (bm_bucket m e) = be_immortal env"

definition BUCKET_IS_MMAP :: "'w bucket_env \<Rightarrow> int \<Rightarrow> 'w bucket_mem \<Rightarrow> bool" where
  "BUCKET_IS_MMAP env e m \<longleftrightarrow> b_type (bm_bucket m e) = be_mmap env"

definition BUCKET_IS_POOL :: "'w bucket_env \<Rightarrow> int \<Rightarrow> 'w bucket_mem \<Rightarrow> bool" where
  "BUCKET_IS_POOL env e m \<longleftrightarrow> b_type (bm_bucket m e) = be_pool env"

definition apr_bucket_destroy :: "'w bucket_env \<Rightarrow> int \<Rightarrow> 'w bucket_mem \<Rightarrow> 'w bucket_mem" where
  "apr_bucket_destroy env e m =
     (let m = bt_destroy (bucket_type env e m) (b_data (bm_bucket m e)) m
      in be_free env (b_free (bm_bucket m e)) e m)"

definition apr_bucket_delete :: "'w bucket_env \<Rightarrow> int \<Rightarrow> 'w bucket_mem \<Rightarrow> 'w bucket_mem" where
  "apr_bucket_delete env e m = apr_bucket_destroy env e (BUCKET_REMOVE e m)"

definition apr_bucket_read ::
  "'w bucket_env \<Rightarrow> int \<Rightarrow> apr_read_type_e \<Rightarrow> 'w bucket_mem \<Rightarrow> (apr_status_t \<times> string) \<times> 'w bucket_mem" where
  "apr_bucket_read env e block m = bt_read (bucket_type env e m) e block m"

definition apr_bucket_setaside :: "'w bucket_env \<Rightarrow> int \<Rightarrow> int \<Rightarrow> 'w bucket_mem \<Rightarrow> apr_status_t \<times> 'w bucket_mem" where
  "apr_bucket_setaside env e p m = bt_setaside (bucket_type env e m) e p m"

definition apr_bucket_split :: "'w bucket_env \<Rightarrow> int \<Rightarrow> nat \<Rightarrow> 'w bucket_mem \<Rightarrow> apr_status_t \<times> 'w bucket_mem" where
  "apr_bucket_split env e point m = bt_split (bucket_type env e m) e point m"

definition apr_bucket_copy :: "'w bucket_env \<Rightarrow> int \<Rightarrow> 'w bucket_mem \<Rightarrow> (apr_status_t \<times> int) \<times> 'w bucket_mem" where
  "apr_bucket_copy env e m = bt_copy (bucket_type env e m) e m"

section \<open>The loops over an input brigade\<close>

text \<open>
  The worker request has the same loop in two places: the first bucket is taken until the
  brigade is empty or a bucket says the end of the stream; a flush bucket is deleted; any
  other bucket is read, its bytes are worked on, and it is deleted, unless the work stops the function.
  \<open>at_eos\<close> and \<open>body\<close> are what the two places do differently.
\<close>

partial_function (option) bucket_loop ::
  "'w bucket_env \<Rightarrow> int \<Rightarrow> ('s \<Rightarrow> 's) \<Rightarrow> (apr_status_t \<Rightarrow> string \<Rightarrow> ('s, 'e, unit) run) \<Rightarrow>
   'w bucket_mem \<Rightarrow> 's \<Rightarrow> ((('e + unit) \<times> 's) \<times> 'w bucket_mem) option" where
  "bucket_loop env bb at_eos body m s =
     (if BRIGADE_EMPTY bb m then Some ((Inr (), s), m)
      else
        (let bucket = BRIGADE_FIRST bb m in
         if BUCKET_IS_EOS env bucket m then Some ((Inr (), at_eos s), apr_bucket_delete env bucket m)
         else if BUCKET_IS_FLUSH env bucket m then bucket_loop env bb at_eos body (apr_bucket_delete env bucket m) s
         else
           (let got = apr_bucket_read env bucket APR_BLOCK_READ m; m = snd got;
                t = body (fst (fst got)) (snd (fst got)) s
            in case fst t of
                 Inl e \<Rightarrow> Some ((Inl e, snd t), m)
               | Inr _ \<Rightarrow> bucket_loop env bb at_eos body (apr_bucket_delete env bucket m) (snd t))))"

text \<open>The loop of \<open>InternalReadEntityBody\<close>, and that of the preread in \<open>Handler\<close>.\<close>

definition read_chunk :: "apr_status_t \<Rightarrow> string \<Rightarrow> ('v reader, read_stop, unit) run" where
  "read_chunk rv data = (if rv \<noteq> APR_SUCCESS then othrow (Failed rv) else take_bytes data)"

definition drain_ring ::
  "'w bucket_env \<Rightarrow> int \<Rightarrow> 'w bucket_mem \<Rightarrow> 'v reader \<Rightarrow> (((read_stop + unit) \<times> 'v reader) \<times> 'w bucket_mem) option" where
  "drain_ring env bb = bucket_loop env bb (\<lambda>r. r\<lparr>rd_eos := True\<rparr>) read_chunk"

definition preread_chunk :: "encodings \<Rightarrow> apr_status_t \<Rightarrow> string \<Rightarrow> ('v preread_state, read_stop, unit) run" where
  "preread_chunk en rv data =
     obind (on_worker (read_log en ''Handler: brigade read failure prereading the request body'' rv (rv \<noteq> APR_SUCCESS)))
       (\<lambda>_. preread_bytes en data)"

definition preread_ring ::
  "'w bucket_env \<Rightarrow> encodings \<Rightarrow> int \<Rightarrow> 'w bucket_mem \<Rightarrow> 'v preread_state \<Rightarrow>
   (((read_stop + unit) \<times> 'v preread_state) \<times> 'w bucket_mem) option" where
  "preread_ring env en bb =
     bucket_loop env bb (\<lambda>s. snd (on_worker (omap (\<lambda>w. w\<lparr>wr_seen_eos := True\<rparr>)) s)) (preread_chunk en)"

section \<open>Brigades as lists\<close>

definition is_brigade :: "int \<Rightarrow> int list \<Rightarrow> 'w bucket_mem \<Rightarrow> bool" where
  "is_brigade bb es m \<longleftrightarrow> is_ring bucket_link (brigade_list bb) es (bm_ring m)"

lemma bm_ring_on_ring [simp]: "bm_ring (on_ring f m) = f (bm_ring m)"
  by (simp add: on_ring_def)

lemma brigade_ends:
  "is_brigade bb es m \<Longrightarrow> BRIGADE_EMPTY bb m \<longleftrightarrow> es = []"
  "is_brigade bb (e # es) m \<Longrightarrow> BRIGADE_FIRST bb m = e"
  using ring_ends(3) [of bucket_link "brigade_list bb" es "bm_ring m"]
    ring_ends(1) [of bucket_link "brigade_list bb" "e # es" "bm_ring m"]
  by (auto simp: is_brigade_def BRIGADE_EMPTY_def BRIGADE_FIRST_def)

lemma brigade_remove: "is_brigade bb (xs @ e # ys) m \<Longrightarrow> is_brigade bb (xs @ ys) (BUCKET_REMOVE e m)"
  by (simp add: is_brigade_def BUCKET_REMOVE_def remove_ok)

text \<open>Whether a ring holds its list is a matter of the links of its elements and of its head.\<close>

lemma linked_cong:
  "(\<And>a. a \<in> set l \<Longrightarrow> RING_NEXT link a m' = RING_NEXT link a m \<and> RING_PREV link a m' = RING_PREV link a m) \<Longrightarrow>
   linked link m' l = linked link m l"
  by (induction link m l rule: linked.induct) auto

lemma brigade_cong:
  assumes "\<And>a. a \<in> set (BRIGADE_SENTINEL bb # es) \<Longrightarrow> BUCKET_NEXT a m' = BUCKET_NEXT a m \<and> BUCKET_PREV a m' = BUCKET_PREV a m"
  shows "is_brigade bb es m' = is_brigade bb es m"
proof -
  have "linked bucket_link (bm_ring m') (BRIGADE_SENTINEL bb # es @ [BRIGADE_SENTINEL bb]) =
      linked bucket_link (bm_ring m) (BRIGADE_SENTINEL bb # es @ [BRIGADE_SENTINEL bb])"
    using assms by (intro linked_cong) (auto simp: BUCKET_NEXT_def BUCKET_PREV_def)
  then show ?thesis by (simp add: is_brigade_def is_ring_def BRIGADE_SENTINEL_def)
qed

text \<open>
  What the documentation of the functions behind a bucket type promises. \<open>holds m e\<close> is what
  is left in the bucket \<open>e\<close>: the chunks that reading it, and then the buckets it puts behind
  itself for the rest, delivers one by one. Destroying the first bucket, once removed, leaves the other
  buckets of its brigade and their links as they are; reading it delivers its first chunk and
  may put new buckets behind it for the rest, and leaves the other buckets as they are.
\<close>

definition bucket_contract :: "'w bucket_env \<Rightarrow> ('w bucket_mem \<Rightarrow> int \<Rightarrow> in_bucket list) \<Rightarrow> bool" where
  "bucket_contract env holds \<longleftrightarrow>
     (\<forall>m e. BUCKET_IS_EOS env e m \<longrightarrow> holds m e = [InEos]) \<and>
     (\<forall>m e. \<not> BUCKET_IS_EOS env e m \<longrightarrow> BUCKET_IS_FLUSH env e m \<longrightarrow> holds m e = [InFlush]) \<and>
     (\<forall>m e r. holds (m\<lparr>bm_ring := r\<rparr>) e = holds m e) \<and>
     (\<forall>bb e es m. is_brigade bb es m \<longrightarrow> e \<notin> set (BRIGADE_SENTINEL bb # es) \<longrightarrow>
        (\<forall>a \<in> set (BRIGADE_SENTINEL bb # es).
           BUCKET_NEXT a (apr_bucket_destroy env e m) = BUCKET_NEXT a m \<and>
           BUCKET_PREV a (apr_bucket_destroy env e m) = BUCKET_PREV a m) \<and>
        (\<forall>a \<in> set es. holds (apr_bucket_destroy env e m) a = holds m a)) \<and>
     (\<forall>bb e es m. is_brigade bb (e # es) m \<longrightarrow> \<not> BUCKET_IS_EOS env e m \<longrightarrow> \<not> BUCKET_IS_FLUSH env e m \<longrightarrow>
        (\<exists>rv bytes rest m' new. holds m e = InData rv bytes # rest \<and>
           apr_bucket_read env e APR_BLOCK_READ m = ((rv, bytes), m') \<and>
           is_brigade bb (e # new @ es) m' \<and> concat (map (holds m') new) = rest \<and>
           (\<forall>a \<in> set es. holds m' a = holds m a)))"

definition chunks :: "('w bucket_mem \<Rightarrow> int \<Rightarrow> in_bucket list) \<Rightarrow> int list \<Rightarrow> 'w bucket_mem \<Rightarrow> in_bucket list" where
  "chunks holds es m = concat (map (holds m) es)"

lemma contract_delete:
  assumes c: "bucket_contract env holds" and b: "is_brigade bb (e # es) m"
  shows "is_brigade bb es (apr_bucket_delete env e m)"
    and "chunks holds es (apr_bucket_delete env e m) = chunks holds es m"
proof -
  let ?m = "BUCKET_REMOVE e m"
  have r: "is_brigade bb es ?m" using brigade_remove [of bb "[]" e es m] b by simp
  have "e \<notin> set (BRIGADE_SENTINEL bb # es)" using b by (auto simp: is_brigade_def is_ring_def BRIGADE_SENTINEL_def)
  with r c have
    l: "\<And>a. a \<in> set (BRIGADE_SENTINEL bb # es) \<Longrightarrow> BUCKET_NEXT a (apr_bucket_destroy env e ?m) = BUCKET_NEXT a ?m \<and>
           BUCKET_PREV a (apr_bucket_destroy env e ?m) = BUCKET_PREV a ?m"
    and h: "\<And>a. a \<in> set es \<Longrightarrow> holds (apr_bucket_destroy env e ?m) a = holds ?m a"
    unfolding bucket_contract_def by blast+
  show "is_brigade bb es (apr_bucket_delete env e m)"
    using r brigade_cong [OF l, where es = es] by (simp add: apr_bucket_delete_def)
  have "holds ?m a = holds m a" for a
    using c by (simp add: bucket_contract_def BUCKET_REMOVE_def on_ring_def)
  with h show "chunks holds es (apr_bucket_delete env e m) = chunks holds es m"
    by (simp add: apr_bucket_delete_def chunks_def cong: map_cong)
qed

lemma contract_read:
  assumes c: "bucket_contract env holds" and b: "is_brigade bb (e # es) m"
    and "\<not> BUCKET_IS_EOS env e m" "\<not> BUCKET_IS_FLUSH env e m"
  obtains rv bytes m' new where "apr_bucket_read env e APR_BLOCK_READ m = ((rv, bytes), m')"
    "is_brigade bb (e # new @ es) m'" "chunks holds (e # es) m = InData rv bytes # chunks holds (new @ es) m'"
proof -
  from assms obtain rv bytes rest m' new where h: "holds m e = InData rv bytes # rest"
      "apr_bucket_read env e APR_BLOCK_READ m = ((rv, bytes), m')" "is_brigade bb (e # new @ es) m'"
      "concat (map (holds m') new) = rest" "\<forall>a \<in> set es. holds m' a = holds m a"
    unfolding bucket_contract_def by meson
  then have "chunks holds (e # es) m = InData rv bytes # chunks holds (new @ es) m'"
    by (simp add: chunks_def cong: map_cong)
  with h show ?thesis using that by blast
qed

section \<open>The loop on the list of chunks\<close>

fun chunk_loop :: "('s \<Rightarrow> 's) \<Rightarrow> (apr_status_t \<Rightarrow> string \<Rightarrow> ('s, 'e, unit) run) \<Rightarrow> in_bucket list \<Rightarrow> ('s, 'e, unit) run" where
  "chunk_loop at_eos body [] s = (Inr (), s)"
| "chunk_loop at_eos body (InEos # l) s = (Inr (), at_eos s)"
| "chunk_loop at_eos body (InFlush # l) s = chunk_loop at_eos body l s"
| "chunk_loop at_eos body (InData rv bytes # l) s =
     (case body rv bytes s of (Inl e, s) \<Rightarrow> (Inl e, s) | (Inr _, s) \<Rightarrow> chunk_loop at_eos body l s)"

lemma bucket_loop_chunks:
  assumes c: "bucket_contract env holds"
  shows "is_brigade bb es m \<Longrightarrow> \<exists>m' es'. bucket_loop env bb at_eos body m s =
    Some (chunk_loop at_eos body (chunks holds es m) s, m') \<and> is_brigade bb es' m'"
proof (induction "length (chunks holds es m)" arbitrary: es m s rule: less_induct)
  case less
  show ?case
  proof (cases es)
    case Nil
    with less.prems brigade_ends(1) [OF less.prems] show ?thesis
      by (intro exI [of _ m] exI [of _ "[]"]) (simp add: bucket_loop.simps chunks_def)
  next
    case (Cons e es')
    with less.prems have b: "is_brigade bb (e # es') m" by simp
    note first = brigade_ends(1) [OF b] brigade_ends(2) [OF b]
    note del = contract_delete [OF c b]
    consider (eos) "BUCKET_IS_EOS env e m" | (flush) "\<not> BUCKET_IS_EOS env e m" "BUCKET_IS_FLUSH env e m"
      | (data) "\<not> BUCKET_IS_EOS env e m" "\<not> BUCKET_IS_FLUSH env e m" by blast
    then show ?thesis
    proof cases
      case eos
      with c have "holds m e = [InEos]" by (simp add: bucket_contract_def)
      with eos first del Cons show ?thesis by (subst bucket_loop.simps) (auto simp: chunks_def Let_def)
    next
      case flush
      with c have "holds m e = [InFlush]" by (simp add: bucket_contract_def)
      with Cons del(2) have h: "chunks holds es m = InFlush # chunks holds es' (apr_bucket_delete env e m)"
        by (simp add: chunks_def)
      with less.hyps [OF _ del(1), of s] flush first show ?thesis
        by (subst bucket_loop.simps) (simp add: Let_def)
    next
      case data
      obtain rv bytes m' new where r: "apr_bucket_read env e APR_BLOCK_READ m = ((rv, bytes), m')"
          "is_brigade bb (e # new @ es') m'" "chunks holds es m = InData rv bytes # chunks holds (new @ es') m'"
        using contract_read [OF c b data] Cons by metis
      note del = contract_delete [OF c r(2)]
      show ?thesis
      proof (cases "fst (body rv bytes s)")
        case (Inl x)
        with data first r show ?thesis
          by (subst bucket_loop.simps) (auto simp: Let_def split: prod.splits)
      next
        case (Inr x)
        with less.hyps [OF _ del(1), of "snd (body rv bytes s)"] data first r del(2) show ?thesis
          by (subst bucket_loop.simps) (auto simp: Let_def split: prod.splits)
      qed
    qed
  qed
qed

lemma drain_chunks: "drain l r = chunk_loop (\<lambda>r. r\<lparr>rd_eos := True\<rparr>) read_chunk l r"
  by (induction l arbitrary: r rule: drain.induct)
    (auto simp: read_chunk_def obind_def oreturn_def othrow_def omap_def split: prod.splits sum.splits)

lemma preread_chunks:
  "preread_loop en l s = chunk_loop (\<lambda>s. snd (on_worker (omap (\<lambda>w. w\<lparr>wr_seen_eos := True\<rparr>)) s)) (preread_chunk en) l s"
  by (induction l arbitrary: s rule: preread_loop.induct)
    (auto simp: preread_chunk_def obind_def oreturn_def omap_def on_worker_def split: prod.splits sum.splits)

section \<open>Correctness\<close>

text \<open>C19: The brigades as the code has them. When the memory holds a brigade and the functions
  behind the buckets keep their contract, the loops of \<open>InternalReadEntityBody\<close> and of the
  preread, run on the ring itself with its removals and with buckets that turn into several
  while they are read, both end, do what their models on lists do on the chunks the
  buckets deliver, and leave a well-formed brigade for \<open>apr_brigade_cleanup\<close>.
\<close>

theorem entity_loops_on_rings:
  assumes "bucket_contract env holds" and "is_brigade bb es m"
  shows "(\<exists>m' es'. drain_ring env bb m r = Some (drain (chunks holds es m) r, m') \<and> is_brigade bb es' m') \<and>
    (\<exists>m' es'. preread_ring env en bb m s = Some (preread_loop en (chunks holds es m) s, m') \<and> is_brigade bb es' m')"
  unfolding drain_ring_def preread_ring_def drain_chunks preread_chunks
  by (intro conjI; rule bucket_loop_chunks [OF assms])

text \<open>A library of flush, end-of-stream and heap buckets; the world holds the bytes behind a data pointer.\<close>

definition heap_type :: "(int \<Rightarrow> string) apr_bucket_type_t" where
  "heap_type = \<lparr>bt_name = ''HEAP'', bt_num_func = 5, bt_is_metadata = APR_BUCKET_DATA, bt_destroy = (\<lambda>_ m. m),
     bt_read = (\<lambda>e _ m. ((APR_SUCCESS, bm_world m (b_data (bm_bucket m e))), m)), bt_setaside = (\<lambda>_ _ m. (APR_SUCCESS, m)),
     bt_split = (\<lambda>_ _ m. (70023, m)), bt_copy = (\<lambda>_ m. ((70023, 0), m))\<rparr>"

definition heap_env :: "(int \<Rightarrow> string) bucket_env" where
  "heap_env = \<lparr>be_type = (\<lambda>_. heap_type), be_free = (\<lambda>_ _ m. m), be_eos = 1, be_flush = 2, be_file = 3, be_pipe = 4,
     be_socket = 5, be_heap = 6, be_transient = 7, be_immortal = 8, be_mmap = 9, be_pool = 10\<rparr>"

definition heap_holds :: "(int \<Rightarrow> string) bucket_mem \<Rightarrow> int \<Rightarrow> in_bucket list" where
  "heap_holds m e =
     (if b_type (bm_bucket m e) = 1 then [InEos] else if b_type (bm_bucket m e) = 2 then [InFlush]
      else [InData APR_SUCCESS (bm_world m (b_data (bm_bucket m e)))])"

lemma heap_contract: "bucket_contract heap_env heap_holds"
  by (auto simp: bucket_contract_def heap_holds_def heap_env_def heap_type_def BUCKET_IS_EOS_def BUCKET_IS_FLUSH_def
      bucket_type_def apr_bucket_destroy_def apr_bucket_read_def Let_def intro: exI [of _ "[]"])

definition sample_brigade :: "(int \<Rightarrow> string) bucket_mem" where
  "sample_brigade =
     BRIGADE_INSERT_TAIL 100 400 (BRIGADE_INSERT_TAIL 100 300 (BRIGADE_INSERT_TAIL 100 200
       \<lparr>bm_ring = RING_INIT bucket_link (brigade_list 100) \<lparr>rm_next = \<lambda>_. 0, rm_prev = \<lambda>_. 0\<rparr>,
        bm_bucket = (\<lambda>e. \<lparr>b_type = (if e = 400 then 1 else if e = 300 then 2 else 6), b_length = 2, b_start = 0,
                          b_data = e, b_free = 0, b_list = 0\<rparr>),
        bm_world = (\<lambda>_. ''ab'')\<rparr>))"

lemma brigade_insert_tail:
  "is_brigade bb es m \<Longrightarrow> e \<notin> set (BRIGADE_SENTINEL bb # es) \<Longrightarrow> is_brigade bb (es @ [e]) (BRIGADE_INSERT_TAIL bb e m)"
  by (simp add: is_brigade_def BRIGADE_INSERT_TAIL_def BRIGADE_SENTINEL_def insert_end_ok(2))

lemma sample_brigade_ok: "is_brigade 100 [200, 300, 400] sample_brigade"
proof -
  have s: "BRIGADE_SENTINEL 100 = 104" by (simp add: BRIGADE_SENTINEL_def RING_SENTINEL_def bucket_link_def brigade_list_def)
  have "is_brigade 100 ((([] @ [200]) @ [300]) @ [400]) sample_brigade"
    unfolding sample_brigade_def
    by (intro brigade_insert_tail) (simp_all add: s is_brigade_def is_ring_init)
  then show ?thesis by simp
qed

lemma sample_brigade_chunks:
  "chunks heap_holds [200, 300, 400] sample_brigade = [InData APR_SUCCESS ''ab'', InFlush, InEos]"
  by (simp add: chunks_def heap_holds_def sample_brigade_def BRIGADE_INSERT_TAIL_def on_ring_def)

lemma sample_brigade_drained:
  "drain [InData APR_SUCCESS ''ab'', InFlush, InEos]
      \<lparr>rd_buf = ''....'', rd_pos = 1, rd_size = 3, rd_bytes_read = 0, rd_overflow = 0, rd_eos = False, rd_world = ()\<rparr> =
    (Inr (), \<lparr>rd_buf = ''.ab.'', rd_pos = 3, rd_size = 1, rd_bytes_read = 2, rd_overflow = 0, rd_eos = True,
      rd_world = ()\<rparr>)"
  by code_simp

theorem entity_loops_on_rings_witness:
  "\<exists>m'. drain_ring heap_env 100 sample_brigade
      \<lparr>rd_buf = ''....'', rd_pos = 1, rd_size = 3, rd_bytes_read = 0, rd_overflow = 0, rd_eos = False, rd_world = ()\<rparr> =
    Some ((Inr (), \<lparr>rd_buf = ''.ab.'', rd_pos = 3, rd_size = 1, rd_bytes_read = 2, rd_overflow = 0, rd_eos = True,
      rd_world = ()\<rparr>), m')"
  using conjunct1 [OF entity_loops_on_rings [OF heap_contract sample_brigade_ok]]
  unfolding sample_brigade_chunks sample_brigade_drained [symmetric] by blast

end
