(* ===== verification/Module_Table.thy ===== *)
theory Module_Table
  imports Module_Config
begin

unbundle bit_operations_syntax

text \<open>
  How httpd reaches the module: the table of directives, the hooks and the module structure
  at the end of \<open>mod/mod_aspdotnet.cpp\<close>, with the structures of \<open>http_config.h\<close> they
  fill. A pointer to a function of the module is the name of the function. The reading of a
  configuration is a sequence of steps, each the run of a table entry where its
  \<open>req_override\<close> lets it stand.
\<close>

section \<open>The structures of http_config.h\<close>

datatype cmd_how =
    RAW_ARGS | TAKE1 | TAKE2 | ITERATE | ITERATE2 | FLAG | NO_ARGS | TAKE12 | TAKE3 | TAKE23
  | TAKE123 | TAKE13 | TAKE_ARGV

text \<open>The functions the tables of this module point to.\<close>

datatype module_function =
    Fn_set_aspnet_enable | Fn_version_cmd | Fn_mount_cmd
  | Fn_create_asp_net_dirconf | Fn_merge_asp_net_dirconf
  | Fn_create_asp_net_srvconf | Fn_merge_asp_net_srvconf
  | Fn_register_hooks | Fn_asp_net_handler | Fn_asp_net_pre_config | Fn_asp_net_post_config

record command_rec =
  cmd_name :: c_ptr
  cmd_func :: "module_function option"
  cmd_data :: ptr
  req_override :: "32 word"
  args_how :: cmd_how
  errmsg :: c_ptr

definition AP_INIT_RAW_ARGS :: "string \<Rightarrow> module_function \<Rightarrow> ptr \<Rightarrow> 32 word \<Rightarrow> string \<Rightarrow> command_rec" where
  "AP_INIT_RAW_ARGS directive func mconfig place help_text =
     \<lparr>cmd_name = Some directive, cmd_func = Some func, cmd_data = mconfig, req_override = place,
      args_how = RAW_ARGS, errmsg = Some help_text\<rparr>"

definition AP_INIT_TAKE1 :: "string \<Rightarrow> module_function \<Rightarrow> ptr \<Rightarrow> 32 word \<Rightarrow> string \<Rightarrow> command_rec" where
  "AP_INIT_TAKE1 directive func mconfig place help_text =
     \<lparr>cmd_name = Some directive, cmd_func = Some func, cmd_data = mconfig, req_override = place,
      args_how = TAKE1, errmsg = Some help_text\<rparr>"

definition AP_INIT_TAKE2 :: "string \<Rightarrow> module_function \<Rightarrow> ptr \<Rightarrow> 32 word \<Rightarrow> string \<Rightarrow> command_rec" where
  "AP_INIT_TAKE2 directive func mconfig place help_text =
     \<lparr>cmd_name = Some directive, cmd_func = Some func, cmd_data = mconfig, req_override = place,
      args_how = TAKE2, errmsg = Some help_text\<rparr>"

definition OR_NONE :: "32 word" where "OR_NONE = 0"
definition OR_LIMIT :: "32 word" where "OR_LIMIT = 1"
definition OR_OPTIONS :: "32 word" where "OR_OPTIONS = 2"
definition OR_FILEINFO :: "32 word" where "OR_FILEINFO = 4"
definition OR_AUTHCFG :: "32 word" where "OR_AUTHCFG = 8"
definition OR_INDEXES :: "32 word" where "OR_INDEXES = 16"
definition OR_UNSET :: "32 word" where "OR_UNSET = 32"
definition ACCESS_CONF :: "32 word" where "ACCESS_CONF = 64"
definition RSRC_CONF :: "32 word" where "RSRC_CONF = 128"
definition OR_ALL :: "32 word" where
  "OR_ALL = (OR_LIMIT OR OR_OPTIONS OR OR_FILEINFO OR OR_AUTHCFG OR OR_INDEXES)"

lemmas override_defs = OR_NONE_def OR_LIMIT_def OR_OPTIONS_def OR_FILEINFO_def OR_AUTHCFG_def OR_INDEXES_def
  OR_UNSET_def ACCESS_CONF_def RSRC_CONF_def OR_ALL_def

record module_struct =
  md_version :: int
  md_minor_version :: int
  md_module_index :: int
  md_name :: string
  md_dynamic_load_handle :: ptr
  md_next :: ptr
  md_magic :: "32 word"
  md_rewrite_args :: "module_function option"
  md_create_dir_config :: "module_function option"
  md_merge_dir_config :: "module_function option"
  md_create_server_config :: "module_function option"
  md_merge_server_config :: "module_function option"
  md_cmds :: "command_rec list"
  md_register_hooks :: "module_function option"

definition MODULE_MAGIC_COOKIE :: "32 word" where "MODULE_MAGIC_COOKIE = 0x41503234"
definition MODULE_MAGIC_NUMBER_MAJOR :: int where "MODULE_MAGIC_NUMBER_MAJOR = 20120211"
definition MODULE_MAGIC_NUMBER_MINOR :: int where "MODULE_MAGIC_NUMBER_MINOR = 68"

text \<open>\<open>STANDARD20_MODULE_STUFF\<close>: the first eight members; \<open>src\<close> is \<open>__FILE__\<close>.\<close>

definition STANDARD20_MODULE_STUFF :: "string \<Rightarrow> module_struct" where
  "STANDARD20_MODULE_STUFF src =
     \<lparr>md_version = MODULE_MAGIC_NUMBER_MAJOR, md_minor_version = MODULE_MAGIC_NUMBER_MINOR, md_module_index = -1,
      md_name = src, md_dynamic_load_handle = None, md_next = None, md_magic = MODULE_MAGIC_COOKIE, md_rewrite_args = None,
      md_create_dir_config = None, md_merge_dir_config = None, md_create_server_config = None,
      md_merge_server_config = None, md_cmds = [], md_register_hooks = None\<rparr>"

section \<open>The tables of the module\<close>

definition quoted :: "string \<Rightarrow> string" where "quoted s = CHR 0x27 # s @ [CHR 0x27]"

definition asp_net_cmds :: "command_rec list" where
  "asp_net_cmds =
     [AP_INIT_RAW_ARGS ''AspNet'' Fn_set_aspnet_enable None OR_OPTIONS
        (''Allow ASP.NET to serve '' @ quoted ''Files'' @ '', '' @ quoted ''Dirs'' @ '', '' @ quoted ''Virtual'' @
         '', '' @ quoted ''All'' @ '', or '' @ quoted ''None''),
      AP_INIT_TAKE1 ''AspNetVersion'' Fn_version_cmd None RSRC_CONF
        ''Select a specific ASP.NET version in the format v#.#.####'',
      AP_INIT_TAKE2 ''AspNetMount'' Fn_mount_cmd None RSRC_CONF
        ''Mount a URI path to an ASP.NET AppDomain root directory'',
      \<lparr>cmd_name = None, cmd_func = None, cmd_data = None, req_override = 0, args_how = RAW_ARGS, errmsg = None\<rparr>]"

text \<open>The hooks: the point of httpd, the function and its place in the order.\<close>

datatype hook_point = Hook_handler | Hook_pre_config | Hook_post_config

definition APR_HOOK_MIDDLE :: int where "APR_HOOK_MIDDLE = 10"

definition register_hooks :: "(hook_point \<times> module_function \<times> int) list" where
  "register_hooks =
     [(Hook_handler, Fn_asp_net_handler, APR_HOOK_MIDDLE),
      (Hook_pre_config, Fn_asp_net_pre_config, APR_HOOK_MIDDLE),
      (Hook_post_config, Fn_asp_net_post_config, APR_HOOK_MIDDLE)]"

definition aspdotnet_module :: "string \<Rightarrow> module_struct" where
  "aspdotnet_module src = (STANDARD20_MODULE_STUFF src)
     \<lparr>md_create_dir_config := Some Fn_create_asp_net_dirconf, md_merge_dir_config := Some Fn_merge_asp_net_dirconf,
      md_create_server_config := Some Fn_create_asp_net_srvconf, md_merge_server_config := Some Fn_merge_asp_net_srvconf,
      md_cmds := asp_net_cmds, md_register_hooks := Some Fn_register_hooks\<rparr>"

section \<open>Reading a configuration\<close>

text \<open>
  The configuration under construction: the global structure, one structure per server and
  one per directory section. A directive has the arguments its entry of the table asks for.
\<close>

record config =
  cf_conf :: asp_net_conf
  cf_servers :: "nat \<Rightarrow> asp_net_srvconf"
  cf_dirs :: "nat \<Rightarrow> asp_net_dirconf"

datatype cmd_args = RawArgs string | Args1 string | Args2 string string

fun fits :: "cmd_how \<Rightarrow> cmd_args \<Rightarrow> bool" where
  "fits RAW_ARGS (RawArgs s) = True"
| "fits TAKE1 (Args1 s) = True"
| "fits TAKE2 (Args2 s t) = True"
| "fits _ _ = False"

fun args_text :: "cmd_args \<Rightarrow> string" where
  "args_text (RawArgs s) = s"
| "args_text (Args1 s) = s"
| "args_text (Args2 s t) = s @ t"

text \<open>The call of a directive's function for a server and a directory section.\<close>

fun run_command ::
  "(string \<Rightarrow> apr_status_t \<times> c_ptr) \<Rightarrow> (string \<Rightarrow> apr_status_t \<times> apr_filetype_e) \<Rightarrow> (string \<Rightarrow> string \<times> string) \<Rightarrow>
   module_function \<Rightarrow> cmd_args \<Rightarrow> nat \<Rightarrow> nat \<Rightarrow> config \<Rightarrow> config option" where
  "run_command fp_merge stat getword Fn_set_aspnet_enable (RawArgs s) srv dir c =
     map_option (\<lambda>(d, msg). c\<lparr>cf_dirs := (cf_dirs c)(dir := d)\<rparr>) (set_aspnet_enable getword (cf_dirs c dir) s)"
| "run_command fp_merge stat getword Fn_version_cmd (Args1 s) srv dir c =
     Some (c\<lparr>cf_conf := version_cmd (cf_conf c) s\<rparr>)"
| "run_command fp_merge stat getword Fn_mount_cmd (Args2 s t) srv dir c =
     (case mount_cmd fp_merge stat (cf_conf c) (cf_servers c srv) s t of
        (g, sc, log) \<Rightarrow> Some (c\<lparr>cf_conf := g, cf_servers := (cf_servers c)(srv := sc)\<rparr>))"
| "run_command fp_merge stat getword _ _ srv dir c = None"

inductive config_step ::
  "(string \<Rightarrow> apr_status_t \<times> c_ptr) \<Rightarrow> (string \<Rightarrow> apr_status_t \<times> apr_filetype_e) \<Rightarrow> (string \<Rightarrow> string \<times> string) \<Rightarrow>
   32 word \<Rightarrow> config \<Rightarrow> config \<Rightarrow> bool"
  for fp_merge stat getword place where
  directive: "cmd \<in> set asp_net_cmds \<Longrightarrow> cmd_func cmd = Some f \<Longrightarrow> place AND req_override cmd \<noteq> 0 \<Longrightarrow>
    fits (args_how cmd) args \<Longrightarrow> NUL \<notin> set (args_text args) \<Longrightarrow>
    run_command fp_merge stat getword f args srv dir c = Some c' \<Longrightarrow>
    config_step fp_merge stat getword place c c'"

inductive_cases config_stepE: "config_step fp_merge stat getword place c c'"

section \<open>Lemmas\<close>

lemma command_cases:
  assumes "cmd \<in> set asp_net_cmds" "cmd_func cmd = Some f"
  shows "(f = Fn_set_aspnet_enable \<and> req_override cmd = OR_OPTIONS \<and> args_how cmd = RAW_ARGS) \<or>
    (f = Fn_version_cmd \<and> req_override cmd = RSRC_CONF \<and> args_how cmd = TAKE1) \<or>
    (f = Fn_mount_cmd \<and> req_override cmd = RSRC_CONF \<and> args_how cmd = TAKE2)"
  using assms by (auto simp: asp_net_cmds_def AP_INIT_RAW_ARGS_def AP_INIT_TAKE1_def AP_INIT_TAKE2_def)

text \<open>A step is one of three.\<close>

lemma config_step_cases [consumes 1, case_names enable version mount]:
  assumes "config_step fp_merge stat getword place c c'"
  obtains line d msg dir where "place AND OR_OPTIONS \<noteq> 0"
      "set_aspnet_enable getword (cf_dirs c dir) line = Some (d, msg)" "c' = c\<lparr>cf_dirs := (cf_dirs c)(dir := d)\<rparr>"
  | ver where "place AND RSRC_CONF \<noteq> 0" "c' = c\<lparr>cf_conf := version_cmd (cf_conf c) ver\<rparr>"
  | uri root srv g sc log where "place AND RSRC_CONF \<noteq> 0" "NUL \<notin> set uri"
      "mount_cmd fp_merge stat (cf_conf c) (cf_servers c srv) uri root = (g, sc, log)"
      "c' = c\<lparr>cf_conf := g, cf_servers := (cf_servers c)(srv := sc)\<rparr>"
  using assms
proof (rule config_stepE)
  fix cmd f args srv dir
  assume cmd: "cmd \<in> set asp_net_cmds" "cmd_func cmd = Some f" and place: "place AND req_override cmd \<noteq> 0"
    and fit: "fits (args_how cmd) args" and nul: "NUL \<notin> set (args_text args)"
    and run: "run_command fp_merge stat getword f args srv dir c = Some c'"
  from command_cases [OF cmd] show thesis
  proof (elim disjE conjE)
    assume k: "f = Fn_set_aspnet_enable" "req_override cmd = OR_OPTIONS" "args_how cmd = RAW_ARGS"
    with fit obtain line where "args = RawArgs line" by (cases args) auto
    with run place k that(1) show thesis by auto
  next
    assume k: "f = Fn_version_cmd" "req_override cmd = RSRC_CONF" "args_how cmd = TAKE1"
    with fit obtain ver where "args = Args1 ver" by (cases args) auto
    with run place k that(2) show thesis by auto
  next
    assume k: "f = Fn_mount_cmd" "req_override cmd = RSRC_CONF" "args_how cmd = TAKE2"
    with fit obtain uri root where a: "args = Args2 uri root" by (cases args) auto
    obtain g sc log where m: "mount_cmd fp_merge stat (cf_conf c) (cf_servers c srv) uri root = (g, sc, log)"
      by (metis prod_cases3)
    show thesis by (rule that(3) [OF _ _ m]) (use run place k nul a m in auto)
  qed
qed

text \<open>The directive that mounts, on every branch.\<close>

lemma mount_cmd_keeps:
  assumes wf: "hosts_wf g" "NUL \<notin> set uri" and run: "mount_cmd fp_merge stat g sc uri rootarg = (g', sc', log)"
  shows "hosts_wf g'" and "aliases_wf g sc2 \<Longrightarrow> aliases_wf g' sc2" and "aliases_wf g sc \<Longrightarrow> aliases_wf g' sc'"
    and "g_host_store g b = Some h \<Longrightarrow> g_host_store g' b = Some h"
proof -
  consider (no) "g' = g" "sc' = sc" | (yes) root a where "mount_host g uri root = (g', a)" "sc' = sc\<lparr>sc_aliases :=
      (sc_aliases sc)(uri \<mapsto> \<lparr>al_virtual_path_len = length uri, al_virtual_path = uri, al_host = a\<rparr>)\<rparr>"
    using run by (auto simp: mount_cmd_def split: prod.splits option.splits if_splits)
  note c = this
  show "hosts_wf g'" using c
  proof cases
    case yes
    then show ?thesis using mount_host_wf wf by blast
  qed (simp add: wf)
  show "g_host_store g' b = Some h" if "g_host_store g b = Some h" using c
  proof cases
    case yes
    then show ?thesis using mount_host_extends wf that by blast
  qed (simp add: that)
  show "aliases_wf g' sc2" if "aliases_wf g sc2" using c
  proof cases
    case yes
    then show ?thesis using aliases_wf_extend [OF that wf(1)] by blast
  qed (simp add: that)
  show "aliases_wf g' sc'" if "aliases_wf g sc" using c
  proof cases
    case (yes root a)
    obtain h where h: "g_host_store g' a = Some h" "h_virtual_path h = uri" "h_physical_path h = root"
      using mount_host_record [OF wf yes(1)] by blast
    then show ?thesis using aliases_wf_extend [OF that wf(1) yes(1)] yes(2) by (auto simp: aliases_wf_def)
  qed (simp add: that)
qed

definition consumes_words :: "(string \<Rightarrow> string \<times> string) \<Rightarrow> bool" where
  "consumes_words getword \<longleftrightarrow> (\<forall>s. s \<noteq> [] \<longrightarrow> length (snd (getword s)) < length s)"

lemma set_aspnet_enable_values:
  assumes "consumes_words getword" "set_aspnet_enable getword dc line = Some (d, msg)"
  shows "dc_enable d \<in> flag_values"
proof -
  obtain ws where "splits getword line ws"
    using getword_splits assms(1) unfolding consumes_words_def by metis
  from set_aspnet_enable_loop_splits [OF this] assms(2)
  have "dc_enable d = fst (read_options ASPNET_OFF ws)"
    by (auto simp: set_aspnet_enable_def split: prod.splits)
  then show ?thesis using read_options_values [of ASPNET_OFF ws] by (simp add: flag_values_def)
qed

section \<open>The invariant of a configuration\<close>

definition config_wf :: "config \<Rightarrow> bool" where
  "config_wf c \<longleftrightarrow>
     hosts_wf (cf_conf c) \<and> (\<forall>srv. aliases_wf (cf_conf c) (cf_servers c srv)) \<and>
     (\<forall>dir. dc_enable (cf_dirs c dir) \<in> insert ASPNET_UNSET flag_values)"

definition new_config :: "asp_net_conf \<Rightarrow> config" where
  "new_config g = \<lparr>cf_conf = g, cf_servers = (\<lambda>_. create_asp_net_srvconf), cf_dirs = (\<lambda>_. create_asp_net_dirconf)\<rparr>"

definition config_run where
  "config_run fp_merge stat getword = rtranclp (\<lambda>c c'. \<exists>place. config_step fp_merge stat getword place c c')"

lemma new_config_wf: "hosts_wf g \<Longrightarrow> config_wf (new_config g)"
  by (simp add: config_wf_def new_config_def create_asp_net_srvconf_def create_asp_net_dirconf_def aliases_wf_def)

lemma version_cmd_keeps:
  "hosts_wf (version_cmd g ver) = hosts_wf g" "aliases_wf (version_cmd g ver) sc = aliases_wf g sc"
  "g_host_store (version_cmd g ver) = g_host_store g"
  by (simp_all add: version_cmd_def hosts_wf_def aliases_wf_def)

lemma config_step_keeps:
  assumes "config_step fp_merge stat getword place c c'" "config_wf c" "consumes_words getword"
  shows "config_wf c' \<and> (\<forall>b h. g_host_store (cf_conf c) b = Some h \<longrightarrow> g_host_store (cf_conf c') b = Some h)"
  using assms(1)
proof (cases rule: config_step_cases)
  case (enable line d msg dir)
  then show ?thesis
    using assms(2) set_aspnet_enable_values [OF assms(3) enable(2)] by (auto simp: config_wf_def)
next
  case (version ver)
  then show ?thesis using assms(2) by (simp add: config_wf_def version_cmd_keeps)
next
  case (mount uri root srv g sc log)
  with assms(2) mount_cmd_keeps [OF _ mount(2,3)] show ?thesis by (auto simp: config_wf_def)
qed

lemma config_run_keeps:
  assumes "config_run fp_merge stat getword c c'" "config_wf c" "consumes_words getword"
  shows "config_wf c' \<and> (\<forall>b h. g_host_store (cf_conf c) b = Some h \<longrightarrow> g_host_store (cf_conf c') b = Some h)"
  using assms(1) unfolding config_run_def
proof (induction rule: rtranclp_induct)
  case base
  show ?case using assms(2) by simp
next
  case (step c1 c2)
  then show ?case using config_step_keeps [OF _ _ assms(3)] by blast
qed

section \<open>Properties\<close>

text \<open>C36: whatever directives a configuration holds, in whatever order, for whatever servers and
  sections, and wherever they stand: after reading it, the table of hosts is well formed, the mounts of every
  server lead to host records with their own virtual path, every option value is one of the four
  the handler knows, and the host records that were there before are as they were.\<close>

theorem configuration_wf:
  assumes "hosts_wf g" "consumes_words getword" "config_run fp_merge stat getword (new_config g) c"
  shows "hosts_wf (cf_conf c) \<and> (\<forall>srv. aliases_wf (cf_conf c) (cf_servers c srv)) \<and>
    (\<forall>dir. dc_enable (cf_dirs c dir) \<in> insert ASPNET_UNSET flag_values) \<and>
    (\<forall>b h. g_host_store g b = Some h \<longrightarrow> g_host_store (cf_conf c) b = Some h)"
  using config_run_keeps [OF assms(3) new_config_wf [OF assms(1)] assms(2)]
  by (simp add: config_wf_def new_config_def)

text \<open>A directive that stands where the whole-server bit of its place is not set, in a directory
  section or an access file, can only change the option of that section: the mounts, the host
  records and the version, which all servers share, are as before.\<close>

theorem sections_cannot_mount:
  assumes "config_step fp_merge stat getword place c c'" "place AND RSRC_CONF = 0"
  shows "cf_conf c' = cf_conf c \<and> cf_servers c' = cf_servers c \<and>
    (\<exists>dir. \<forall>dir'. dir' \<noteq> dir \<longrightarrow> cf_dirs c' dir' = cf_dirs c dir') \<and> place AND OR_OPTIONS \<noteq> 0"
  using assms(1)
proof (cases rule: config_step_cases)
  case (enable line d msg dir)
  then show ?thesis by (auto intro: exI [of _ dir])
qed (use assms(2) in simp_all)

text \<open>A configuration of one mount and one option, with a reader that takes the whole line as one word.\<close>

lemma sample_steps:
  "config_step (\<lambda>r. (APR_SUCCESS, Some r)) (\<lambda>_. (APR_SUCCESS, APR_DIR)) (\<lambda>s. (s, [])) RSRC_CONF c
     (case mount_cmd (\<lambda>r. (APR_SUCCESS, Some r)) (\<lambda>_. (APR_SUCCESS, APR_DIR)) (cf_conf c) (cf_servers c 0) ''/app'' ''C:'' of
        (g, sc, log) \<Rightarrow> c\<lparr>cf_conf := g, cf_servers := (cf_servers c)(0 := sc)\<rparr>)"
  "config_step fp_merge stat (\<lambda>s. (s, [])) OR_OPTIONS c (c\<lparr>cf_dirs := (cf_dirs c)(1 := (cf_dirs c 1)\<lparr>dc_enable := ASPNET_FILES\<rparr>)\<rparr>)"
proof -
  show "config_step (\<lambda>r. (APR_SUCCESS, Some r)) (\<lambda>_. (APR_SUCCESS, APR_DIR)) (\<lambda>s. (s, [])) RSRC_CONF c
     (case mount_cmd (\<lambda>r. (APR_SUCCESS, Some r)) (\<lambda>_. (APR_SUCCESS, APR_DIR)) (cf_conf c) (cf_servers c 0) ''/app'' ''C:'' of
        (g, sc, log) \<Rightarrow> c\<lparr>cf_conf := g, cf_servers := (cf_servers c)(0 := sc)\<rparr>)"
    by (rule directive [where cmd = "asp_net_cmds ! 2" and f = Fn_mount_cmd and args = "Args2 ''/app'' ''C:''" and srv = 0 and dir = 0])
      (auto simp: asp_net_cmds_def AP_INIT_TAKE2_def RSRC_CONF_def split: prod.splits)
  have l: "set_aspnet_enable_loop (\<lambda>s. (s, [])) ASPNET_OFF ''Files'' = Some (ASPNET_FILES, None)"
    by (subst set_aspnet_enable_loop.simps, simp) (subst set_aspnet_enable_loop.simps, code_simp)
  show "config_step fp_merge stat (\<lambda>s. (s, [])) OR_OPTIONS c (c\<lparr>cf_dirs := (cf_dirs c)(1 := (cf_dirs c 1)\<lparr>dc_enable := ASPNET_FILES\<rparr>)\<rparr>)"
    by (rule directive [where cmd = "asp_net_cmds ! 0" and f = Fn_set_aspnet_enable and args = "RawArgs ''Files''" and srv = 0 and dir = 1])
      (use l in \<open>auto simp: asp_net_cmds_def AP_INIT_RAW_ARGS_def OR_OPTIONS_def set_aspnet_enable_def\<close>)
qed

theorem configuration_wf_witness:
  "\<exists>c. config_run (\<lambda>r. (APR_SUCCESS, Some r)) (\<lambda>_. (APR_SUCCESS, APR_DIR)) (\<lambda>s. (s, [])) (new_config new_asp_net_conf) c \<and>
     aliases_wf (cf_conf c) (cf_servers c 0)"
proof -
  let ?run = "config_run (\<lambda>r. (APR_SUCCESS, Some r)) (\<lambda>_. (APR_SUCCESS, APR_DIR)) (\<lambda>s. (s, []))"
  obtain c where c: "?run (new_config new_asp_net_conf) c"
    using sample_steps(1) unfolding config_run_def by blast
  have "hosts_wf new_asp_net_conf" by (simp add: hosts_wf_def new_asp_net_conf_def)
  from configuration_wf [OF this _ c] c show ?thesis by (auto simp: consumes_words_def)
qed

theorem sections_cannot_mount_witness:
  "\<exists>c. config_step (\<lambda>r. (APR_SUCCESS, Some r)) (\<lambda>_. (APR_SUCCESS, APR_DIR)) (\<lambda>s. (s, [])) OR_OPTIONS (new_config new_asp_net_conf) c \<and>
     cf_conf c = new_asp_net_conf"
  using sections_cannot_mount [OF sample_steps(2) [of "\<lambda>r. (APR_SUCCESS, Some r)" "\<lambda>_. (APR_SUCCESS, APR_DIR)" "new_config new_asp_net_conf"]]
    sample_steps(2) [of "\<lambda>r. (APR_SUCCESS, Some r)" "\<lambda>_. (APR_SUCCESS, APR_DIR)" "new_config new_asp_net_conf"]
  by (auto simp: OR_OPTIONS_def RSRC_CONF_def new_config_def)

end
