(* ===== verification/Apr_Hooks.thy ===== *)
theory Apr_Hooks
  imports Module_Table Module_Handler "HOL-Library.Multiset"
begin

text \<open>
  The hooks of httpd, as the macros of \<open>apr_hooks.h\<close> and \<open>apr_optional_hooks.h\<close> expand:
  the registration of a function, and the four ways to run the functions of a hook. A hook's
  functions have names, and \<open>call\<close> runs the function of a name on a state. The order in the
  array is that of \<open>apr_hook_sort_all\<close>, which is not in the repository: the theorems hold for
  any. The module's content handler is one function among others; what a chain needs to know of
  it is the contract \<open>selective_hook\<close>, interpreted here on \<open>asp_net_handler\<close>.
\<close>

section \<open>Registration\<close>

text \<open>The structure \<open>ns_LINK_name_t\<close> of a hook.\<close>

record 'f hook_link =
  hl_pFunc :: 'f
  hl_szName :: c_ptr
  hl_aszPredecessors :: "string list option"
  hl_aszSuccessors :: "string list option"
  hl_nOrder :: int

text \<open>
  The array of a hook, null before the first registration, with the calls of
  \<open>apr_hook_sort_register\<close> and \<open>apr_hook_debug_show\<close> made so far.
\<close>

record 'f hook_array =
  ha_link :: "'f hook_link list option"
  ha_sort_registered :: "string list"
  ha_debug_shown :: "string list"

definition no_hooks :: "'f hook_array" where
  "no_hooks = \<lparr>ha_link = None, ha_sort_registered = [], ha_debug_shown = []\<rparr>"

text \<open>\<open>debug_enabled\<close> and \<open>debug_current\<close> are the globals \<open>apr_hook_debug_enabled\<close> and \<open>apr_hook_debug_current\<close>.\<close>

definition ap_hook_add ::
  "bool \<Rightarrow> c_ptr \<Rightarrow> string \<Rightarrow> 'f \<Rightarrow> string list option \<Rightarrow> string list option \<Rightarrow> int \<Rightarrow> 'f hook_array \<Rightarrow> 'f hook_array" where
  "ap_hook_add debug_enabled debug_current name pf aszPre aszSucc nOrder hooks =
     (let hooks = (if ha_link hooks = None
                   then hooks\<lparr>ha_link := Some [], ha_sort_registered := ha_sort_registered hooks @ [name]\<rparr>
                   else hooks);
          pHook = \<lparr>hl_pFunc = pf, hl_szName = debug_current, hl_aszPredecessors = aszPre,
                   hl_aszSuccessors = aszSucc, hl_nOrder = nOrder\<rparr>;
          hooks = hooks\<lparr>ha_link := map_option (\<lambda>elts. elts @ [pHook]) (ha_link hooks)\<rparr>
      in if debug_enabled then hooks\<lparr>ha_debug_shown := ha_debug_shown hooks @ [name]\<rparr> else hooks)"

definition ap_hook_get :: "'f hook_array \<Rightarrow> 'f hook_link list option" where
  "ap_hook_get hooks = ha_link hooks"

section \<open>Running the functions of a hook\<close>

fun void_loop :: "('f \<Rightarrow> 's \<Rightarrow> 's) \<Rightarrow> 'f hook_link list \<Rightarrow> 's \<Rightarrow> 's" where
  "void_loop call [] s = s"
| "void_loop call (pHook # hs) s = void_loop call hs (call (hl_pFunc pHook) s)"

definition run_hook_void :: "('f \<Rightarrow> 's \<Rightarrow> 's) \<Rightarrow> 'f hook_link list option \<Rightarrow> 's \<Rightarrow> 's" where
  "run_hook_void call link s = (case link of None \<Rightarrow> s | Some elts \<Rightarrow> void_loop call elts s)"

fun all_loop :: "('f \<Rightarrow> 's \<Rightarrow> 'r \<times> 's) \<Rightarrow> 'r \<Rightarrow> 'r \<Rightarrow> 'f hook_link list \<Rightarrow> 'r \<Rightarrow> 's \<Rightarrow> 'r \<times> 's" where
  "all_loop call ok decline [] rv s = (rv, s)"
| "all_loop call ok decline (pHook # hs) rv s =
     (case call (hl_pFunc pHook) s of (rv, s) \<Rightarrow>
        if rv \<noteq> ok \<and> rv \<noteq> decline then (rv, s) else all_loop call ok decline hs ok s)"

definition run_hook_all ::
  "('f \<Rightarrow> 's \<Rightarrow> 'r \<times> 's) \<Rightarrow> 'r \<Rightarrow> 'r \<Rightarrow> 'f hook_link list option \<Rightarrow> 's \<Rightarrow> 'r \<times> 's" where
  "run_hook_all call ok decline link s =
     (case link of None \<Rightarrow> (ok, s) | Some elts \<Rightarrow> all_loop call ok decline elts ok s)"

fun first_loop :: "('f \<Rightarrow> 's \<Rightarrow> 'r \<times> 's) \<Rightarrow> 'r \<Rightarrow> 'f hook_link list \<Rightarrow> 'r \<Rightarrow> 's \<Rightarrow> 'r \<times> 's" where
  "first_loop call decline [] rv s = (rv, s)"
| "first_loop call decline (pHook # hs) rv s =
     (case call (hl_pFunc pHook) s of (rv, s) \<Rightarrow>
        if rv \<noteq> decline then (rv, s) else first_loop call decline hs rv s)"

definition run_hook_first ::
  "('f \<Rightarrow> 's \<Rightarrow> 'r \<times> 's) \<Rightarrow> 'r \<Rightarrow> 'f hook_link list option \<Rightarrow> 's \<Rightarrow> 'r \<times> 's" where
  "run_hook_first call decline link s =
     (case link of None \<Rightarrow> (decline, s) | Some elts \<Rightarrow> first_loop call decline elts decline s)"

text \<open>The optional hook returns from inside of its loop.\<close>

fun optional_loop :: "('f \<Rightarrow> 's \<Rightarrow> 'r \<times> 's) \<Rightarrow> 'r \<Rightarrow> 'r \<Rightarrow> 'f hook_link list \<Rightarrow> 's \<Rightarrow> 'r \<times> 's" where
  "optional_loop call ok decline [] s = (ok, s)"
| "optional_loop call ok decline (pHook # hs) s =
     (case call (hl_pFunc pHook) s of (rv, s) \<Rightarrow>
        if rv \<noteq> ok \<and> rv \<noteq> decline then (rv, s) else optional_loop call ok decline hs s)"

definition run_optional_hook_all ::
  "('f \<Rightarrow> 's \<Rightarrow> 'r \<times> 's) \<Rightarrow> 'r \<Rightarrow> 'r \<Rightarrow> 'f hook_link list option \<Rightarrow> 's \<Rightarrow> 'r \<times> 's" where
  "run_optional_hook_all call ok decline pHookArray s =
     (case pHookArray of None \<Rightarrow> (ok, s) | Some elts \<Rightarrow> optional_loop call ok decline elts s)"

section \<open>Lemmas\<close>

lemma optional_loop_all: "optional_loop call ok decline hs s = all_loop call ok decline hs ok s"
  by (induction hs arbitrary: s) (simp_all split: prod.split)

lemma all_loop_append:
  "all_loop call ok decline (hs @ hs') ok s =
     (case all_loop call ok decline hs ok s of (rv, s1) \<Rightarrow>
        if rv \<noteq> ok then (rv, s1) else all_loop call ok decline hs' ok s1)"
  by (induction hs arbitrary: s) (auto split: prod.split)

lemma first_loop_append:
  "first_loop call decline (hs @ hs') decline s =
     (case first_loop call decline hs decline s of (rv, s1) \<Rightarrow>
        if rv \<noteq> decline then (rv, s1) else first_loop call decline hs' decline s1)"
  by (induction hs arbitrary: s) (auto split: prod.split)

lemma run_optional_hook_all_eq: "run_optional_hook_all call ok decline link s = run_hook_all call ok decline link s"
  by (simp add: run_optional_hook_all_def run_hook_all_def optional_loop_all split: option.split)

text \<open>The functions of a hook that all run, up to the first failure.\<close>

lemma run_hook_all_stops:
  assumes "run_hook_all call ok decline (Some pre) s = (ok, s1)" "call (hl_pFunc h) s1 = (rv, s2)"
  shows "run_hook_all call ok decline (Some (pre @ h # post)) s =
    (if rv \<noteq> ok \<and> rv \<noteq> decline then (rv, s2) else run_hook_all call ok decline (Some post) s2)"
  using assms by (simp add: run_hook_all_def all_loop_append)

text \<open>A function that leaves alone what is not its own.\<close>

locale selective_hook =
  fixes body :: "'s \<Rightarrow> 'r \<times> 's" and decline :: 'r and mine :: "'s \<Rightarrow> bool"
  assumes passes: "\<not> mine s \<Longrightarrow> body s = (decline, s)"
begin

lemma passed_over:
  assumes "call (hl_pFunc h) = body" "run_hook_first call decline (Some pre) s = (decline, s1)" "\<not> mine s1"
  shows "run_hook_first call decline (Some (pre @ h # post)) s = run_hook_first call decline (Some (pre @ post)) s"
  using assms by (simp add: run_hook_first_def first_loop_append passes)

lemma taken:
  assumes "call (hl_pFunc h) = body" "run_hook_first call decline (Some pre) s = (decline, s1)"
    "fst (body s1) \<noteq> decline"
  shows "run_hook_first call decline (Some (pre @ h # post)) s = body s1"
  using assms by (simp add: run_hook_first_def first_loop_append split_beta)

end

section \<open>The hooks of the module\<close>

text \<open>What the arguments of \<open>ap_hook_handler\<close> and its kin register, for each point of httpd.\<close>

definition hook_name :: "hook_point \<Rightarrow> string" where
  "hook_name p = (case p of Hook_handler \<Rightarrow> ''handler'' | Hook_pre_config \<Rightarrow> ''pre_config''
     | Hook_post_config \<Rightarrow> ''post_config'')"

definition run_register_hooks ::
  "bool \<Rightarrow> c_ptr \<Rightarrow> (hook_point \<Rightarrow> (module_function + 'f) hook_array) \<Rightarrow>
   hook_point \<Rightarrow> (module_function + 'f) hook_array" where
  "run_register_hooks debug_enabled debug_current hooks =
     fold (\<lambda>(p, fn, nOrder) hooks.
         hooks(p := ap_hook_add debug_enabled debug_current (hook_name p) (Inl fn) None None nOrder (hooks p)))
       register_hooks hooks"

text \<open>The content handler as a function on the request, the factory and the error log.\<close>

definition handler_hook where
  "handler_hook handle add_common_vars add_cgi_vars coinitex coinit iter g sc dc =
     (\<lambda>(r, f, log). case asp_net_handler handle add_common_vars add_cgi_vars coinitex coinit iter g sc dc r f of
        (res, r, f, l) \<Rightarrow> (res, (r, f, log @ l)))"

interpretation asp: selective_hook
    "handler_hook handle add_common_vars add_cgi_vars coinitex coinit iter g sc dc"
    "Status DECLINED" "\<lambda>(r, f, log). r_handler r = Some ''asp.net''"
    for handle add_common_vars add_cgi_vars coinitex coinit iter g sc dc
  by unfold_locales (auto simp: handler_hook_def asp_net_handler_def check_request_def)

section \<open>Properties\<close>

text \<open>The link of the module's handler, as it is registered.\<close>

definition asp_link :: "c_ptr \<Rightarrow> (module_function + 'f) hook_link" where
  "asp_link debug_current = \<lparr>hl_pFunc = Inl Fn_asp_net_handler, hl_szName = debug_current,
     hl_aszPredecessors = None, hl_aszSuccessors = None, hl_nOrder = APR_HOOK_MIDDLE\<rparr>"

lemma handler_registered:
  "ap_hook_get (run_register_hooks dbg cur hooks Hook_handler) =
     Some ((case ap_hook_get (hooks Hook_handler) of None \<Rightarrow> [] | Some l \<Rightarrow> l) @ [asp_link cur])"
  by (simp add: run_register_hooks_def register_hooks_def ap_hook_get_def ap_hook_add_def asp_link_def Let_def
      split: option.split)

text \<open>C26: registering the module adds its handler to those of httpd, once and with the order
  \<open>APR_HOOK_MIDDLE\<close>, and keeps the others; wherever sorting then puts it, a request for another handler
  is served as if the module were not loaded, and one that the earlier handlers decline and the
  module answers has the module's answer, with no later handler run.\<close>

theorem handler_chain:
  assumes "call (Inl Fn_asp_net_handler) = handler_hook handle cv cg ciex ci iter g sc dc"
    "run_hook_first call (Status DECLINED) (Some pre) s = (Status DECLINED, s1)"
    "mset (pre @ asp_link cur # post) = mset (the (ap_hook_get (run_register_hooks dbg cur hooks Hook_handler)))"
  shows "mset (pre @ post) = mset (case ap_hook_get (hooks Hook_handler) of None \<Rightarrow> [] | Some l \<Rightarrow> l) \<and>
    (r_handler (fst s1) \<noteq> Some ''asp.net'' \<longrightarrow>
       run_hook_first call (Status DECLINED) (Some (pre @ asp_link cur # post)) s =
       run_hook_first call (Status DECLINED) (Some (pre @ post)) s) \<and>
    (fst (call (Inl Fn_asp_net_handler) s1) \<noteq> Status DECLINED \<longrightarrow>
       run_hook_first call (Status DECLINED) (Some (pre @ asp_link cur # post)) s =
       call (Inl Fn_asp_net_handler) s1)"
proof (intro conjI impI)
  show "mset (pre @ post) = mset (case ap_hook_get (hooks Hook_handler) of None \<Rightarrow> [] | Some l \<Rightarrow> l)"
    using assms(3) by (simp add: handler_registered)
  have c: "call (hl_pFunc (asp_link cur)) = handler_hook handle cv cg ciex ci iter g sc dc"
    using assms(1) by (simp add: asp_link_def)
  show "run_hook_first call (Status DECLINED) (Some (pre @ asp_link cur # post)) s =
       run_hook_first call (Status DECLINED) (Some (pre @ post)) s"
    if "r_handler (fst s1) \<noteq> Some ''asp.net''"
    by (rule asp.passed_over [OF c assms(2)]) (use that in \<open>simp add: split_beta\<close>)
  show "run_hook_first call (Status DECLINED) (Some (pre @ asp_link cur # post)) s =
       call (Inl Fn_asp_net_handler) s1"
    if "fst (call (Inl Fn_asp_net_handler) s1) \<noteq> Status DECLINED"
    using asp.taken [OF c assms(2)] that assms(1) by simp
qed

text \<open>Another module's handler, registered before and sorted behind.\<close>

definition sample_core :: "(module_function + string) hook_link" where
  "sample_core = \<lparr>hl_pFunc = Inr ''default_handler'', hl_szName = Some ''core.c'', hl_aszPredecessors = None,
     hl_aszSuccessors = None, hl_nOrder = 30\<rparr>"

definition sample_call :: "module_function + string \<Rightarrow> request_rec \<times> unit \<times> log_entry list \<Rightarrow>
    handler_result \<times> request_rec \<times> unit \<times> log_entry list" where
  "sample_call fn = (if fn = Inl Fn_asp_net_handler
     then handler_hook (\<lambda>k r f. (Inr 200, r, f)) id id S_OK S_OK (\<lambda>sc. []) new_asp_net_conf
            create_asp_net_srvconf create_asp_net_dirconf
     else (\<lambda>s. (Status HTTP_OK, s)))"

theorem handler_chain_witness:
  "run_hook_first sample_call (Status DECLINED) (Some [asp_link None, sample_core]) (request_zero, (), []) =
     (Status HTTP_OK, (request_zero, (), []))"
proof -
  have c: "sample_call (Inl Fn_asp_net_handler) = handler_hook (\<lambda>k r f. (Inr 200, r, f)) id id S_OK S_OK (\<lambda>sc. [])
      new_asp_net_conf create_asp_net_srvconf create_asp_net_dirconf" by (simp add: sample_call_def)
  have p: "run_hook_first sample_call (Status DECLINED) (Some []) (request_zero, (), []) =
      (Status DECLINED, (request_zero, (), []))"
    by (simp add: run_hook_first_def)
  let ?hooks = "\<lambda>p. \<lparr>ha_link = Some [sample_core], ha_sort_registered = [], ha_debug_shown = []\<rparr>"
  have m: "mset ([] @ asp_link None # [sample_core]) =
      mset (the (ap_hook_get (run_register_hooks False None ?hooks Hook_handler)))"
    by (simp only: handler_registered) (simp add: ap_hook_get_def)
  have "r_handler request_zero \<noteq> Some ''asp.net''" by (simp add: request_zero_def)
  with handler_chain [OF c p m]
  have "run_hook_first sample_call (Status DECLINED) (Some [asp_link None, sample_core]) (request_zero, (), []) =
      run_hook_first sample_call (Status DECLINED) (Some [sample_core]) (request_zero, (), [])" by simp
  also have "\<dots> = (Status HTTP_OK, (request_zero, (), []))"
    by (simp add: run_hook_first_def sample_core_def sample_call_def HTTP_OK_def DECLINED_def)
  finally show ?thesis .
qed

end
