(* ===== verification/Apr_Errno.thy ===== *)
theory Apr_Errno
  imports Httpd
begin

text \<open>
  The status codes of APR and their tests, as \<open>apr_errno.h\<close> defines them for Windows.
  The C library's \<open>errno\<close> values are the parameter \<open>en\<close>, \<open>None\<close> where
  \<open>errno.h\<close> does not define the name; the numbers of \<open>winerror.h\<close> are the
  parameter \<open>win\<close>. Neither header is in the repository: \<open>errno_small\<close> and
  \<open>win_numbers\<close> say what the theorems need of them. Every macro is a definition of its name.
\<close>

section \<open>Names of the platform\<close>

datatype errno_name =
    EACCES | EEXIST | ENAMETOOLONG | ENOENT | ENOTDIR | ENOSPC | ENOMEM | EMFILE | ENFILE | EBADF |
    EINVAL | ESPIPE | EAGAIN | EINTR | ENOTSOCK | ECONNREFUSED | EINPROGRESS | ECONNABORTED |
    ECONNRESET | ETIMEDOUT | EHOSTUNREACH | ENETUNREACH | EFTYPE | EPIPE | EXDEV | ENOTEMPTY |
    EAFNOSUPPORT | EOPNOTSUPP | ERANGE | EWOULDBLOCK

datatype (plugins only: code) win_error =
    ERROR_MOD_NOT_FOUND | ERROR_PROC_NOT_FOUND | ERROR_ACCESS_DENIED | ERROR_CANNOT_MAKE |
    ERROR_CURRENT_DIRECTORY | ERROR_DRIVE_LOCKED | ERROR_FAIL_I24 | ERROR_LOCK_VIOLATION |
    ERROR_LOCK_FAILED | ERROR_NOT_LOCKED | ERROR_NETWORK_ACCESS_DENIED | ERROR_SHARING_VIOLATION |
    ERROR_FILE_EXISTS | ERROR_ALREADY_EXISTS | ERROR_FILENAME_EXCED_RANGE | WSAENAMETOOLONG |
    ERROR_FILE_NOT_FOUND | ERROR_PATH_NOT_FOUND | ERROR_OPEN_FAILED | ERROR_NO_MORE_FILES |
    ERROR_BAD_NETPATH | ERROR_BAD_NET_NAME | ERROR_BAD_PATHNAME | ERROR_INVALID_DRIVE |
    ERROR_DIRECTORY | ERROR_DISK_FULL | ERROR_ARENA_TRASHED | ERROR_NOT_ENOUGH_MEMORY |
    ERROR_INVALID_BLOCK | ERROR_NOT_ENOUGH_QUOTA | ERROR_OUTOFMEMORY | ERROR_TOO_MANY_OPEN_FILES |
    ERROR_INVALID_HANDLE | ERROR_INVALID_TARGET_HANDLE | ERROR_INVALID_ACCESS | ERROR_INVALID_DATA |
    ERROR_INVALID_FUNCTION | ERROR_INVALID_PARAMETER | ERROR_NEGATIVE_SEEK | ERROR_SEEK_ON_DEVICE |
    ERROR_NO_DATA | ERROR_NO_PROC_SLOTS | ERROR_NESTING_NOT_ALLOWED | ERROR_MAX_THRDS_REACHED |
    WSAEWOULDBLOCK | WSAEINTR | WSAENOTSOCK | WSAECONNREFUSED | WSAEINPROGRESS | WSAECONNABORTED |
    ERROR_NETNAME_DELETED | WSAECONNRESET | WSAETIMEDOUT | WAIT_TIMEOUT | WSAEHOSTUNREACH |
    WSAENETUNREACH | ERROR_EXE_MACHINE_TYPE_MISMATCH | ERROR_INVALID_DLL | ERROR_INVALID_MODULETYPE |
    ERROR_BAD_EXE_FORMAT | ERROR_INVALID_EXE_SIGNATURE | ERROR_FILE_CORRUPT | ERROR_BAD_FORMAT |
    ERROR_BROKEN_PIPE | ERROR_NOT_SAME_DEVICE | ERROR_DIR_NOT_EMPTY | WSAEAFNOSUPPORT | WSAEOPNOTSUPP

type_synonym errno_env = "errno_name \<Rightarrow> apr_status_t option"
type_synonym win_env = "win_error \<Rightarrow> 32 word"

section \<open>Error and status codes of APR\<close>

definition APR_ENOSTAT :: apr_status_t where "APR_ENOSTAT = APR_OS_START_ERROR + 1"
definition APR_ENOPOOL :: apr_status_t where "APR_ENOPOOL = APR_OS_START_ERROR + 2"
definition APR_EBADDATE :: apr_status_t where "APR_EBADDATE = APR_OS_START_ERROR + 4"
definition APR_EINVALSOCK :: apr_status_t where "APR_EINVALSOCK = APR_OS_START_ERROR + 5"
definition APR_ENOPROC :: apr_status_t where "APR_ENOPROC = APR_OS_START_ERROR + 6"
definition APR_ENOTIME :: apr_status_t where "APR_ENOTIME = APR_OS_START_ERROR + 7"
definition APR_ENODIR :: apr_status_t where "APR_ENODIR = APR_OS_START_ERROR + 8"
definition APR_ENOLOCK :: apr_status_t where "APR_ENOLOCK = APR_OS_START_ERROR + 9"
definition APR_ENOPOLL :: apr_status_t where "APR_ENOPOLL = APR_OS_START_ERROR + 10"
definition APR_ENOSOCKET :: apr_status_t where "APR_ENOSOCKET = APR_OS_START_ERROR + 11"
definition APR_ENOTHREAD :: apr_status_t where "APR_ENOTHREAD = APR_OS_START_ERROR + 12"
definition APR_ENOTHDKEY :: apr_status_t where "APR_ENOTHDKEY = APR_OS_START_ERROR + 13"
definition APR_EGENERAL :: apr_status_t where "APR_EGENERAL = APR_OS_START_ERROR + 14"
definition APR_ENOSHMAVAIL :: apr_status_t where "APR_ENOSHMAVAIL = APR_OS_START_ERROR + 15"
definition APR_EBADIP :: apr_status_t where "APR_EBADIP = APR_OS_START_ERROR + 16"
definition APR_EBADMASK :: apr_status_t where "APR_EBADMASK = APR_OS_START_ERROR + 17"
definition APR_EDSOOPEN :: apr_status_t where "APR_EDSOOPEN = APR_OS_START_ERROR + 19"
definition APR_EABSOLUTE :: apr_status_t where "APR_EABSOLUTE = APR_OS_START_ERROR + 20"
definition APR_ERELATIVE :: apr_status_t where "APR_ERELATIVE = APR_OS_START_ERROR + 21"
definition APR_EINCOMPLETE :: apr_status_t where "APR_EINCOMPLETE = APR_OS_START_ERROR + 22"
definition APR_EABOVEROOT :: apr_status_t where "APR_EABOVEROOT = APR_OS_START_ERROR + 23"
definition APR_EBADPATH :: apr_status_t where "APR_EBADPATH = APR_OS_START_ERROR + 24"
definition APR_EPATHWILD :: apr_status_t where "APR_EPATHWILD = APR_OS_START_ERROR + 25"
definition APR_ESYMNOTFOUND :: apr_status_t where "APR_ESYMNOTFOUND = APR_OS_START_ERROR + 26"
definition APR_EPROC_UNKNOWN :: apr_status_t where "APR_EPROC_UNKNOWN = APR_OS_START_ERROR + 27"
definition APR_ENOTENOUGHENTROPY :: apr_status_t where "APR_ENOTENOUGHENTROPY = APR_OS_START_ERROR + 28"
definition APR_INCHILD :: apr_status_t where "APR_INCHILD = APR_OS_START_STATUS + 1"
definition APR_INPARENT :: apr_status_t where "APR_INPARENT = APR_OS_START_STATUS + 2"
definition APR_DETACH :: apr_status_t where "APR_DETACH = APR_OS_START_STATUS + 3"
definition APR_NOTDETACH :: apr_status_t where "APR_NOTDETACH = APR_OS_START_STATUS + 4"
definition APR_CHILD_DONE :: apr_status_t where "APR_CHILD_DONE = APR_OS_START_STATUS + 5"
definition APR_CHILD_NOTDONE :: apr_status_t where "APR_CHILD_NOTDONE = APR_OS_START_STATUS + 6"
definition APR_TIMEUP :: apr_status_t where "APR_TIMEUP = APR_OS_START_STATUS + 7"
definition APR_INCOMPLETE :: apr_status_t where "APR_INCOMPLETE = APR_OS_START_STATUS + 8"
definition APR_BADCH :: apr_status_t where "APR_BADCH = APR_OS_START_STATUS + 12"
definition APR_BADARG :: apr_status_t where "APR_BADARG = APR_OS_START_STATUS + 13"
definition APR_EOF :: apr_status_t where "APR_EOF = APR_OS_START_STATUS + 14"
definition APR_NOTFOUND :: apr_status_t where "APR_NOTFOUND = APR_OS_START_STATUS + 15"
definition APR_ANONYMOUS :: apr_status_t where "APR_ANONYMOUS = APR_OS_START_STATUS + 19"
definition APR_FILEBASED :: apr_status_t where "APR_FILEBASED = APR_OS_START_STATUS + 20"
definition APR_KEYBASED :: apr_status_t where "APR_KEYBASED = APR_OS_START_STATUS + 21"
definition APR_EINIT :: apr_status_t where "APR_EINIT = APR_OS_START_STATUS + 22"
definition APR_ENOTIMPL :: apr_status_t where "APR_ENOTIMPL = APR_OS_START_STATUS + 23"
definition APR_EMISMATCH :: apr_status_t where "APR_EMISMATCH = APR_OS_START_STATUS + 24"
definition APR_EBUSY :: apr_status_t where "APR_EBUSY = APR_OS_START_STATUS + 25"

section \<open>Canonical error codes\<close>

text \<open>The value of the C library where it has one.\<close>

definition APR_EACCES :: "errno_env \<Rightarrow> apr_status_t" where
  "APR_EACCES en = (case en EACCES of Some e \<Rightarrow> e | None \<Rightarrow> APR_OS_START_CANONERR + 1)"

definition APR_EEXIST :: "errno_env \<Rightarrow> apr_status_t" where
  "APR_EEXIST en = (case en EEXIST of Some e \<Rightarrow> e | None \<Rightarrow> APR_OS_START_CANONERR + 2)"

definition APR_ENAMETOOLONG :: "errno_env \<Rightarrow> apr_status_t" where
  "APR_ENAMETOOLONG en = (case en ENAMETOOLONG of Some e \<Rightarrow> e | None \<Rightarrow> APR_OS_START_CANONERR + 3)"

definition APR_ENOENT :: "errno_env \<Rightarrow> apr_status_t" where
  "APR_ENOENT en = (case en ENOENT of Some e \<Rightarrow> e | None \<Rightarrow> APR_OS_START_CANONERR + 4)"

definition APR_ENOTDIR :: "errno_env \<Rightarrow> apr_status_t" where
  "APR_ENOTDIR en = (case en ENOTDIR of Some e \<Rightarrow> e | None \<Rightarrow> APR_OS_START_CANONERR + 5)"

definition APR_ENOSPC :: "errno_env \<Rightarrow> apr_status_t" where
  "APR_ENOSPC en = (case en ENOSPC of Some e \<Rightarrow> e | None \<Rightarrow> APR_OS_START_CANONERR + 6)"

definition APR_ENOMEM :: "errno_env \<Rightarrow> apr_status_t" where
  "APR_ENOMEM en = (case en ENOMEM of Some e \<Rightarrow> e | None \<Rightarrow> APR_OS_START_CANONERR + 7)"

definition APR_EMFILE :: "errno_env \<Rightarrow> apr_status_t" where
  "APR_EMFILE en = (case en EMFILE of Some e \<Rightarrow> e | None \<Rightarrow> APR_OS_START_CANONERR + 8)"

definition APR_ENFILE :: "errno_env \<Rightarrow> apr_status_t" where
  "APR_ENFILE en = (case en ENFILE of Some e \<Rightarrow> e | None \<Rightarrow> APR_OS_START_CANONERR + 9)"

definition APR_EBADF :: "errno_env \<Rightarrow> apr_status_t" where
  "APR_EBADF en = (case en EBADF of Some e \<Rightarrow> e | None \<Rightarrow> APR_OS_START_CANONERR + 10)"

definition APR_EINVAL :: "errno_env \<Rightarrow> apr_status_t" where
  "APR_EINVAL en = (case en EINVAL of Some e \<Rightarrow> e | None \<Rightarrow> APR_OS_START_CANONERR + 11)"

definition APR_ESPIPE :: "errno_env \<Rightarrow> apr_status_t" where
  "APR_ESPIPE en = (case en ESPIPE of Some e \<Rightarrow> e | None \<Rightarrow> APR_OS_START_CANONERR + 12)"

definition APR_EAGAIN :: "errno_env \<Rightarrow> apr_status_t" where
  "APR_EAGAIN en = (case en EAGAIN of Some e \<Rightarrow> e | None \<Rightarrow>
     (case en EWOULDBLOCK of Some e \<Rightarrow> e | None \<Rightarrow> APR_OS_START_CANONERR + 13))"

definition APR_EINTR :: "errno_env \<Rightarrow> apr_status_t" where
  "APR_EINTR en = (case en EINTR of Some e \<Rightarrow> e | None \<Rightarrow> APR_OS_START_CANONERR + 14)"

definition APR_ENOTSOCK :: "errno_env \<Rightarrow> apr_status_t" where
  "APR_ENOTSOCK en = (case en ENOTSOCK of Some e \<Rightarrow> e | None \<Rightarrow> APR_OS_START_CANONERR + 15)"

definition APR_ECONNREFUSED :: "errno_env \<Rightarrow> apr_status_t" where
  "APR_ECONNREFUSED en = (case en ECONNREFUSED of Some e \<Rightarrow> e | None \<Rightarrow> APR_OS_START_CANONERR + 16)"

definition APR_EINPROGRESS :: "errno_env \<Rightarrow> apr_status_t" where
  "APR_EINPROGRESS en = (case en EINPROGRESS of Some e \<Rightarrow> e | None \<Rightarrow> APR_OS_START_CANONERR + 17)"

definition APR_ECONNABORTED :: "errno_env \<Rightarrow> apr_status_t" where
  "APR_ECONNABORTED en = (case en ECONNABORTED of Some e \<Rightarrow> e | None \<Rightarrow> APR_OS_START_CANONERR + 18)"

definition APR_ECONNRESET :: "errno_env \<Rightarrow> apr_status_t" where
  "APR_ECONNRESET en = (case en ECONNRESET of Some e \<Rightarrow> e | None \<Rightarrow> APR_OS_START_CANONERR + 19)"

definition APR_ETIMEDOUT :: "errno_env \<Rightarrow> apr_status_t" where
  "APR_ETIMEDOUT en = (case en ETIMEDOUT of Some e \<Rightarrow> e | None \<Rightarrow> APR_OS_START_CANONERR + 20)"

definition APR_EHOSTUNREACH :: "errno_env \<Rightarrow> apr_status_t" where
  "APR_EHOSTUNREACH en = (case en EHOSTUNREACH of Some e \<Rightarrow> e | None \<Rightarrow> APR_OS_START_CANONERR + 21)"

definition APR_ENETUNREACH :: "errno_env \<Rightarrow> apr_status_t" where
  "APR_ENETUNREACH en = (case en ENETUNREACH of Some e \<Rightarrow> e | None \<Rightarrow> APR_OS_START_CANONERR + 22)"

definition APR_EFTYPE :: "errno_env \<Rightarrow> apr_status_t" where
  "APR_EFTYPE en = (case en EFTYPE of Some e \<Rightarrow> e | None \<Rightarrow> APR_OS_START_CANONERR + 23)"

definition APR_EPIPE :: "errno_env \<Rightarrow> apr_status_t" where
  "APR_EPIPE en = (case en EPIPE of Some e \<Rightarrow> e | None \<Rightarrow> APR_OS_START_CANONERR + 24)"

definition APR_EXDEV :: "errno_env \<Rightarrow> apr_status_t" where
  "APR_EXDEV en = (case en EXDEV of Some e \<Rightarrow> e | None \<Rightarrow> APR_OS_START_CANONERR + 25)"

definition APR_ENOTEMPTY :: "errno_env \<Rightarrow> apr_status_t" where
  "APR_ENOTEMPTY en = (case en ENOTEMPTY of Some e \<Rightarrow> e | None \<Rightarrow> APR_OS_START_CANONERR + 26)"

definition APR_EAFNOSUPPORT :: "errno_env \<Rightarrow> apr_status_t" where
  "APR_EAFNOSUPPORT en = (case en EAFNOSUPPORT of Some e \<Rightarrow> e | None \<Rightarrow> APR_OS_START_CANONERR + 27)"

definition APR_EOPNOTSUPP :: "errno_env \<Rightarrow> apr_status_t" where
  "APR_EOPNOTSUPP en = (case en EOPNOTSUPP of Some e \<Rightarrow> e | None \<Rightarrow> APR_OS_START_CANONERR + 28)"

definition APR_ERANGE :: "errno_env \<Rightarrow> apr_status_t" where
  "APR_ERANGE en = (case en ERANGE of Some e \<Rightarrow> e | None \<Rightarrow> APR_OS_START_CANONERR + 29)"

section \<open>Errors of the system\<close>

text \<open>The last error of the thread is the argument; setting it gives its new value.\<close>

definition apr_get_os_error :: "32 word \<Rightarrow> apr_status_t" where
  "apr_get_os_error GetLastError = APR_FROM_OS_ERROR GetLastError"

definition apr_set_os_error :: "apr_status_t \<Rightarrow> 32 word" where
  "apr_set_os_error e = APR_TO_OS_ERROR e"

definition apr_get_netos_error :: "32 word \<Rightarrow> apr_status_t" where
  "apr_get_netos_error WSAGetLastError = APR_FROM_OS_ERROR WSAGetLastError"

definition apr_set_netos_error :: "apr_status_t \<Rightarrow> 32 word" where
  "apr_set_netos_error e = APR_TO_OS_ERROR e"

section \<open>Tests\<close>

definition APR_STATUS_IS_ENOSTAT :: "apr_status_t \<Rightarrow> bool" where "APR_STATUS_IS_ENOSTAT s \<longleftrightarrow> s = APR_ENOSTAT"
definition APR_STATUS_IS_ENOPOOL :: "apr_status_t \<Rightarrow> bool" where "APR_STATUS_IS_ENOPOOL s \<longleftrightarrow> s = APR_ENOPOOL"
definition APR_STATUS_IS_EBADDATE :: "apr_status_t \<Rightarrow> bool" where "APR_STATUS_IS_EBADDATE s \<longleftrightarrow> s = APR_EBADDATE"
definition APR_STATUS_IS_EINVALSOCK :: "apr_status_t \<Rightarrow> bool" where "APR_STATUS_IS_EINVALSOCK s \<longleftrightarrow> s = APR_EINVALSOCK"
definition APR_STATUS_IS_ENOPROC :: "apr_status_t \<Rightarrow> bool" where "APR_STATUS_IS_ENOPROC s \<longleftrightarrow> s = APR_ENOPROC"
definition APR_STATUS_IS_ENOTIME :: "apr_status_t \<Rightarrow> bool" where "APR_STATUS_IS_ENOTIME s \<longleftrightarrow> s = APR_ENOTIME"
definition APR_STATUS_IS_ENODIR :: "apr_status_t \<Rightarrow> bool" where "APR_STATUS_IS_ENODIR s \<longleftrightarrow> s = APR_ENODIR"
definition APR_STATUS_IS_ENOLOCK :: "apr_status_t \<Rightarrow> bool" where "APR_STATUS_IS_ENOLOCK s \<longleftrightarrow> s = APR_ENOLOCK"
definition APR_STATUS_IS_ENOPOLL :: "apr_status_t \<Rightarrow> bool" where "APR_STATUS_IS_ENOPOLL s \<longleftrightarrow> s = APR_ENOPOLL"
definition APR_STATUS_IS_ENOSOCKET :: "apr_status_t \<Rightarrow> bool" where "APR_STATUS_IS_ENOSOCKET s \<longleftrightarrow> s = APR_ENOSOCKET"
definition APR_STATUS_IS_ENOTHREAD :: "apr_status_t \<Rightarrow> bool" where "APR_STATUS_IS_ENOTHREAD s \<longleftrightarrow> s = APR_ENOTHREAD"
definition APR_STATUS_IS_ENOTHDKEY :: "apr_status_t \<Rightarrow> bool" where "APR_STATUS_IS_ENOTHDKEY s \<longleftrightarrow> s = APR_ENOTHDKEY"
definition APR_STATUS_IS_EGENERAL :: "apr_status_t \<Rightarrow> bool" where "APR_STATUS_IS_EGENERAL s \<longleftrightarrow> s = APR_EGENERAL"
definition APR_STATUS_IS_ENOSHMAVAIL :: "apr_status_t \<Rightarrow> bool" where "APR_STATUS_IS_ENOSHMAVAIL s \<longleftrightarrow> s = APR_ENOSHMAVAIL"
definition APR_STATUS_IS_EBADIP :: "apr_status_t \<Rightarrow> bool" where "APR_STATUS_IS_EBADIP s \<longleftrightarrow> s = APR_EBADIP"
definition APR_STATUS_IS_EBADMASK :: "apr_status_t \<Rightarrow> bool" where "APR_STATUS_IS_EBADMASK s \<longleftrightarrow> s = APR_EBADMASK"
definition APR_STATUS_IS_EDSOOPEN :: "win_env \<Rightarrow> apr_status_t \<Rightarrow> bool" where
  "APR_STATUS_IS_EDSOOPEN win s \<longleftrightarrow> s = APR_EDSOOPEN \<or> APR_TO_OS_ERROR s = win ERROR_MOD_NOT_FOUND"

definition APR_STATUS_IS_EABSOLUTE :: "apr_status_t \<Rightarrow> bool" where "APR_STATUS_IS_EABSOLUTE s \<longleftrightarrow> s = APR_EABSOLUTE"
definition APR_STATUS_IS_ERELATIVE :: "apr_status_t \<Rightarrow> bool" where "APR_STATUS_IS_ERELATIVE s \<longleftrightarrow> s = APR_ERELATIVE"
definition APR_STATUS_IS_EINCOMPLETE :: "apr_status_t \<Rightarrow> bool" where "APR_STATUS_IS_EINCOMPLETE s \<longleftrightarrow> s = APR_EINCOMPLETE"
definition APR_STATUS_IS_EABOVEROOT :: "apr_status_t \<Rightarrow> bool" where "APR_STATUS_IS_EABOVEROOT s \<longleftrightarrow> s = APR_EABOVEROOT"
definition APR_STATUS_IS_EBADPATH :: "apr_status_t \<Rightarrow> bool" where "APR_STATUS_IS_EBADPATH s \<longleftrightarrow> s = APR_EBADPATH"
definition APR_STATUS_IS_EPATHWILD :: "apr_status_t \<Rightarrow> bool" where "APR_STATUS_IS_EPATHWILD s \<longleftrightarrow> s = APR_EPATHWILD"
definition APR_STATUS_IS_ESYMNOTFOUND :: "win_env \<Rightarrow> apr_status_t \<Rightarrow> bool" where
  "APR_STATUS_IS_ESYMNOTFOUND win s \<longleftrightarrow> s = APR_ESYMNOTFOUND \<or> APR_TO_OS_ERROR s = win ERROR_PROC_NOT_FOUND"

definition APR_STATUS_IS_EPROC_UNKNOWN :: "apr_status_t \<Rightarrow> bool" where "APR_STATUS_IS_EPROC_UNKNOWN s \<longleftrightarrow> s = APR_EPROC_UNKNOWN"
definition APR_STATUS_IS_ENOTENOUGHENTROPY :: "apr_status_t \<Rightarrow> bool" where "APR_STATUS_IS_ENOTENOUGHENTROPY s \<longleftrightarrow> s = APR_ENOTENOUGHENTROPY"
definition APR_STATUS_IS_INCHILD :: "apr_status_t \<Rightarrow> bool" where "APR_STATUS_IS_INCHILD s \<longleftrightarrow> s = APR_INCHILD"
definition APR_STATUS_IS_INPARENT :: "apr_status_t \<Rightarrow> bool" where "APR_STATUS_IS_INPARENT s \<longleftrightarrow> s = APR_INPARENT"
definition APR_STATUS_IS_DETACH :: "apr_status_t \<Rightarrow> bool" where "APR_STATUS_IS_DETACH s \<longleftrightarrow> s = APR_DETACH"
definition APR_STATUS_IS_NOTDETACH :: "apr_status_t \<Rightarrow> bool" where "APR_STATUS_IS_NOTDETACH s \<longleftrightarrow> s = APR_NOTDETACH"
definition APR_STATUS_IS_CHILD_DONE :: "apr_status_t \<Rightarrow> bool" where "APR_STATUS_IS_CHILD_DONE s \<longleftrightarrow> s = APR_CHILD_DONE"
definition APR_STATUS_IS_CHILD_NOTDONE :: "apr_status_t \<Rightarrow> bool" where "APR_STATUS_IS_CHILD_NOTDONE s \<longleftrightarrow> s = APR_CHILD_NOTDONE"
definition APR_STATUS_IS_INCOMPLETE :: "apr_status_t \<Rightarrow> bool" where "APR_STATUS_IS_INCOMPLETE s \<longleftrightarrow> s = APR_INCOMPLETE"
definition APR_STATUS_IS_BADCH :: "apr_status_t \<Rightarrow> bool" where "APR_STATUS_IS_BADCH s \<longleftrightarrow> s = APR_BADCH"
definition APR_STATUS_IS_BADARG :: "apr_status_t \<Rightarrow> bool" where "APR_STATUS_IS_BADARG s \<longleftrightarrow> s = APR_BADARG"
definition APR_STATUS_IS_EOF :: "apr_status_t \<Rightarrow> bool" where "APR_STATUS_IS_EOF s \<longleftrightarrow> s = APR_EOF"
definition APR_STATUS_IS_NOTFOUND :: "apr_status_t \<Rightarrow> bool" where "APR_STATUS_IS_NOTFOUND s \<longleftrightarrow> s = APR_NOTFOUND"
definition APR_STATUS_IS_ANONYMOUS :: "apr_status_t \<Rightarrow> bool" where "APR_STATUS_IS_ANONYMOUS s \<longleftrightarrow> s = APR_ANONYMOUS"
definition APR_STATUS_IS_FILEBASED :: "apr_status_t \<Rightarrow> bool" where "APR_STATUS_IS_FILEBASED s \<longleftrightarrow> s = APR_FILEBASED"
definition APR_STATUS_IS_KEYBASED :: "apr_status_t \<Rightarrow> bool" where "APR_STATUS_IS_KEYBASED s \<longleftrightarrow> s = APR_KEYBASED"
definition APR_STATUS_IS_EINIT :: "apr_status_t \<Rightarrow> bool" where "APR_STATUS_IS_EINIT s \<longleftrightarrow> s = APR_EINIT"
definition APR_STATUS_IS_ENOTIMPL :: "apr_status_t \<Rightarrow> bool" where "APR_STATUS_IS_ENOTIMPL s \<longleftrightarrow> s = APR_ENOTIMPL"
definition APR_STATUS_IS_EMISMATCH :: "apr_status_t \<Rightarrow> bool" where "APR_STATUS_IS_EMISMATCH s \<longleftrightarrow> s = APR_EMISMATCH"
definition APR_STATUS_IS_EBUSY :: "apr_status_t \<Rightarrow> bool" where "APR_STATUS_IS_EBUSY s \<longleftrightarrow> s = APR_EBUSY"

text \<open>The tests of the canonical codes, and of \<open>APR_TIMEUP\<close>, which Windows redefines.\<close>

definition APR_STATUS_IS_EACCES :: "errno_env \<Rightarrow> win_env \<Rightarrow> apr_status_t \<Rightarrow> bool" where
  "APR_STATUS_IS_EACCES en win s \<longleftrightarrow>
     s = APR_EACCES en \<or> s = APR_OS_START_SYSERR + win ERROR_ACCESS_DENIED \<or>
     s = APR_OS_START_SYSERR + win ERROR_CANNOT_MAKE \<or>
     s = APR_OS_START_SYSERR + win ERROR_CURRENT_DIRECTORY \<or>
     s = APR_OS_START_SYSERR + win ERROR_DRIVE_LOCKED \<or> s = APR_OS_START_SYSERR + win ERROR_FAIL_I24 \<or>
     s = APR_OS_START_SYSERR + win ERROR_LOCK_VIOLATION \<or>
     s = APR_OS_START_SYSERR + win ERROR_LOCK_FAILED \<or> s = APR_OS_START_SYSERR + win ERROR_NOT_LOCKED \<or>
     s = APR_OS_START_SYSERR + win ERROR_NETWORK_ACCESS_DENIED \<or>
     s = APR_OS_START_SYSERR + win ERROR_SHARING_VIOLATION"

definition APR_STATUS_IS_EEXIST :: "errno_env \<Rightarrow> win_env \<Rightarrow> apr_status_t \<Rightarrow> bool" where
  "APR_STATUS_IS_EEXIST en win s \<longleftrightarrow>
     s = APR_EEXIST en \<or> s = APR_OS_START_SYSERR + win ERROR_FILE_EXISTS \<or>
     s = APR_OS_START_SYSERR + win ERROR_ALREADY_EXISTS"

definition APR_STATUS_IS_ENAMETOOLONG :: "errno_env \<Rightarrow> win_env \<Rightarrow> apr_status_t \<Rightarrow> bool" where
  "APR_STATUS_IS_ENAMETOOLONG en win s \<longleftrightarrow>
     s = APR_ENAMETOOLONG en \<or> s = APR_OS_START_SYSERR + win ERROR_FILENAME_EXCED_RANGE \<or>
     s = APR_OS_START_SYSERR + win WSAENAMETOOLONG"

definition APR_STATUS_IS_ENOENT :: "errno_env \<Rightarrow> win_env \<Rightarrow> apr_status_t \<Rightarrow> bool" where
  "APR_STATUS_IS_ENOENT en win s \<longleftrightarrow>
     s = APR_ENOENT en \<or> s = APR_OS_START_SYSERR + win ERROR_FILE_NOT_FOUND \<or>
     s = APR_OS_START_SYSERR + win ERROR_PATH_NOT_FOUND \<or>
     s = APR_OS_START_SYSERR + win ERROR_OPEN_FAILED \<or> s = APR_OS_START_SYSERR + win ERROR_NO_MORE_FILES"

definition APR_STATUS_IS_ENOTDIR :: "errno_env \<Rightarrow> win_env \<Rightarrow> apr_status_t \<Rightarrow> bool" where
  "APR_STATUS_IS_ENOTDIR en win s \<longleftrightarrow>
     s = APR_ENOTDIR en \<or> s = APR_OS_START_SYSERR + win ERROR_PATH_NOT_FOUND \<or>
     s = APR_OS_START_SYSERR + win ERROR_BAD_NETPATH \<or> s = APR_OS_START_SYSERR + win ERROR_BAD_NET_NAME \<or>
     s = APR_OS_START_SYSERR + win ERROR_BAD_PATHNAME \<or>
     s = APR_OS_START_SYSERR + win ERROR_INVALID_DRIVE \<or> s = APR_OS_START_SYSERR + win ERROR_DIRECTORY"

definition APR_STATUS_IS_ENOSPC :: "errno_env \<Rightarrow> win_env \<Rightarrow> apr_status_t \<Rightarrow> bool" where
  "APR_STATUS_IS_ENOSPC en win s \<longleftrightarrow>
     s = APR_ENOSPC en \<or> s = APR_OS_START_SYSERR + win ERROR_DISK_FULL"

definition APR_STATUS_IS_ENOMEM :: "errno_env \<Rightarrow> win_env \<Rightarrow> apr_status_t \<Rightarrow> bool" where
  "APR_STATUS_IS_ENOMEM en win s \<longleftrightarrow>
     s = APR_ENOMEM en \<or> s = APR_OS_START_SYSERR + win ERROR_ARENA_TRASHED \<or>
     s = APR_OS_START_SYSERR + win ERROR_NOT_ENOUGH_MEMORY \<or>
     s = APR_OS_START_SYSERR + win ERROR_INVALID_BLOCK \<or>
     s = APR_OS_START_SYSERR + win ERROR_NOT_ENOUGH_QUOTA \<or> s = APR_OS_START_SYSERR + win ERROR_OUTOFMEMORY"

definition APR_STATUS_IS_EMFILE :: "errno_env \<Rightarrow> win_env \<Rightarrow> apr_status_t \<Rightarrow> bool" where
  "APR_STATUS_IS_EMFILE en win s \<longleftrightarrow>
     s = APR_EMFILE en \<or> s = APR_OS_START_SYSERR + win ERROR_TOO_MANY_OPEN_FILES"

definition APR_STATUS_IS_ENFILE :: "errno_env \<Rightarrow> win_env \<Rightarrow> apr_status_t \<Rightarrow> bool" where
  "APR_STATUS_IS_ENFILE en win s \<longleftrightarrow>
     s = APR_ENFILE en"

definition APR_STATUS_IS_EBADF :: "errno_env \<Rightarrow> win_env \<Rightarrow> apr_status_t \<Rightarrow> bool" where
  "APR_STATUS_IS_EBADF en win s \<longleftrightarrow>
     s = APR_EBADF en \<or> s = APR_OS_START_SYSERR + win ERROR_INVALID_HANDLE \<or>
     s = APR_OS_START_SYSERR + win ERROR_INVALID_TARGET_HANDLE"

definition APR_STATUS_IS_EINVAL :: "errno_env \<Rightarrow> win_env \<Rightarrow> apr_status_t \<Rightarrow> bool" where
  "APR_STATUS_IS_EINVAL en win s \<longleftrightarrow>
     s = APR_EINVAL en \<or> s = APR_OS_START_SYSERR + win ERROR_INVALID_ACCESS \<or>
     s = APR_OS_START_SYSERR + win ERROR_INVALID_DATA \<or>
     s = APR_OS_START_SYSERR + win ERROR_INVALID_FUNCTION \<or>
     s = APR_OS_START_SYSERR + win ERROR_INVALID_HANDLE \<or>
     s = APR_OS_START_SYSERR + win ERROR_INVALID_PARAMETER \<or> s = APR_OS_START_SYSERR + win ERROR_NEGATIVE_SEEK"

definition APR_STATUS_IS_ESPIPE :: "errno_env \<Rightarrow> win_env \<Rightarrow> apr_status_t \<Rightarrow> bool" where
  "APR_STATUS_IS_ESPIPE en win s \<longleftrightarrow>
     s = APR_ESPIPE en \<or> s = APR_OS_START_SYSERR + win ERROR_SEEK_ON_DEVICE \<or>
     s = APR_OS_START_SYSERR + win ERROR_NEGATIVE_SEEK"

definition APR_STATUS_IS_EAGAIN :: "errno_env \<Rightarrow> win_env \<Rightarrow> apr_status_t \<Rightarrow> bool" where
  "APR_STATUS_IS_EAGAIN en win s \<longleftrightarrow>
     s = APR_EAGAIN en \<or> s = APR_OS_START_SYSERR + win ERROR_NO_DATA \<or>
     s = APR_OS_START_SYSERR + win ERROR_NO_PROC_SLOTS \<or>
     s = APR_OS_START_SYSERR + win ERROR_NESTING_NOT_ALLOWED \<or>
     s = APR_OS_START_SYSERR + win ERROR_MAX_THRDS_REACHED \<or>
     s = APR_OS_START_SYSERR + win ERROR_LOCK_VIOLATION \<or> s = APR_OS_START_SYSERR + win WSAEWOULDBLOCK"

definition APR_STATUS_IS_EINTR :: "errno_env \<Rightarrow> win_env \<Rightarrow> apr_status_t \<Rightarrow> bool" where
  "APR_STATUS_IS_EINTR en win s \<longleftrightarrow>
     s = APR_EINTR en \<or> s = APR_OS_START_SYSERR + win WSAEINTR"

definition APR_STATUS_IS_ENOTSOCK :: "errno_env \<Rightarrow> win_env \<Rightarrow> apr_status_t \<Rightarrow> bool" where
  "APR_STATUS_IS_ENOTSOCK en win s \<longleftrightarrow>
     s = APR_ENOTSOCK en \<or> s = APR_OS_START_SYSERR + win WSAENOTSOCK"

definition APR_STATUS_IS_ECONNREFUSED :: "errno_env \<Rightarrow> win_env \<Rightarrow> apr_status_t \<Rightarrow> bool" where
  "APR_STATUS_IS_ECONNREFUSED en win s \<longleftrightarrow>
     s = APR_ECONNREFUSED en \<or> s = APR_OS_START_SYSERR + win WSAECONNREFUSED"

definition APR_STATUS_IS_EINPROGRESS :: "errno_env \<Rightarrow> win_env \<Rightarrow> apr_status_t \<Rightarrow> bool" where
  "APR_STATUS_IS_EINPROGRESS en win s \<longleftrightarrow>
     s = APR_EINPROGRESS en \<or> s = APR_OS_START_SYSERR + win WSAEINPROGRESS"

definition APR_STATUS_IS_ECONNABORTED :: "errno_env \<Rightarrow> win_env \<Rightarrow> apr_status_t \<Rightarrow> bool" where
  "APR_STATUS_IS_ECONNABORTED en win s \<longleftrightarrow>
     s = APR_ECONNABORTED en \<or> s = APR_OS_START_SYSERR + win WSAECONNABORTED"

definition APR_STATUS_IS_ECONNRESET :: "errno_env \<Rightarrow> win_env \<Rightarrow> apr_status_t \<Rightarrow> bool" where
  "APR_STATUS_IS_ECONNRESET en win s \<longleftrightarrow>
     s = APR_ECONNRESET en \<or> s = APR_OS_START_SYSERR + win ERROR_NETNAME_DELETED \<or>
     s = APR_OS_START_SYSERR + win WSAECONNRESET"

definition APR_STATUS_IS_ETIMEDOUT :: "errno_env \<Rightarrow> win_env \<Rightarrow> apr_status_t \<Rightarrow> bool" where
  "APR_STATUS_IS_ETIMEDOUT en win s \<longleftrightarrow>
     s = APR_ETIMEDOUT en \<or> s = APR_OS_START_SYSERR + win WSAETIMEDOUT \<or>
     s = APR_OS_START_SYSERR + win WAIT_TIMEOUT"

definition APR_STATUS_IS_TIMEUP :: "errno_env \<Rightarrow> win_env \<Rightarrow> apr_status_t \<Rightarrow> bool" where
  "APR_STATUS_IS_TIMEUP en win s \<longleftrightarrow>
     s = APR_TIMEUP \<or> s = APR_OS_START_SYSERR + win WSAETIMEDOUT \<or>
     s = APR_OS_START_SYSERR + win WAIT_TIMEOUT"

definition APR_STATUS_IS_EHOSTUNREACH :: "errno_env \<Rightarrow> win_env \<Rightarrow> apr_status_t \<Rightarrow> bool" where
  "APR_STATUS_IS_EHOSTUNREACH en win s \<longleftrightarrow>
     s = APR_EHOSTUNREACH en \<or> s = APR_OS_START_SYSERR + win WSAEHOSTUNREACH"

definition APR_STATUS_IS_ENETUNREACH :: "errno_env \<Rightarrow> win_env \<Rightarrow> apr_status_t \<Rightarrow> bool" where
  "APR_STATUS_IS_ENETUNREACH en win s \<longleftrightarrow>
     s = APR_ENETUNREACH en \<or> s = APR_OS_START_SYSERR + win WSAENETUNREACH"

definition APR_STATUS_IS_EFTYPE :: "errno_env \<Rightarrow> win_env \<Rightarrow> apr_status_t \<Rightarrow> bool" where
  "APR_STATUS_IS_EFTYPE en win s \<longleftrightarrow>
     s = APR_EFTYPE en \<or> s = APR_OS_START_SYSERR + win ERROR_EXE_MACHINE_TYPE_MISMATCH \<or>
     s = APR_OS_START_SYSERR + win ERROR_INVALID_DLL \<or>
     s = APR_OS_START_SYSERR + win ERROR_INVALID_MODULETYPE \<or>
     s = APR_OS_START_SYSERR + win ERROR_BAD_EXE_FORMAT \<or>
     s = APR_OS_START_SYSERR + win ERROR_INVALID_EXE_SIGNATURE \<or>
     s = APR_OS_START_SYSERR + win ERROR_FILE_CORRUPT \<or> s = APR_OS_START_SYSERR + win ERROR_BAD_FORMAT"

definition APR_STATUS_IS_EPIPE :: "errno_env \<Rightarrow> win_env \<Rightarrow> apr_status_t \<Rightarrow> bool" where
  "APR_STATUS_IS_EPIPE en win s \<longleftrightarrow>
     s = APR_EPIPE en \<or> s = APR_OS_START_SYSERR + win ERROR_BROKEN_PIPE"

definition APR_STATUS_IS_EXDEV :: "errno_env \<Rightarrow> win_env \<Rightarrow> apr_status_t \<Rightarrow> bool" where
  "APR_STATUS_IS_EXDEV en win s \<longleftrightarrow>
     s = APR_EXDEV en \<or> s = APR_OS_START_SYSERR + win ERROR_NOT_SAME_DEVICE"

definition APR_STATUS_IS_ENOTEMPTY :: "errno_env \<Rightarrow> win_env \<Rightarrow> apr_status_t \<Rightarrow> bool" where
  "APR_STATUS_IS_ENOTEMPTY en win s \<longleftrightarrow>
     s = APR_ENOTEMPTY en \<or> s = APR_OS_START_SYSERR + win ERROR_DIR_NOT_EMPTY"

definition APR_STATUS_IS_EAFNOSUPPORT :: "errno_env \<Rightarrow> win_env \<Rightarrow> apr_status_t \<Rightarrow> bool" where
  "APR_STATUS_IS_EAFNOSUPPORT en win s \<longleftrightarrow>
     s = APR_EAFNOSUPPORT en \<or> s = APR_OS_START_SYSERR + win WSAEAFNOSUPPORT"

definition APR_STATUS_IS_EOPNOTSUPP :: "errno_env \<Rightarrow> win_env \<Rightarrow> apr_status_t \<Rightarrow> bool" where
  "APR_STATUS_IS_EOPNOTSUPP en win s \<longleftrightarrow>
     s = APR_EOPNOTSUPP en \<or> s = APR_OS_START_SYSERR + win WSAEOPNOTSUPP"

definition APR_STATUS_IS_ERANGE :: "errno_env \<Rightarrow> win_env \<Rightarrow> apr_status_t \<Rightarrow> bool" where
  "APR_STATUS_IS_ERANGE en win s \<longleftrightarrow>
     s = APR_ERANGE en"

section \<open>The tests as a table\<close>

text \<open>The tests of the last group by name, and the Windows errors that each lists.\<close>

datatype status_test =
    IS_EACCES | IS_EEXIST | IS_ENAMETOOLONG | IS_ENOENT | IS_ENOTDIR | IS_ENOSPC | IS_ENOMEM |
    IS_EMFILE | IS_ENFILE | IS_EBADF | IS_EINVAL | IS_ESPIPE | IS_EAGAIN | IS_EINTR | IS_ENOTSOCK |
    IS_ECONNREFUSED | IS_EINPROGRESS | IS_ECONNABORTED | IS_ECONNRESET | IS_ETIMEDOUT | IS_TIMEUP |
    IS_EHOSTUNREACH | IS_ENETUNREACH | IS_EFTYPE | IS_EPIPE | IS_EXDEV | IS_ENOTEMPTY |
    IS_EAFNOSUPPORT | IS_EOPNOTSUPP | IS_ERANGE

fun test_status :: "status_test \<Rightarrow> errno_env \<Rightarrow> win_env \<Rightarrow> apr_status_t \<Rightarrow> bool" where
  "test_status IS_EACCES = APR_STATUS_IS_EACCES"
| "test_status IS_EEXIST = APR_STATUS_IS_EEXIST"
| "test_status IS_ENAMETOOLONG = APR_STATUS_IS_ENAMETOOLONG"
| "test_status IS_ENOENT = APR_STATUS_IS_ENOENT"
| "test_status IS_ENOTDIR = APR_STATUS_IS_ENOTDIR"
| "test_status IS_ENOSPC = APR_STATUS_IS_ENOSPC"
| "test_status IS_ENOMEM = APR_STATUS_IS_ENOMEM"
| "test_status IS_EMFILE = APR_STATUS_IS_EMFILE"
| "test_status IS_ENFILE = APR_STATUS_IS_ENFILE"
| "test_status IS_EBADF = APR_STATUS_IS_EBADF"
| "test_status IS_EINVAL = APR_STATUS_IS_EINVAL"
| "test_status IS_ESPIPE = APR_STATUS_IS_ESPIPE"
| "test_status IS_EAGAIN = APR_STATUS_IS_EAGAIN"
| "test_status IS_EINTR = APR_STATUS_IS_EINTR"
| "test_status IS_ENOTSOCK = APR_STATUS_IS_ENOTSOCK"
| "test_status IS_ECONNREFUSED = APR_STATUS_IS_ECONNREFUSED"
| "test_status IS_EINPROGRESS = APR_STATUS_IS_EINPROGRESS"
| "test_status IS_ECONNABORTED = APR_STATUS_IS_ECONNABORTED"
| "test_status IS_ECONNRESET = APR_STATUS_IS_ECONNRESET"
| "test_status IS_ETIMEDOUT = APR_STATUS_IS_ETIMEDOUT"
| "test_status IS_TIMEUP = APR_STATUS_IS_TIMEUP"
| "test_status IS_EHOSTUNREACH = APR_STATUS_IS_EHOSTUNREACH"
| "test_status IS_ENETUNREACH = APR_STATUS_IS_ENETUNREACH"
| "test_status IS_EFTYPE = APR_STATUS_IS_EFTYPE"
| "test_status IS_EPIPE = APR_STATUS_IS_EPIPE"
| "test_status IS_EXDEV = APR_STATUS_IS_EXDEV"
| "test_status IS_ENOTEMPTY = APR_STATUS_IS_ENOTEMPTY"
| "test_status IS_EAFNOSUPPORT = APR_STATUS_IS_EAFNOSUPPORT"
| "test_status IS_EOPNOTSUPP = APR_STATUS_IS_EOPNOTSUPP"
| "test_status IS_ERANGE = APR_STATUS_IS_ERANGE"

fun test_errors :: "status_test \<Rightarrow> win_error list" where
  "test_errors IS_EACCES = [ERROR_ACCESS_DENIED, ERROR_CANNOT_MAKE, ERROR_CURRENT_DIRECTORY, ERROR_DRIVE_LOCKED,
     ERROR_FAIL_I24, ERROR_LOCK_VIOLATION, ERROR_LOCK_FAILED, ERROR_NOT_LOCKED,
     ERROR_NETWORK_ACCESS_DENIED, ERROR_SHARING_VIOLATION]"
| "test_errors IS_EEXIST = [ERROR_FILE_EXISTS, ERROR_ALREADY_EXISTS]"
| "test_errors IS_ENAMETOOLONG = [ERROR_FILENAME_EXCED_RANGE, WSAENAMETOOLONG]"
| "test_errors IS_ENOENT = [ERROR_FILE_NOT_FOUND, ERROR_PATH_NOT_FOUND, ERROR_OPEN_FAILED, ERROR_NO_MORE_FILES]"
| "test_errors IS_ENOTDIR = [ERROR_PATH_NOT_FOUND, ERROR_BAD_NETPATH, ERROR_BAD_NET_NAME, ERROR_BAD_PATHNAME,
     ERROR_INVALID_DRIVE, ERROR_DIRECTORY]"
| "test_errors IS_ENOSPC = [ERROR_DISK_FULL]"
| "test_errors IS_ENOMEM = [ERROR_ARENA_TRASHED, ERROR_NOT_ENOUGH_MEMORY, ERROR_INVALID_BLOCK, ERROR_NOT_ENOUGH_QUOTA,
     ERROR_OUTOFMEMORY]"
| "test_errors IS_EMFILE = [ERROR_TOO_MANY_OPEN_FILES]"
| "test_errors IS_ENFILE = []"
| "test_errors IS_EBADF = [ERROR_INVALID_HANDLE, ERROR_INVALID_TARGET_HANDLE]"
| "test_errors IS_EINVAL = [ERROR_INVALID_ACCESS, ERROR_INVALID_DATA, ERROR_INVALID_FUNCTION, ERROR_INVALID_HANDLE,
     ERROR_INVALID_PARAMETER, ERROR_NEGATIVE_SEEK]"
| "test_errors IS_ESPIPE = [ERROR_SEEK_ON_DEVICE, ERROR_NEGATIVE_SEEK]"
| "test_errors IS_EAGAIN = [ERROR_NO_DATA, ERROR_NO_PROC_SLOTS, ERROR_NESTING_NOT_ALLOWED, ERROR_MAX_THRDS_REACHED,
     ERROR_LOCK_VIOLATION, WSAEWOULDBLOCK]"
| "test_errors IS_EINTR = [WSAEINTR]"
| "test_errors IS_ENOTSOCK = [WSAENOTSOCK]"
| "test_errors IS_ECONNREFUSED = [WSAECONNREFUSED]"
| "test_errors IS_EINPROGRESS = [WSAEINPROGRESS]"
| "test_errors IS_ECONNABORTED = [WSAECONNABORTED]"
| "test_errors IS_ECONNRESET = [ERROR_NETNAME_DELETED, WSAECONNRESET]"
| "test_errors IS_ETIMEDOUT = [WSAETIMEDOUT, WAIT_TIMEOUT]"
| "test_errors IS_TIMEUP = [WSAETIMEDOUT, WAIT_TIMEOUT]"
| "test_errors IS_EHOSTUNREACH = [WSAEHOSTUNREACH]"
| "test_errors IS_ENETUNREACH = [WSAENETUNREACH]"
| "test_errors IS_EFTYPE = [ERROR_EXE_MACHINE_TYPE_MISMATCH, ERROR_INVALID_DLL, ERROR_INVALID_MODULETYPE, ERROR_BAD_EXE_FORMAT,
     ERROR_INVALID_EXE_SIGNATURE, ERROR_FILE_CORRUPT, ERROR_BAD_FORMAT]"
| "test_errors IS_EPIPE = [ERROR_BROKEN_PIPE]"
| "test_errors IS_EXDEV = [ERROR_NOT_SAME_DEVICE]"
| "test_errors IS_ENOTEMPTY = [ERROR_DIR_NOT_EMPTY]"
| "test_errors IS_EAFNOSUPPORT = [WSAEAFNOSUPPORT]"
| "test_errors IS_EOPNOTSUPP = [WSAEOPNOTSUPP]"
| "test_errors IS_ERANGE = []"

text \<open>The code of its own that a test accepts.\<close>

fun test_code :: "status_test \<Rightarrow> errno_env \<Rightarrow> apr_status_t" where
  "test_code IS_EACCES en = APR_EACCES en"
| "test_code IS_EEXIST en = APR_EEXIST en"
| "test_code IS_ENAMETOOLONG en = APR_ENAMETOOLONG en"
| "test_code IS_ENOENT en = APR_ENOENT en"
| "test_code IS_ENOTDIR en = APR_ENOTDIR en"
| "test_code IS_ENOSPC en = APR_ENOSPC en"
| "test_code IS_ENOMEM en = APR_ENOMEM en"
| "test_code IS_EMFILE en = APR_EMFILE en"
| "test_code IS_ENFILE en = APR_ENFILE en"
| "test_code IS_EBADF en = APR_EBADF en"
| "test_code IS_EINVAL en = APR_EINVAL en"
| "test_code IS_ESPIPE en = APR_ESPIPE en"
| "test_code IS_EAGAIN en = APR_EAGAIN en"
| "test_code IS_EINTR en = APR_EINTR en"
| "test_code IS_ENOTSOCK en = APR_ENOTSOCK en"
| "test_code IS_ECONNREFUSED en = APR_ECONNREFUSED en"
| "test_code IS_EINPROGRESS en = APR_EINPROGRESS en"
| "test_code IS_ECONNABORTED en = APR_ECONNABORTED en"
| "test_code IS_ECONNRESET en = APR_ECONNRESET en"
| "test_code IS_ETIMEDOUT en = APR_ETIMEDOUT en"
| "test_code IS_TIMEUP en = APR_TIMEUP"
| "test_code IS_EHOSTUNREACH en = APR_EHOSTUNREACH en"
| "test_code IS_ENETUNREACH en = APR_ENETUNREACH en"
| "test_code IS_EFTYPE en = APR_EFTYPE en"
| "test_code IS_EPIPE en = APR_EPIPE en"
| "test_code IS_EXDEV en = APR_EXDEV en"
| "test_code IS_ENOTEMPTY en = APR_ENOTEMPTY en"
| "test_code IS_EAFNOSUPPORT en = APR_EAFNOSUPPORT en"
| "test_code IS_EOPNOTSUPP en = APR_EOPNOTSUPP en"
| "test_code IS_ERANGE en = APR_ERANGE en"

text \<open>The fixed codes and their tests, in the order of the header.\<close>

definition fixed_codes :: "apr_status_t list" where
  "fixed_codes =
     [APR_ENOSTAT, APR_ENOPOOL, APR_EBADDATE, APR_EINVALSOCK, APR_ENOPROC, APR_ENOTIME, APR_ENODIR,
      APR_ENOLOCK, APR_ENOPOLL, APR_ENOSOCKET, APR_ENOTHREAD, APR_ENOTHDKEY, APR_EGENERAL,
      APR_ENOSHMAVAIL, APR_EBADIP, APR_EBADMASK, APR_EDSOOPEN, APR_EABSOLUTE, APR_ERELATIVE,
      APR_EINCOMPLETE, APR_EABOVEROOT, APR_EBADPATH, APR_EPATHWILD, APR_ESYMNOTFOUND, APR_EPROC_UNKNOWN,
      APR_ENOTENOUGHENTROPY, APR_INCHILD, APR_INPARENT, APR_DETACH, APR_NOTDETACH, APR_CHILD_DONE,
      APR_CHILD_NOTDONE, APR_TIMEUP, APR_INCOMPLETE, APR_BADCH, APR_BADARG, APR_EOF, APR_NOTFOUND,
      APR_ANONYMOUS, APR_FILEBASED, APR_KEYBASED, APR_EINIT, APR_ENOTIMPL, APR_EMISMATCH, APR_EBUSY]"

definition fixed_tests :: "errno_env \<Rightarrow> win_env \<Rightarrow> (apr_status_t \<Rightarrow> bool) list" where
  "fixed_tests en win =
     [APR_STATUS_IS_ENOSTAT, APR_STATUS_IS_ENOPOOL, APR_STATUS_IS_EBADDATE, APR_STATUS_IS_EINVALSOCK,
      APR_STATUS_IS_ENOPROC, APR_STATUS_IS_ENOTIME, APR_STATUS_IS_ENODIR, APR_STATUS_IS_ENOLOCK,
      APR_STATUS_IS_ENOPOLL, APR_STATUS_IS_ENOSOCKET, APR_STATUS_IS_ENOTHREAD, APR_STATUS_IS_ENOTHDKEY,
      APR_STATUS_IS_EGENERAL, APR_STATUS_IS_ENOSHMAVAIL, APR_STATUS_IS_EBADIP, APR_STATUS_IS_EBADMASK,
      APR_STATUS_IS_EDSOOPEN win, APR_STATUS_IS_EABSOLUTE, APR_STATUS_IS_ERELATIVE,
      APR_STATUS_IS_EINCOMPLETE, APR_STATUS_IS_EABOVEROOT, APR_STATUS_IS_EBADPATH,
      APR_STATUS_IS_EPATHWILD, APR_STATUS_IS_ESYMNOTFOUND win, APR_STATUS_IS_EPROC_UNKNOWN,
      APR_STATUS_IS_ENOTENOUGHENTROPY, APR_STATUS_IS_INCHILD, APR_STATUS_IS_INPARENT,
      APR_STATUS_IS_DETACH, APR_STATUS_IS_NOTDETACH, APR_STATUS_IS_CHILD_DONE,
      APR_STATUS_IS_CHILD_NOTDONE, APR_STATUS_IS_TIMEUP en win, APR_STATUS_IS_INCOMPLETE,
      APR_STATUS_IS_BADCH, APR_STATUS_IS_BADARG, APR_STATUS_IS_EOF, APR_STATUS_IS_NOTFOUND,
      APR_STATUS_IS_ANONYMOUS, APR_STATUS_IS_FILEBASED, APR_STATUS_IS_KEYBASED, APR_STATUS_IS_EINIT,
      APR_STATUS_IS_ENOTIMPL, APR_STATUS_IS_EMISMATCH, APR_STATUS_IS_EBUSY]"

lemmas fixed_code_defs =
  APR_ENOSTAT_def APR_ENOPOOL_def APR_EBADDATE_def APR_EINVALSOCK_def APR_ENOPROC_def APR_ENOTIME_def
  APR_ENODIR_def APR_ENOLOCK_def APR_ENOPOLL_def APR_ENOSOCKET_def APR_ENOTHREAD_def
  APR_ENOTHDKEY_def APR_EGENERAL_def APR_ENOSHMAVAIL_def APR_EBADIP_def APR_EBADMASK_def
  APR_EDSOOPEN_def APR_EABSOLUTE_def APR_ERELATIVE_def APR_EINCOMPLETE_def APR_EABOVEROOT_def
  APR_EBADPATH_def APR_EPATHWILD_def APR_ESYMNOTFOUND_def APR_EPROC_UNKNOWN_def
  APR_ENOTENOUGHENTROPY_def APR_INCHILD_def APR_INPARENT_def APR_DETACH_def APR_NOTDETACH_def
  APR_CHILD_DONE_def APR_CHILD_NOTDONE_def APR_TIMEUP_def APR_INCOMPLETE_def APR_BADCH_def
  APR_BADARG_def APR_EOF_def APR_NOTFOUND_def APR_ANONYMOUS_def APR_FILEBASED_def APR_KEYBASED_def
  APR_EINIT_def APR_ENOTIMPL_def APR_EMISMATCH_def APR_EBUSY_def

lemmas fixed_test_defs =
  APR_STATUS_IS_ENOSTAT_def APR_STATUS_IS_ENOPOOL_def APR_STATUS_IS_EBADDATE_def
  APR_STATUS_IS_EINVALSOCK_def APR_STATUS_IS_ENOPROC_def APR_STATUS_IS_ENOTIME_def
  APR_STATUS_IS_ENODIR_def APR_STATUS_IS_ENOLOCK_def APR_STATUS_IS_ENOPOLL_def
  APR_STATUS_IS_ENOSOCKET_def APR_STATUS_IS_ENOTHREAD_def APR_STATUS_IS_ENOTHDKEY_def
  APR_STATUS_IS_EGENERAL_def APR_STATUS_IS_ENOSHMAVAIL_def APR_STATUS_IS_EBADIP_def
  APR_STATUS_IS_EBADMASK_def APR_STATUS_IS_EDSOOPEN_def APR_STATUS_IS_EABSOLUTE_def
  APR_STATUS_IS_ERELATIVE_def APR_STATUS_IS_EINCOMPLETE_def APR_STATUS_IS_EABOVEROOT_def
  APR_STATUS_IS_EBADPATH_def APR_STATUS_IS_EPATHWILD_def APR_STATUS_IS_ESYMNOTFOUND_def
  APR_STATUS_IS_EPROC_UNKNOWN_def APR_STATUS_IS_ENOTENOUGHENTROPY_def APR_STATUS_IS_INCHILD_def
  APR_STATUS_IS_INPARENT_def APR_STATUS_IS_DETACH_def APR_STATUS_IS_NOTDETACH_def
  APR_STATUS_IS_CHILD_DONE_def APR_STATUS_IS_CHILD_NOTDONE_def APR_STATUS_IS_TIMEUP_def
  APR_STATUS_IS_INCOMPLETE_def APR_STATUS_IS_BADCH_def APR_STATUS_IS_BADARG_def APR_STATUS_IS_EOF_def
  APR_STATUS_IS_NOTFOUND_def APR_STATUS_IS_ANONYMOUS_def APR_STATUS_IS_FILEBASED_def
  APR_STATUS_IS_KEYBASED_def APR_STATUS_IS_EINIT_def APR_STATUS_IS_ENOTIMPL_def
  APR_STATUS_IS_EMISMATCH_def APR_STATUS_IS_EBUSY_def

lemmas canonical_code_defs =
  APR_EACCES_def APR_EEXIST_def APR_ENAMETOOLONG_def APR_ENOENT_def APR_ENOTDIR_def APR_ENOSPC_def
  APR_ENOMEM_def APR_EMFILE_def APR_ENFILE_def APR_EBADF_def APR_EINVAL_def APR_ESPIPE_def
  APR_EAGAIN_def APR_EINTR_def APR_ENOTSOCK_def APR_ECONNREFUSED_def APR_EINPROGRESS_def
  APR_ECONNABORTED_def APR_ECONNRESET_def APR_ETIMEDOUT_def APR_EHOSTUNREACH_def APR_ENETUNREACH_def
  APR_EFTYPE_def APR_EPIPE_def APR_EXDEV_def APR_ENOTEMPTY_def APR_EAFNOSUPPORT_def
  APR_EOPNOTSUPP_def APR_ERANGE_def

lemmas canonical_test_defs =
  APR_STATUS_IS_EACCES_def APR_STATUS_IS_EEXIST_def APR_STATUS_IS_ENAMETOOLONG_def
  APR_STATUS_IS_ENOENT_def APR_STATUS_IS_ENOTDIR_def APR_STATUS_IS_ENOSPC_def
  APR_STATUS_IS_ENOMEM_def APR_STATUS_IS_EMFILE_def APR_STATUS_IS_ENFILE_def APR_STATUS_IS_EBADF_def
  APR_STATUS_IS_EINVAL_def APR_STATUS_IS_ESPIPE_def APR_STATUS_IS_EAGAIN_def APR_STATUS_IS_EINTR_def
  APR_STATUS_IS_ENOTSOCK_def APR_STATUS_IS_ECONNREFUSED_def APR_STATUS_IS_EINPROGRESS_def
  APR_STATUS_IS_ECONNABORTED_def APR_STATUS_IS_ECONNRESET_def APR_STATUS_IS_ETIMEDOUT_def
  APR_STATUS_IS_TIMEUP_def APR_STATUS_IS_EHOSTUNREACH_def APR_STATUS_IS_ENETUNREACH_def
  APR_STATUS_IS_EFTYPE_def APR_STATUS_IS_EPIPE_def APR_STATUS_IS_EXDEV_def
  APR_STATUS_IS_ENOTEMPTY_def APR_STATUS_IS_EAFNOSUPPORT_def APR_STATUS_IS_EOPNOTSUPP_def
  APR_STATUS_IS_ERANGE_def

section \<open>What the platform promises\<close>

text \<open>
  The numbers of \<open>winerror.h\<close> are different, positive and below \<open>2 ^ 16\<close>, those of
  \<open>errno.h\<close> are positive and below the codes of APR.
\<close>

definition win_numbers :: "win_env \<Rightarrow> bool" where
  "win_numbers win \<longleftrightarrow> inj win \<and> (\<forall>x. win x \<noteq> 0 \<and> win x < 0x10000)"

definition errno_small :: "errno_env \<Rightarrow> bool" where
  "errno_small en \<longleftrightarrow> (\<forall>n e. en n = Some e \<longrightarrow> e \<noteq> 0 \<and> e < APR_OS_START_ERROR)"

section \<open>Lemmas\<close>

lemma small_not_sys:
  fixes s w :: "32 word"
  assumes "s < 720000" "w < 0x10000"
  shows "s \<noteq> 720000 + w" "w \<noteq> s - 720000"
proof -
  have "unat s < 720000" "unat w < 65536" using assms by (simp_all add: word_less_nat_alt)
  moreover have "unat (720000 + w) = 720000 + unat w"
    using \<open>unat w < 65536\<close> by (simp add: unat_word_ariths)
  ultimately show "s \<noteq> 720000 + w" by auto
  then show "w \<noteq> s - 720000" by (auto simp: algebra_simps)
qed

lemma sys_neq:
  assumes "win_numbers win" "s < APR_OS_START_SYSERR"
  shows "s \<noteq> APR_OS_START_SYSERR + win x" "APR_TO_OS_ERROR s \<noteq> win x"
  using assms small_not_sys [of s "win x"]
  by (auto simp: win_numbers_def APR_OS_START_SYSERR_val APR_TO_OS_ERROR_def APR_SUCCESS_def)

lemma test_status_table:
  "test_status t en win s \<longleftrightarrow>
     s = test_code t en \<or> (\<exists>x\<in>set (test_errors t). s = APR_OS_START_SYSERR + win x)"
  by (cases t) (simp_all add: canonical_test_defs)

lemma canonical_small:
  assumes "errno_small en"
  shows "test_code t en \<noteq> 0 \<and> test_code t en < APR_OS_START_SYSERR"
proof -
  have e: "e \<noteq> 0 \<and> e < 720000" if "en n = Some e" for n e
    using assms that by (force simp: errno_small_def APR_OS_START_ERROR_def intro: less_trans)
  show ?thesis
    by (cases t) (auto simp: canonical_code_defs APR_TIMEUP_def APR_OS_START_SYSERR_val apr_ranges dest: e
        split: option.split)
qed

lemma fixed_tests_exact:
  assumes "win_numbers win" "s < APR_OS_START_SYSERR"
  shows "list_all2 (\<lambda>c t. t s \<longleftrightarrow> s = c) fixed_codes (fixed_tests en win)"
  using sys_neq [OF assms] by (simp add: fixed_codes_def fixed_tests_def fixed_test_defs)

lemma fixed_codes_facts:
  "distinct fixed_codes" "length fixed_codes = 45"
  "\<forall>c\<in>set fixed_codes. APR_OS_START_ERROR < c \<and> c < APR_UTIL_START_STATUS"
  by (simp_all add: fixed_codes_def fixed_code_defs apr_ranges)

section \<open>A concrete platform\<close>

text \<open>For the concrete instances: errors numbered in the order of the type, and two values of \<open>errno\<close>.\<close>

definition win_errors :: "win_error list" where
  "win_errors =
     [ERROR_MOD_NOT_FOUND, ERROR_PROC_NOT_FOUND, ERROR_ACCESS_DENIED, ERROR_CANNOT_MAKE,
      ERROR_CURRENT_DIRECTORY, ERROR_DRIVE_LOCKED, ERROR_FAIL_I24, ERROR_LOCK_VIOLATION,
      ERROR_LOCK_FAILED, ERROR_NOT_LOCKED, ERROR_NETWORK_ACCESS_DENIED, ERROR_SHARING_VIOLATION,
      ERROR_FILE_EXISTS, ERROR_ALREADY_EXISTS, ERROR_FILENAME_EXCED_RANGE, WSAENAMETOOLONG,
      ERROR_FILE_NOT_FOUND, ERROR_PATH_NOT_FOUND, ERROR_OPEN_FAILED, ERROR_NO_MORE_FILES,
      ERROR_BAD_NETPATH, ERROR_BAD_NET_NAME, ERROR_BAD_PATHNAME, ERROR_INVALID_DRIVE,
      ERROR_DIRECTORY, ERROR_DISK_FULL, ERROR_ARENA_TRASHED, ERROR_NOT_ENOUGH_MEMORY,
      ERROR_INVALID_BLOCK, ERROR_NOT_ENOUGH_QUOTA, ERROR_OUTOFMEMORY, ERROR_TOO_MANY_OPEN_FILES,
      ERROR_INVALID_HANDLE, ERROR_INVALID_TARGET_HANDLE, ERROR_INVALID_ACCESS, ERROR_INVALID_DATA,
      ERROR_INVALID_FUNCTION, ERROR_INVALID_PARAMETER, ERROR_NEGATIVE_SEEK, ERROR_SEEK_ON_DEVICE,
      ERROR_NO_DATA, ERROR_NO_PROC_SLOTS, ERROR_NESTING_NOT_ALLOWED, ERROR_MAX_THRDS_REACHED,
      WSAEWOULDBLOCK, WSAEINTR, WSAENOTSOCK, WSAECONNREFUSED, WSAEINPROGRESS, WSAECONNABORTED,
      ERROR_NETNAME_DELETED, WSAECONNRESET, WSAETIMEDOUT, WAIT_TIMEOUT, WSAEHOSTUNREACH,
      WSAENETUNREACH, ERROR_EXE_MACHINE_TYPE_MISMATCH, ERROR_INVALID_DLL, ERROR_INVALID_MODULETYPE,
      ERROR_BAD_EXE_FORMAT, ERROR_INVALID_EXE_SIGNATURE, ERROR_FILE_CORRUPT, ERROR_BAD_FORMAT,
      ERROR_BROKEN_PIPE, ERROR_NOT_SAME_DEVICE, ERROR_DIR_NOT_EMPTY, WSAEAFNOSUPPORT, WSAEOPNOTSUPP]"

primrec sample_win :: win_env where
  "sample_win ERROR_MOD_NOT_FOUND = 1"
| "sample_win ERROR_PROC_NOT_FOUND = 2"
| "sample_win ERROR_ACCESS_DENIED = 3"
| "sample_win ERROR_CANNOT_MAKE = 4"
| "sample_win ERROR_CURRENT_DIRECTORY = 5"
| "sample_win ERROR_DRIVE_LOCKED = 6"
| "sample_win ERROR_FAIL_I24 = 7"
| "sample_win ERROR_LOCK_VIOLATION = 8"
| "sample_win ERROR_LOCK_FAILED = 9"
| "sample_win ERROR_NOT_LOCKED = 10"
| "sample_win ERROR_NETWORK_ACCESS_DENIED = 11"
| "sample_win ERROR_SHARING_VIOLATION = 12"
| "sample_win ERROR_FILE_EXISTS = 13"
| "sample_win ERROR_ALREADY_EXISTS = 14"
| "sample_win ERROR_FILENAME_EXCED_RANGE = 15"
| "sample_win WSAENAMETOOLONG = 16"
| "sample_win ERROR_FILE_NOT_FOUND = 17"
| "sample_win ERROR_PATH_NOT_FOUND = 18"
| "sample_win ERROR_OPEN_FAILED = 19"
| "sample_win ERROR_NO_MORE_FILES = 20"
| "sample_win ERROR_BAD_NETPATH = 21"
| "sample_win ERROR_BAD_NET_NAME = 22"
| "sample_win ERROR_BAD_PATHNAME = 23"
| "sample_win ERROR_INVALID_DRIVE = 24"
| "sample_win ERROR_DIRECTORY = 25"
| "sample_win ERROR_DISK_FULL = 26"
| "sample_win ERROR_ARENA_TRASHED = 27"
| "sample_win ERROR_NOT_ENOUGH_MEMORY = 28"
| "sample_win ERROR_INVALID_BLOCK = 29"
| "sample_win ERROR_NOT_ENOUGH_QUOTA = 30"
| "sample_win ERROR_OUTOFMEMORY = 31"
| "sample_win ERROR_TOO_MANY_OPEN_FILES = 32"
| "sample_win ERROR_INVALID_HANDLE = 33"
| "sample_win ERROR_INVALID_TARGET_HANDLE = 34"
| "sample_win ERROR_INVALID_ACCESS = 35"
| "sample_win ERROR_INVALID_DATA = 36"
| "sample_win ERROR_INVALID_FUNCTION = 37"
| "sample_win ERROR_INVALID_PARAMETER = 38"
| "sample_win ERROR_NEGATIVE_SEEK = 39"
| "sample_win ERROR_SEEK_ON_DEVICE = 40"
| "sample_win ERROR_NO_DATA = 41"
| "sample_win ERROR_NO_PROC_SLOTS = 42"
| "sample_win ERROR_NESTING_NOT_ALLOWED = 43"
| "sample_win ERROR_MAX_THRDS_REACHED = 44"
| "sample_win WSAEWOULDBLOCK = 45"
| "sample_win WSAEINTR = 46"
| "sample_win WSAENOTSOCK = 47"
| "sample_win WSAECONNREFUSED = 48"
| "sample_win WSAEINPROGRESS = 49"
| "sample_win WSAECONNABORTED = 50"
| "sample_win ERROR_NETNAME_DELETED = 51"
| "sample_win WSAECONNRESET = 52"
| "sample_win WSAETIMEDOUT = 53"
| "sample_win WAIT_TIMEOUT = 54"
| "sample_win WSAEHOSTUNREACH = 55"
| "sample_win WSAENETUNREACH = 56"
| "sample_win ERROR_EXE_MACHINE_TYPE_MISMATCH = 57"
| "sample_win ERROR_INVALID_DLL = 58"
| "sample_win ERROR_INVALID_MODULETYPE = 59"
| "sample_win ERROR_BAD_EXE_FORMAT = 60"
| "sample_win ERROR_INVALID_EXE_SIGNATURE = 61"
| "sample_win ERROR_FILE_CORRUPT = 62"
| "sample_win ERROR_BAD_FORMAT = 63"
| "sample_win ERROR_BROKEN_PIPE = 64"
| "sample_win ERROR_NOT_SAME_DEVICE = 65"
| "sample_win ERROR_DIR_NOT_EMPTY = 66"
| "sample_win WSAEAFNOSUPPORT = 67"
| "sample_win WSAEOPNOTSUPP = 68"

lemma sample_win_numbers: "win_numbers sample_win"
proof -
  have "win_errors ! (unat (sample_win x) - 1) = x" for x
    by (cases x) (simp_all add: win_errors_def)
  then have "inj sample_win" by (intro injI) metis
  moreover have "sample_win x \<noteq> 0 \<and> sample_win x < 0x10000" for x by (cases x) simp_all
  ultimately show ?thesis by (simp add: win_numbers_def)
qed

definition sample_errno :: errno_env where
  "sample_errno n = (case n of EACCES \<Rightarrow> Some 13 | EAGAIN \<Rightarrow> Some 11 | _ \<Rightarrow> None)"

lemma sample_errno_small: "errno_small sample_errno"
  by (auto simp: errno_small_def sample_errno_def APR_OS_START_ERROR_def split: errno_name.splits)

section \<open>Properties\<close>

text \<open>The fixed codes of APR are all different and lie in their ranges, and on Windows each test
  accepts, of these codes, exactly its own.\<close>

theorem status_codes_exact:
  assumes "win_numbers win"
  shows "distinct fixed_codes \<and>
    (\<forall>c\<in>set fixed_codes. APR_OS_START_ERROR < c \<and> c < APR_UTIL_START_STATUS) \<and>
    length (fixed_tests en win) = length fixed_codes \<and>
    (\<forall>i<length fixed_codes. \<forall>j<length fixed_codes. (fixed_tests en win ! i) (fixed_codes ! j) \<longleftrightarrow> i = j)"
proof -
  have "(fixed_tests en win ! i) (fixed_codes ! j) \<longleftrightarrow> i = j"
    if "i < length fixed_codes" "j < length fixed_codes" for i j
  proof -
    have "fixed_codes ! j < APR_UTIL_START_STATUS" using fixed_codes_facts(3) that(2) by simp
    then have "fixed_codes ! j < APR_OS_START_SYSERR" by (rule less_trans) (simp add: apr_ranges)
    from list_all2_nthD [OF fixed_tests_exact [OF assms this] that(1)]
    show ?thesis using fixed_codes_facts(1) that by (simp add: nth_eq_iff_index_eq eq_commute)
  qed
  moreover have "length (fixed_tests en win) = length fixed_codes" by (simp add: fixed_codes_def fixed_tests_def)
  ultimately show ?thesis using fixed_codes_facts by simp
qed

theorem status_codes_exact_witness:
  "(fixed_tests sample_errno sample_win ! 0) APR_ENOSTAT \<and> \<not> (fixed_tests sample_errno sample_win ! 0) APR_ENOPOOL"
proof -
  have l: "length fixed_codes = 45" "fixed_codes ! 0 = APR_ENOSTAT" "fixed_codes ! 1 = APR_ENOPOOL"
    by (simp_all add: fixed_codes_def)
  have e: "(fixed_tests sample_errno sample_win ! i) (fixed_codes ! j) \<longleftrightarrow> i = j" if "i < 45" "j < 45" for i j
    using status_codes_exact [OF sample_win_numbers, of sample_errno] that unfolding l(1) by blast
  show ?thesis using e [of 0 0] e [of 0 1] unfolding l(2,3) by simp
qed

text \<open>The Windows errors that more than one test lists.\<close>

definition shared_tests :: "(win_error \<times> status_test \<times> status_test) list" where
  "shared_tests =
     [(ERROR_LOCK_VIOLATION, IS_EACCES, IS_EAGAIN), (ERROR_PATH_NOT_FOUND, IS_ENOENT, IS_ENOTDIR),
      (ERROR_INVALID_HANDLE, IS_EBADF, IS_EINVAL), (ERROR_NEGATIVE_SEEK, IS_EINVAL, IS_ESPIPE),
      (WSAETIMEDOUT, IS_ETIMEDOUT, IS_TIMEUP), (WAIT_TIMEOUT, IS_ETIMEDOUT, IS_TIMEUP)]"

definition shared_errors :: "win_error list" where
  "shared_errors = map fst shared_tests"

text \<open>The first test that lists an error; \<open>None\<close> for the two of the tests of fixed codes.\<close>

primrec first_test :: "win_error \<Rightarrow> status_test option" where
  "first_test ERROR_MOD_NOT_FOUND = None"
| "first_test ERROR_PROC_NOT_FOUND = None"
| "first_test ERROR_ACCESS_DENIED = Some IS_EACCES"
| "first_test ERROR_CANNOT_MAKE = Some IS_EACCES"
| "first_test ERROR_CURRENT_DIRECTORY = Some IS_EACCES"
| "first_test ERROR_DRIVE_LOCKED = Some IS_EACCES"
| "first_test ERROR_FAIL_I24 = Some IS_EACCES"
| "first_test ERROR_LOCK_VIOLATION = Some IS_EACCES"
| "first_test ERROR_LOCK_FAILED = Some IS_EACCES"
| "first_test ERROR_NOT_LOCKED = Some IS_EACCES"
| "first_test ERROR_NETWORK_ACCESS_DENIED = Some IS_EACCES"
| "first_test ERROR_SHARING_VIOLATION = Some IS_EACCES"
| "first_test ERROR_FILE_EXISTS = Some IS_EEXIST"
| "first_test ERROR_ALREADY_EXISTS = Some IS_EEXIST"
| "first_test ERROR_FILENAME_EXCED_RANGE = Some IS_ENAMETOOLONG"
| "first_test WSAENAMETOOLONG = Some IS_ENAMETOOLONG"
| "first_test ERROR_FILE_NOT_FOUND = Some IS_ENOENT"
| "first_test ERROR_PATH_NOT_FOUND = Some IS_ENOENT"
| "first_test ERROR_OPEN_FAILED = Some IS_ENOENT"
| "first_test ERROR_NO_MORE_FILES = Some IS_ENOENT"
| "first_test ERROR_BAD_NETPATH = Some IS_ENOTDIR"
| "first_test ERROR_BAD_NET_NAME = Some IS_ENOTDIR"
| "first_test ERROR_BAD_PATHNAME = Some IS_ENOTDIR"
| "first_test ERROR_INVALID_DRIVE = Some IS_ENOTDIR"
| "first_test ERROR_DIRECTORY = Some IS_ENOTDIR"
| "first_test ERROR_DISK_FULL = Some IS_ENOSPC"
| "first_test ERROR_ARENA_TRASHED = Some IS_ENOMEM"
| "first_test ERROR_NOT_ENOUGH_MEMORY = Some IS_ENOMEM"
| "first_test ERROR_INVALID_BLOCK = Some IS_ENOMEM"
| "first_test ERROR_NOT_ENOUGH_QUOTA = Some IS_ENOMEM"
| "first_test ERROR_OUTOFMEMORY = Some IS_ENOMEM"
| "first_test ERROR_TOO_MANY_OPEN_FILES = Some IS_EMFILE"
| "first_test ERROR_INVALID_HANDLE = Some IS_EBADF"
| "first_test ERROR_INVALID_TARGET_HANDLE = Some IS_EBADF"
| "first_test ERROR_INVALID_ACCESS = Some IS_EINVAL"
| "first_test ERROR_INVALID_DATA = Some IS_EINVAL"
| "first_test ERROR_INVALID_FUNCTION = Some IS_EINVAL"
| "first_test ERROR_INVALID_PARAMETER = Some IS_EINVAL"
| "first_test ERROR_NEGATIVE_SEEK = Some IS_EINVAL"
| "first_test ERROR_SEEK_ON_DEVICE = Some IS_ESPIPE"
| "first_test ERROR_NO_DATA = Some IS_EAGAIN"
| "first_test ERROR_NO_PROC_SLOTS = Some IS_EAGAIN"
| "first_test ERROR_NESTING_NOT_ALLOWED = Some IS_EAGAIN"
| "first_test ERROR_MAX_THRDS_REACHED = Some IS_EAGAIN"
| "first_test WSAEWOULDBLOCK = Some IS_EAGAIN"
| "first_test WSAEINTR = Some IS_EINTR"
| "first_test WSAENOTSOCK = Some IS_ENOTSOCK"
| "first_test WSAECONNREFUSED = Some IS_ECONNREFUSED"
| "first_test WSAEINPROGRESS = Some IS_EINPROGRESS"
| "first_test WSAECONNABORTED = Some IS_ECONNABORTED"
| "first_test ERROR_NETNAME_DELETED = Some IS_ECONNRESET"
| "first_test WSAECONNRESET = Some IS_ECONNRESET"
| "first_test WSAETIMEDOUT = Some IS_ETIMEDOUT"
| "first_test WAIT_TIMEOUT = Some IS_ETIMEDOUT"
| "first_test WSAEHOSTUNREACH = Some IS_EHOSTUNREACH"
| "first_test WSAENETUNREACH = Some IS_ENETUNREACH"
| "first_test ERROR_EXE_MACHINE_TYPE_MISMATCH = Some IS_EFTYPE"
| "first_test ERROR_INVALID_DLL = Some IS_EFTYPE"
| "first_test ERROR_INVALID_MODULETYPE = Some IS_EFTYPE"
| "first_test ERROR_BAD_EXE_FORMAT = Some IS_EFTYPE"
| "first_test ERROR_INVALID_EXE_SIGNATURE = Some IS_EFTYPE"
| "first_test ERROR_FILE_CORRUPT = Some IS_EFTYPE"
| "first_test ERROR_BAD_FORMAT = Some IS_EFTYPE"
| "first_test ERROR_BROKEN_PIPE = Some IS_EPIPE"
| "first_test ERROR_NOT_SAME_DEVICE = Some IS_EXDEV"
| "first_test ERROR_DIR_NOT_EMPTY = Some IS_ENOTEMPTY"
| "first_test WSAEAFNOSUPPORT = Some IS_EAFNOSUPPORT"
| "first_test WSAEOPNOTSUPP = Some IS_EOPNOTSUPP"

lemma first_test_unique:
  "x \<in> set (test_errors t) \<Longrightarrow> x \<notin> set shared_errors \<Longrightarrow> first_test x = Some t"
  by (cases t) (auto simp: shared_errors_def shared_tests_def)

lemma shared_errors_table:
  "(\<exists>t t'. t \<noteq> t' \<and> x \<in> set (test_errors t) \<and> x \<in> set (test_errors t')) \<longleftrightarrow> x \<in> set shared_errors"
proof
  assume "\<exists>t t'. t \<noteq> t' \<and> x \<in> set (test_errors t) \<and> x \<in> set (test_errors t')"
  then show "x \<in> set shared_errors" using first_test_unique by (metis option.inject)
next
  assume "x \<in> set shared_errors"
  then obtain t t' where m: "(x, t, t') \<in> set shared_tests" by (auto simp: shared_errors_def)
  have "\<forall>(x, t, t')\<in>set shared_tests. t \<noteq> t' \<and> x \<in> set (test_errors t) \<and> x \<in> set (test_errors t')"
    by (simp add: shared_tests_def)
  from bspec [OF this m] show "\<exists>t t'. t \<noteq> t' \<and> x \<in> set (test_errors t) \<and> x \<in> set (test_errors t')"
    by (intro exI [of _ t] exI [of _ t']) simp
qed

text \<open>On Windows an error of the system, folded into a status, is recognised by exactly the tests whose
  macro names it, whatever the C library's \<open>errno\<close> values are, and it folds back to itself; the six
  errors of \<open>shared_errors\<close> are the ones for which two tests match, so that only for them does
  the order of the tests matter.\<close>

theorem os_error_classes:
  assumes "win_numbers win" "errno_small en"
  shows "(test_status t en win (APR_FROM_OS_ERROR (win x)) \<longleftrightarrow> x \<in> set (test_errors t)) \<and>
    APR_TO_OS_ERROR (APR_FROM_OS_ERROR (win x)) = win x \<and>
    ((\<exists>t t'. t \<noteq> t' \<and> test_status t en win (APR_FROM_OS_ERROR (win x)) \<and>
        test_status t' en win (APR_FROM_OS_ERROR (win x))) \<longleftrightarrow> x \<in> set shared_errors)"
proof -
  have w: "win x \<noteq> 0" "win x < 0x10000" and inj: "inj win" using assms(1) by (simp_all add: win_numbers_def)
  have s: "APR_FROM_OS_ERROR (win x) = APR_OS_START_SYSERR + win x" using w(1) by (simp add: APR_FROM_OS_ERROR_def)
  have own: "APR_FROM_OS_ERROR (win x) \<noteq> test_code t en" for t
    using sys_neq(1) [OF assms(1), of "test_code t en" x] canonical_small [OF assms(2), of t] s by auto
  have table: "test_status t en win (APR_FROM_OS_ERROR (win x)) \<longleftrightarrow> x \<in> set (test_errors t)" for t
    using own [of t] inj by (auto simp: test_status_table s dest: injD)
  have "win x \<noteq> - APR_OS_START_SYSERR" using w(2) by (auto simp: APR_OS_START_SYSERR_val)
  then show ?thesis using table shared_errors_table [of x] by (simp add: from_to_os_error)
qed

theorem os_error_classes_witness:
  "test_status IS_EACCES sample_errno sample_win (APR_FROM_OS_ERROR (sample_win ERROR_SHARING_VIOLATION)) \<and>
   \<not> test_status IS_EEXIST sample_errno sample_win (APR_FROM_OS_ERROR (sample_win ERROR_SHARING_VIOLATION))"
  using os_error_classes [OF sample_win_numbers sample_errno_small, of IS_EACCES ERROR_SHARING_VIOLATION]
    os_error_classes [OF sample_win_numbers sample_errno_small, of IS_EEXIST ERROR_SHARING_VIOLATION]
  by simp

end
