(* ===== verification/Handler_Status.thy ===== *)
theory Handler_Status
  imports Module_Handler Apr_Errno
begin

text \<open>
  The statuses of a response as \<open>httpd.h\<close> numbers them, with the hook results and the
  test for those that end the connection, and what they say of the answers of
  \<open>asp_net_handler\<close> (\<open>mod/mod_aspdotnet.cpp\<close>): which of them keep the connection, and
  what the log of a failed COM call can be read as.
\<close>

section \<open>Hook results and status codes\<close>

definition DONE :: int where "DONE = -2"
definition SUSPENDED :: int where "SUSPENDED = -3"
definition AP_NOBODY_WROTE :: int where "AP_NOBODY_WROTE = -100"
definition AP_NOBODY_READ :: int where "AP_NOBODY_READ = -101"
definition AP_FILTER_ERROR :: int where "AP_FILTER_ERROR = -102"

lemmas hook_results = OK_def DECLINED_def DONE_def SUSPENDED_def AP_NOBODY_WROTE_def AP_NOBODY_READ_def
  AP_FILTER_ERROR_def

definition HTTP_CONTINUE :: int where "HTTP_CONTINUE = 100"
definition HTTP_SWITCHING_PROTOCOLS :: int where "HTTP_SWITCHING_PROTOCOLS = 101"
definition HTTP_PROCESSING :: int where "HTTP_PROCESSING = 102"

definition HTTP_CREATED :: int where "HTTP_CREATED = 201"
definition HTTP_ACCEPTED :: int where "HTTP_ACCEPTED = 202"
definition HTTP_NON_AUTHORITATIVE :: int where "HTTP_NON_AUTHORITATIVE = 203"
definition HTTP_NO_CONTENT :: int where "HTTP_NO_CONTENT = 204"
definition HTTP_RESET_CONTENT :: int where "HTTP_RESET_CONTENT = 205"
definition HTTP_PARTIAL_CONTENT :: int where "HTTP_PARTIAL_CONTENT = 206"
definition HTTP_MULTI_STATUS :: int where "HTTP_MULTI_STATUS = 207"
definition HTTP_ALREADY_REPORTED :: int where "HTTP_ALREADY_REPORTED = 208"
definition HTTP_IM_USED :: int where "HTTP_IM_USED = 226"

definition HTTP_MULTIPLE_CHOICES :: int where "HTTP_MULTIPLE_CHOICES = 300"
definition HTTP_MOVED_PERMANENTLY :: int where "HTTP_MOVED_PERMANENTLY = 301"
definition HTTP_MOVED_TEMPORARILY :: int where "HTTP_MOVED_TEMPORARILY = 302"
definition HTTP_SEE_OTHER :: int where "HTTP_SEE_OTHER = 303"
definition HTTP_NOT_MODIFIED :: int where "HTTP_NOT_MODIFIED = 304"
definition HTTP_USE_PROXY :: int where "HTTP_USE_PROXY = 305"
definition HTTP_TEMPORARY_REDIRECT :: int where "HTTP_TEMPORARY_REDIRECT = 307"
definition HTTP_PERMANENT_REDIRECT :: int where "HTTP_PERMANENT_REDIRECT = 308"

definition HTTP_BAD_REQUEST :: int where "HTTP_BAD_REQUEST = 400"
definition HTTP_UNAUTHORIZED :: int where "HTTP_UNAUTHORIZED = 401"
definition HTTP_PAYMENT_REQUIRED :: int where "HTTP_PAYMENT_REQUIRED = 402"
definition HTTP_METHOD_NOT_ALLOWED :: int where "HTTP_METHOD_NOT_ALLOWED = 405"
definition HTTP_NOT_ACCEPTABLE :: int where "HTTP_NOT_ACCEPTABLE = 406"
definition HTTP_PROXY_AUTHENTICATION_REQUIRED :: int where "HTTP_PROXY_AUTHENTICATION_REQUIRED = 407"
definition HTTP_REQUEST_TIME_OUT :: int where "HTTP_REQUEST_TIME_OUT = 408"
definition HTTP_CONFLICT :: int where "HTTP_CONFLICT = 409"
definition HTTP_GONE :: int where "HTTP_GONE = 410"
definition HTTP_LENGTH_REQUIRED :: int where "HTTP_LENGTH_REQUIRED = 411"
definition HTTP_PRECONDITION_FAILED :: int where "HTTP_PRECONDITION_FAILED = 412"
definition HTTP_REQUEST_ENTITY_TOO_LARGE :: int where "HTTP_REQUEST_ENTITY_TOO_LARGE = 413"
definition HTTP_REQUEST_URI_TOO_LARGE :: int where "HTTP_REQUEST_URI_TOO_LARGE = 414"
definition HTTP_UNSUPPORTED_MEDIA_TYPE :: int where "HTTP_UNSUPPORTED_MEDIA_TYPE = 415"
definition HTTP_RANGE_NOT_SATISFIABLE :: int where "HTTP_RANGE_NOT_SATISFIABLE = 416"
definition HTTP_EXPECTATION_FAILED :: int where "HTTP_EXPECTATION_FAILED = 417"
definition HTTP_MISDIRECTED_REQUEST :: int where "HTTP_MISDIRECTED_REQUEST = 421"
definition HTTP_UNPROCESSABLE_ENTITY :: int where "HTTP_UNPROCESSABLE_ENTITY = 422"
definition HTTP_LOCKED :: int where "HTTP_LOCKED = 423"
definition HTTP_FAILED_DEPENDENCY :: int where "HTTP_FAILED_DEPENDENCY = 424"
definition HTTP_UPGRADE_REQUIRED :: int where "HTTP_UPGRADE_REQUIRED = 426"
definition HTTP_PRECONDITION_REQUIRED :: int where "HTTP_PRECONDITION_REQUIRED = 428"
definition HTTP_TOO_MANY_REQUESTS :: int where "HTTP_TOO_MANY_REQUESTS = 429"
definition HTTP_REQUEST_HEADER_FIELDS_TOO_LARGE :: int where "HTTP_REQUEST_HEADER_FIELDS_TOO_LARGE = 431"
definition HTTP_UNAVAILABLE_FOR_LEGAL_REASONS :: int where "HTTP_UNAVAILABLE_FOR_LEGAL_REASONS = 451"

definition HTTP_NOT_IMPLEMENTED :: int where "HTTP_NOT_IMPLEMENTED = 501"
definition HTTP_BAD_GATEWAY :: int where "HTTP_BAD_GATEWAY = 502"
definition HTTP_SERVICE_UNAVAILABLE :: int where "HTTP_SERVICE_UNAVAILABLE = 503"
definition HTTP_GATEWAY_TIME_OUT :: int where "HTTP_GATEWAY_TIME_OUT = 504"
definition HTTP_VERSION_NOT_SUPPORTED :: int where "HTTP_VERSION_NOT_SUPPORTED = 505"
definition HTTP_VARIANT_ALSO_VARIES :: int where "HTTP_VARIANT_ALSO_VARIES = 506"
definition HTTP_INSUFFICIENT_STORAGE :: int where "HTTP_INSUFFICIENT_STORAGE = 507"
definition HTTP_LOOP_DETECTED :: int where "HTTP_LOOP_DETECTED = 508"
definition HTTP_NOT_EXTENDED :: int where "HTTP_NOT_EXTENDED = 510"
definition HTTP_NETWORK_AUTHENTICATION_REQUIRED :: int where "HTTP_NETWORK_AUTHENTICATION_REQUIRED = 511"

lemmas more_http_codes =
  HTTP_CONTINUE_def HTTP_SWITCHING_PROTOCOLS_def HTTP_PROCESSING_def HTTP_CREATED_def
  HTTP_ACCEPTED_def HTTP_NON_AUTHORITATIVE_def HTTP_NO_CONTENT_def HTTP_RESET_CONTENT_def
  HTTP_PARTIAL_CONTENT_def HTTP_MULTI_STATUS_def HTTP_ALREADY_REPORTED_def HTTP_IM_USED_def
  HTTP_MULTIPLE_CHOICES_def HTTP_MOVED_PERMANENTLY_def HTTP_MOVED_TEMPORARILY_def
  HTTP_SEE_OTHER_def HTTP_NOT_MODIFIED_def HTTP_USE_PROXY_def HTTP_TEMPORARY_REDIRECT_def
  HTTP_PERMANENT_REDIRECT_def HTTP_BAD_REQUEST_def HTTP_UNAUTHORIZED_def
  HTTP_PAYMENT_REQUIRED_def HTTP_METHOD_NOT_ALLOWED_def HTTP_NOT_ACCEPTABLE_def
  HTTP_PROXY_AUTHENTICATION_REQUIRED_def HTTP_REQUEST_TIME_OUT_def HTTP_CONFLICT_def
  HTTP_GONE_def HTTP_LENGTH_REQUIRED_def HTTP_PRECONDITION_FAILED_def
  HTTP_REQUEST_ENTITY_TOO_LARGE_def HTTP_REQUEST_URI_TOO_LARGE_def
  HTTP_UNSUPPORTED_MEDIA_TYPE_def HTTP_RANGE_NOT_SATISFIABLE_def HTTP_EXPECTATION_FAILED_def
  HTTP_MISDIRECTED_REQUEST_def HTTP_UNPROCESSABLE_ENTITY_def HTTP_LOCKED_def
  HTTP_FAILED_DEPENDENCY_def HTTP_UPGRADE_REQUIRED_def HTTP_PRECONDITION_REQUIRED_def
  HTTP_TOO_MANY_REQUESTS_def HTTP_REQUEST_HEADER_FIELDS_TOO_LARGE_def
  HTTP_UNAVAILABLE_FOR_LEGAL_REASONS_def HTTP_NOT_IMPLEMENTED_def HTTP_BAD_GATEWAY_def
  HTTP_SERVICE_UNAVAILABLE_def HTTP_GATEWAY_TIME_OUT_def HTTP_VERSION_NOT_SUPPORTED_def
  HTTP_VARIANT_ALSO_VARIES_def HTTP_INSUFFICIENT_STORAGE_def HTTP_LOOP_DETECTED_def
  HTTP_NOT_EXTENDED_def HTTP_NETWORK_AUTHENTICATION_REQUIRED_def

definition RESPONSE_CODES :: int where "RESPONSE_CODES = 103"

definition ap_status_drops_connection :: "int \<Rightarrow> bool" where
  "ap_status_drops_connection x \<longleftrightarrow>
     x = HTTP_BAD_REQUEST \<or> x = HTTP_REQUEST_TIME_OUT \<or> x = HTTP_LENGTH_REQUIRED \<or>
     x = HTTP_REQUEST_ENTITY_TOO_LARGE \<or> x = HTTP_REQUEST_URI_TOO_LARGE \<or> x = HTTP_INTERNAL_SERVER_ERROR \<or>
     x = HTTP_SERVICE_UNAVAILABLE \<or> x = HTTP_NOT_IMPLEMENTED"

section \<open>The table of the status lines\<close>

definition http_statuses :: "int list" where
  "http_statuses =
    [HTTP_CONTINUE, HTTP_SWITCHING_PROTOCOLS, HTTP_PROCESSING, HTTP_OK, HTTP_CREATED,
     HTTP_ACCEPTED, HTTP_NON_AUTHORITATIVE, HTTP_NO_CONTENT, HTTP_RESET_CONTENT,
     HTTP_PARTIAL_CONTENT, HTTP_MULTI_STATUS, HTTP_ALREADY_REPORTED, HTTP_IM_USED,
     HTTP_MULTIPLE_CHOICES, HTTP_MOVED_PERMANENTLY, HTTP_MOVED_TEMPORARILY, HTTP_SEE_OTHER,
     HTTP_NOT_MODIFIED, HTTP_USE_PROXY, HTTP_TEMPORARY_REDIRECT, HTTP_PERMANENT_REDIRECT,
     HTTP_BAD_REQUEST, HTTP_UNAUTHORIZED, HTTP_PAYMENT_REQUIRED, HTTP_FORBIDDEN, HTTP_NOT_FOUND,
     HTTP_METHOD_NOT_ALLOWED, HTTP_NOT_ACCEPTABLE, HTTP_PROXY_AUTHENTICATION_REQUIRED,
     HTTP_REQUEST_TIME_OUT, HTTP_CONFLICT, HTTP_GONE, HTTP_LENGTH_REQUIRED,
     HTTP_PRECONDITION_FAILED, HTTP_REQUEST_ENTITY_TOO_LARGE, HTTP_REQUEST_URI_TOO_LARGE,
     HTTP_UNSUPPORTED_MEDIA_TYPE, HTTP_RANGE_NOT_SATISFIABLE, HTTP_EXPECTATION_FAILED,
     HTTP_MISDIRECTED_REQUEST, HTTP_UNPROCESSABLE_ENTITY, HTTP_LOCKED, HTTP_FAILED_DEPENDENCY,
     HTTP_UPGRADE_REQUIRED, HTTP_PRECONDITION_REQUIRED, HTTP_TOO_MANY_REQUESTS,
     HTTP_REQUEST_HEADER_FIELDS_TOO_LARGE, HTTP_UNAVAILABLE_FOR_LEGAL_REASONS,
     HTTP_INTERNAL_SERVER_ERROR, HTTP_NOT_IMPLEMENTED, HTTP_BAD_GATEWAY,
     HTTP_SERVICE_UNAVAILABLE, HTTP_GATEWAY_TIME_OUT, HTTP_VERSION_NOT_SUPPORTED,
     HTTP_VARIANT_ALSO_VARIES, HTTP_INSUFFICIENT_STORAGE, HTTP_LOOP_DETECTED, HTTP_NOT_EXTENDED,
     HTTP_NETWORK_AUTHENTICATION_REQUIRED]"

text \<open>
  The slots of a table of status lines that has, for each class of statuses, one for every number from the first of
  the class to the last one defined.
\<close>

definition status_slots :: "int list \<Rightarrow> int" where
  "status_slots codes =
     (\<Sum>c\<leftarrow>[1, 2, 3, 4, 5]. foldr max (filter (\<lambda>x. x div 100 = c) codes) (100 * c) - 100 * c + 1)"

lemma response_codes_slots: "RESPONSE_CODES = status_slots http_statuses"
  by (simp add: RESPONSE_CODES_def status_slots_def http_statuses_def http_codes more_http_codes)

lemma http_statuses_sorted: "sorted_wrt (<) http_statuses"
  by (simp add: http_statuses_def http_codes more_http_codes sorted_wrt2 sorted_wrt1 del: sorted_wrt.simps)

lemma http_statuses_valid: "list_all ap_is_HTTP_VALID_RESPONSE http_statuses"
  by (simp add: http_statuses_def http_codes more_http_codes ap_is_HTTP_VALID_RESPONSE_def)

text \<open>No result of a hook is taken for a status, and a status that ends the connection is an error.\<close>

lemma hook_results_no_status:
  "x \<in> {OK, DECLINED, DONE, SUSPENDED, AP_NOBODY_WROTE, AP_NOBODY_READ, AP_FILTER_ERROR} \<Longrightarrow>
   \<not> ap_is_HTTP_VALID_RESPONSE x"
  by (auto simp: hook_results ap_is_HTTP_VALID_RESPONSE_def)

lemma drops_connection_error: "ap_status_drops_connection x \<Longrightarrow> ap_is_HTTP_ERROR x"
  by (auto simp: ap_status_drops_connection_def ap_is_HTTP_ERROR_def http_codes more_http_codes)

section \<open>The answers of the handler\<close>

text \<open>A refused request keeps its connection, a failed one ends it.\<close>

lemma refusal_keeps_connection:
  "check_request dc r = Some (st, log) \<Longrightarrow>
   st = DECLINED \<or> ap_is_HTTP_CLIENT_ERROR st \<and> \<not> ap_status_drops_connection st"
  by (auto dest!: check_request_codes simp: ap_status_drops_connection_def ap_is_HTTP_CLIENT_ERROR_def http_codes
      more_http_codes)

lemma failure_drops_connection: "ap_status_drops_connection (fst (handler_status (Inl e)))"
  by (cases e) (simp_all add: handler_status_def ap_status_drops_connection_def)

text \<open>
  A COM error code that is folded into a status folds back, but it is no error of Windows and no error of APR to
  any of the tests, even where COM has wrapped an error of Windows in it.
\<close>

lemma com_status_foreign:
  assumes "win_numbers win" "errno_small en" "FAILED hr" "hr < - APR_OS_START_SYSERR"
  shows "APR_TO_OS_ERROR (APR_FROM_OS_ERROR hr) = hr" "\<not> test_status t en win (APR_FROM_OS_ERROR hr)"
proof -
  have "bit (uint hr) 31" using assms(3) by (simp add: FAILED_def sint_uint)
  then have "\<not> uint hr < 2147483648" by (auto simp: bit_iff_odd div_pos_pos_trivial)
  then have big: "2147483648 \<le> hr" by (simp add: word_le_def)
  have "(- 720000 :: 32 word) = 4294247296" by code_simp
  then have small: "hr < 4294247296" using assms(4) by (simp only: APR_OS_START_SYSERR_val)
  have s: "APR_FROM_OS_ERROR hr = hr + 720000"
    using big by (auto simp: APR_FROM_OS_ERROR_def APR_OS_START_SYSERR_val)
  have "uint (hr + 720000) = uint hr + 720000"
    using small by (simp add: uint_word_ariths word_less_def)
  then have le: "2147483648 + 720000 \<le> hr + 720000" using big by (simp add: word_le_def)
  have "hr + 720000 \<noteq> test_code t en" using canonical_small [OF assms(2), of t] le
    by (auto simp: APR_OS_START_SYSERR_val word_le_def word_less_def)
  moreover have "hr + 720000 \<noteq> 720000 + win x" for x
    using assms(1) big by (auto simp: win_numbers_def word_le_def word_less_def dest!: spec [of _ x])
  ultimately show "\<not> test_status t en win (APR_FROM_OS_ERROR hr)"
    by (simp add: test_status_table s APR_OS_START_SYSERR_val)
  show "APR_TO_OS_ERROR (APR_FROM_OS_ERROR hr) = hr" using assms(4) by (auto simp: from_to_os_error)
qed

text \<open>The log of a COM exception names its code, for the log's readers as for \<open>apr_strerror\<close>.\<close>

theorem com_failure_logged:
  assumes "win_numbers win" "errno_small en" "FAILED hr" "hr < - APR_OS_START_SYSERR"
    and "aliases_wf g sc" "set (iter sc) = ran (sc_aliases sc)" "g_pHostFactory g \<noteq> None"
    "check_request dc r = None" "\<not> FAILED (co_init ciex ci)"
    "u \<in> dom (sc_aliases sc)" "covers u (the (r_uri r))"
    and "\<And>k r f. fst (handle k r f) = Inl (ComError hr desc)"
  shows "\<exists>st r' f' log. asp_net_handler handle cv cg ciex ci iter g sc dc r f = (Status st, r', f', log) \<and>
    ap_status_drops_connection st \<and> length log = (if desc = None then 1 else 2) \<and>
    (\<forall>e\<in>set log. log_level e = APLOG_ERR \<and> APR_TO_OS_ERROR (log_rv e) = hr \<and>
       (\<forall>t. \<not> test_status t en win (log_rv e)))"
proof -
  obtain k where "asp_net_handler handle cv cg ciex ci iter g sc dc r f =
      (let (res, r, f) = handle k (cg (cv r)) f; (st, log) = handler_status res in (Status st, r, f, log))"
    using handler_reaches_factory [where handle = handle and f = f and iter = iter, OF assms(5-11)] by blast
  moreover obtain r' f' where "handle k (cg (cv r)) f = (Inl (ComError hr desc), r', f')"
    using assms(12) [of k "cg (cv r)" f] by (cases "handle k (cg (cv r)) f") auto
  ultimately show ?thesis
    using com_status_foreign [OF assms(1-4)] failure_drops_connection [of "ComError hr desc"]
    by (auto simp: handler_status_def split: option.split)
qed

end
