(* ===== verification/Factory_Steps.thy ===== *)
theory Factory_Steps
  imports Factory_Dispatch
begin

text \<open>
  The calls of the host factory (\<open>Apache.Web/HostFactory.h\<close>) that run on several threads,
  step by step. httpd calls \<open>HandleHostRequest\<close> from its worker threads and the
  framework calls \<open>HostFinalized\<close> from others; only part of the first holds the monitor.
  Each is cut into the steps between which another thread may run, \<open>thread_step\<close>. A call
  into an application domain is one step. A thread that runs alone does what the definitions of
  \<open>Host_Factory\<close> say; \<open>Factory_Threads\<close> has the threads together.
\<close>

section \<open>The steps of one thread\<close>

text \<open>
  Where a thread is. An argument of type \<open>ptr\<close> is the local \<open>obj\<close>, a number a
  host: the one to call, the one just created, or for a finalizer the one that ends. From
  \<open>Trying\<close> to \<open>Leaving\<close> the thread is in the \<open>try\<close> block under the
  monitor; \<open>Creating\<close> to \<open>ConnectFailing\<close> are \<open>ConnectHost\<close>.
  \<open>Ended\<close> has the exception or the result, a status for a request.
\<close>

datatype pc =
    Reading
  | Calling nat
  | Excusing nat exn
  | Announcing ptr
  | Entering ptr
  | Trying ptr
  | Clearing ptr
  | Creating
  | Storing ptr
  | Configuring nat
  | Unconnected
  | ConnectFailing exn
  | Querying
  | Leaving "string + ptr"
  | Reporting string
  | Failing exn
  | FailReporting exn
  | Retrying ptr
  | FinEntering nat
  | FinReading nat
  | FinClearing
  | FinLeaving
  | Ended "exn + int option"

abbreviation connect_text :: string where
  "connect_text \<equiv> ''Mount failed to connect to the restarting host ''"

abbreviation query_text :: string where
  "query_text \<equiv> ''Mount failed to query the restarting host ''"

text \<open>A step runs one action; what it threw or returned says where the thread goes on.\<close>

definition act :: "('s, 'a) meth \<Rightarrow> (exn \<Rightarrow> pc) \<Rightarrow> ('a \<Rightarrow> pc) \<Rightarrow> 's \<Rightarrow> pc \<times> 's" where
  "act m threw next s = (case m s of (Inl e, s') \<Rightarrow> (threw e, s') | (Inr x, s') \<Rightarrow> (next x, s'))"

abbreviation Threw :: "exn \<Rightarrow> pc" where "Threw e \<equiv> Ended (Inl e)"
abbreviation Status :: "int \<Rightarrow> pc" where "Status st \<equiv> Ended (Inr (Some st))"

text \<open>The steps of \<open>ConnectHost\<close>, and those of \<open>HostFinalized\<close>.\<close>

definition connect_step :: "'w app_env \<Rightarrow> int \<Rightarrow> pc \<Rightarrow> 'w fstate \<Rightarrow> pc \<times> 'w fstate" where
  "connect_step env k pc = (case pc of
     Storing newHost \<Rightarrow>
       act (set_hostObj k newHost) ConnectFailing
         (\<lambda>_. case newHost of None \<Rightarrow> Unconnected | Some h \<Rightarrow> Configuring h)
   | Configuring h \<Rightarrow>
       act (obind (get_item f_hostURI k) (\<lambda>uri. obind (get_item f_hostDir k) (\<lambda>dir.
            obind (oget (\<lambda>s. f_module_index (fs_fac s))) (\<lambda>mi.
              in_world (ae_Configure env h uri dir k mi))))) ConnectFailing (\<lambda>_. Querying)
   | Unconnected \<Rightarrow>
       act (obind (get_item f_hostSvr k) (\<lambda>_.
              LogServerError env (wL ''mod_aspdotnet: CreateApplicationHost returned NULL, perhaps the AspNetMount paths were invalid'')
                APLOG_ERR 0)) ConnectFailing (\<lambda>_. Leaving (Inl connect_text))
   | ConnectFailing e \<Rightarrow> act (connect_failed env k e) Failing (\<lambda>_. Leaving (Inl connect_text))
   | _ \<Rightarrow>
       act (obind (get_item f_hostURI k) (\<lambda>uri. obind (get_item f_hostDir k) (\<lambda>dir.
              in_world (ae_CreateApplicationHost env uri dir)))) ConnectFailing Storing)"

definition finalizer_step :: "int \<Rightarrow> pc \<Rightarrow> 'w fstate \<Rightarrow> pc \<times> 'w fstate" where
  "finalizer_step k pc = (case pc of
     FinEntering h \<Rightarrow> act monitor_enter Threw (\<lambda>_. FinReading h)
   | FinReading h \<Rightarrow>
       act (get_item f_hostObj k) Threw (\<lambda>obj. if obj = Some h then FinClearing else FinLeaving)
   | FinClearing \<Rightarrow> act (otry (set_hostObj k None) (\<lambda>_. oreturn ())) Threw (\<lambda>_. FinLeaving)
   | _ \<Rightarrow> act monitor_exit Threw (\<lambda>_. Ended (Inr None)))"

fun thread_step :: "'w app_env \<Rightarrow> int \<Rightarrow> pc \<Rightarrow> 'w fstate \<Rightarrow> pc \<times> 'w fstate" where
  "thread_step env k Reading =
     act (get_item f_hostObj k) Threw (\<lambda>obj. case obj of None \<Rightarrow> Announcing None | Some h \<Rightarrow> Calling h)"
| "thread_step env k (Calling h) = act (in_world (ae_HandleRequest env h)) (Excusing h) Status"
| "thread_step env k (Excusing h e) =
     (if e = Remoting then
        act (LogServerError env (wL ''RemotingException; '' @ ae_ToString env e) APLOG_DEBUG 0)
          Threw (\<lambda>_. Announcing (Some h))
      else if e = AppDomainUnloaded then
        act (LogServerError env (wL ''AppDomainUnloadedException; '' @ ae_ToString env e) APLOG_DEBUG 0)
          Threw (\<lambda>_. Announcing (Some h))
      else
        act (LogServerError env (wL ''HandleRequest: Failed with unexpected Exception; '' @ ae_ToString env e)
          APLOG_ERR 0) Threw (\<lambda>_. Status 500))"
| "thread_step env k (Announcing obj) =
     act (log_host env ''Restarting host of '' k APLOG_INFO) Threw (\<lambda>_. Entering obj)"
| "thread_step env k (Entering obj) = act monitor_enter Threw (\<lambda>_. Trying obj)"
| "thread_step env k (Trying obj) =
     act (get_item f_hostObj k) Failing
       (\<lambda>tryobj. if tryobj = obj then Clearing obj else if obj = None then Creating else Leaving (Inr obj))"
| "thread_step env k (Clearing obj) =
     act (otry (set_hostObj k None) (\<lambda>_. oreturn ())) Failing
       (\<lambda>_. if obj = None then Creating else Leaving (Inr obj))"
| "thread_step env k Creating = connect_step env k Creating"
| "thread_step env k (Storing p) = connect_step env k (Storing p)"
| "thread_step env k (Configuring h) = connect_step env k (Configuring h)"
| "thread_step env k Unconnected = connect_step env k Unconnected"
| "thread_step env k (ConnectFailing e) = connect_step env k (ConnectFailing e)"
| "thread_step env k Querying =
     act (get_item f_hostObj k) Failing
       (\<lambda>obj. if obj = None then Leaving (Inl query_text) else Leaving (Inr obj))"
| "thread_step env k (Leaving r) =
     act monitor_exit Failing (\<lambda>_. case r of Inl pre \<Rightarrow> Reporting pre | Inr obj \<Rightarrow> Retrying obj)"
| "thread_step env k (Reporting pre) = act (log_host env pre k APLOG_ERR) Failing (\<lambda>_. Status 500)"
| "thread_step env k (Failing e) = act monitor_exit Threw (\<lambda>_. FailReporting e)"
| "thread_step env k (FailReporting e) =
     act (obind (log_host env ''Mount failure restarting host '' k APLOG_ERR) (\<lambda>_.
            LogServerError env (wL ''Mount failure exception restarting host; '' @ ae_ToString env e) APLOG_ERR 0))
       Threw (\<lambda>_. Status 500)"
| "thread_step env k (Retrying obj) = act (last_attempt env obj) Threw Status"
| "thread_step env k (FinEntering h) = finalizer_step k (FinEntering h)"
| "thread_step env k (FinReading h) = finalizer_step k (FinReading h)"
| "thread_step env k FinClearing = finalizer_step k FinClearing"
| "thread_step env k FinLeaving = finalizer_step k FinLeaving"
| "thread_step env k (Ended r) = Pair (Ended r)"

lemmas thread_steps = thread_step.simps [unfolded connect_step_def finalizer_step_def pc.case]

declare thread_step.simps [simp del] thread_steps [simp]

text \<open>Every step gets closer to the end of the call.\<close>

fun rank :: "pc \<Rightarrow> nat" where
  "rank Reading = 16"
| "rank (Calling h) = 15"
| "rank (Excusing h e) = 14"
| "rank (Announcing p) = 13"
| "rank (Entering p) = 12"
| "rank (Trying p) = 11"
| "rank (Clearing p) = 10"
| "rank Creating = 9"
| "rank (Storing p) = 8"
| "rank (Configuring h) = 7"
| "rank Unconnected = 7"
| "rank (ConnectFailing e) = 6"
| "rank Querying = 5"
| "rank (Leaving r) = 4"
| "rank (Reporting pre) = 3"
| "rank (Failing e) = 2"
| "rank (FailReporting e) = 1"
| "rank (Retrying p) = 1"
| "rank (FinEntering h) = 4"
| "rank (FinReading h) = 3"
| "rank FinClearing = 2"
| "rank FinLeaving = 1"
| "rank (Ended r) = 0"

definition ended :: "pc \<Rightarrow> bool" where
  "ended pc \<longleftrightarrow> rank pc = 0"

lemma act_rank:
  "(\<And>e. rank (threw e) < n) \<Longrightarrow> (\<And>x. rank (next x) < n) \<Longrightarrow> rank (fst (act m threw next s)) < n"
  by (simp add: act_def split: prod.split sum.split)

lemma act_ends:
  "(\<And>e. rank (threw e) = 0) \<Longrightarrow> (\<And>x. rank (next x) = 0) \<Longrightarrow> rank (fst (act m threw next s)) = 0"
  by (simp add: act_def split: prod.split sum.split)

lemma thread_step_rank: "\<not> ended pc \<Longrightarrow> rank (fst (thread_step env k pc s)) < rank pc"
  by (cases pc) (simp_all add: ended_def act_rank act_ends split: option.split sum.split)

lemma thread_step_rank_case:
  "\<not> ended pc \<Longrightarrow> (case thread_step env k pc s of (pc', s') \<Rightarrow> rank pc') < rank pc"
  using thread_step_rank [of pc env k s] by (cases "thread_step env k pc s") simp

section \<open>A thread that runs alone\<close>

function solo :: "'w app_env \<Rightarrow> int \<Rightarrow> pc \<Rightarrow> 'w fstate \<Rightarrow> pc \<times> 'w fstate" where
  "solo env k pc s =
     (if ended pc then (pc, s) else solo env k (fst (thread_step env k pc s)) (snd (thread_step env k pc s)))"
  by pat_completeness auto
termination by (relation "measure (\<lambda>(env, k, pc, s). rank pc)") (simp_all add: thread_step_rank_case)

declare solo.simps [simp del]

text \<open>What is left of a call at each point, in the definitions of \<open>Host_Factory\<close>.\<close>

definition finish :: "int + ptr \<Rightarrow> 'w app_env \<Rightarrow> ('w fstate, int option) meth" where
  "finish r env = (case r of Inl st \<Rightarrow> oreturn (Some st)
     | Inr p \<Rightarrow> obind (last_attempt env p) (\<lambda>st. oreturn (Some st)))"

definition caught :: "'w app_env \<Rightarrow> int \<Rightarrow> exn \<Rightarrow> ('w fstate, int + ptr) meth" where
  "caught env k e =
     obind monitor_exit (\<lambda>_.
     obind (log_host env ''Mount failure restarting host '' k APLOG_ERR) (\<lambda>_.
     obind (LogServerError env (wL ''Mount failure exception restarting host; '' @ ae_ToString env e) APLOG_ERR 0) (\<lambda>_.
     oreturn (Inl 500))))"

definition guarded :: "'w app_env \<Rightarrow> int \<Rightarrow> ('w fstate, int + ptr) meth \<Rightarrow> ('w fstate, int option) meth" where
  "guarded env k m = obind (otry m (caught env k)) (\<lambda>r. finish r env)"

definition reported :: "'w app_env \<Rightarrow> int \<Rightarrow> string \<Rightarrow> ('w fstate, int + ptr) meth" where
  "reported env k pre = obind (log_host env pre k APLOG_ERR) (\<lambda>_. oreturn (Inl 500))"

definition left :: "'w app_env \<Rightarrow> int \<Rightarrow> string + ptr \<Rightarrow> ('w fstate, int + ptr) meth" where
  "left env k r = obind monitor_exit (\<lambda>_. case r of Inl pre \<Rightarrow> reported env k pre | Inr p \<Rightarrow> oreturn (Inr p))"

definition queried :: "'w app_env \<Rightarrow> int \<Rightarrow> ('w fstate, int + ptr) meth" where
  "queried env k = obind (get_item f_hostObj k)
     (\<lambda>obj. if obj = None then left env k (Inl query_text) else left env k (Inr obj))"

definition connected :: "'w app_env \<Rightarrow> int \<Rightarrow> ('w fstate, bool) meth \<Rightarrow> ('w fstate, int option) meth" where
  "connected env k m =
     guarded env k (obind (otry m (connect_failed env k))
       (\<lambda>b. if b then queried env k else left env k (Inl connect_text)))"

definition configured :: "'w app_env \<Rightarrow> int \<Rightarrow> nat \<Rightarrow> ('w fstate, bool) meth" where
  "configured env k h =
     obind (get_item f_hostURI k) (\<lambda>uri. obind (get_item f_hostDir k) (\<lambda>dir.
     obind (oget (\<lambda>s. f_module_index (fs_fac s))) (\<lambda>mi.
     obind (in_world (ae_Configure env h uri dir k mi)) (\<lambda>_. oreturn True))))"

definition unconnected :: "'w app_env \<Rightarrow> int \<Rightarrow> ('w fstate, bool) meth" where
  "unconnected env k =
     obind (get_item f_hostSvr k) (\<lambda>_.
     obind (LogServerError env (wL ''mod_aspdotnet: CreateApplicationHost returned NULL, perhaps the AspNetMount paths were invalid'')
        APLOG_ERR 0) (\<lambda>_. oreturn False))"

definition stored :: "'w app_env \<Rightarrow> int \<Rightarrow> ptr \<Rightarrow> ('w fstate, bool) meth" where
  "stored env k newHost =
     obind (set_hostObj k newHost)
       (\<lambda>_. case newHost of Some h \<Rightarrow> configured env k h | None \<Rightarrow> unconnected env k)"

definition tried :: "'w app_env \<Rightarrow> int \<Rightarrow> ptr \<Rightarrow> ('w fstate, int + ptr) meth" where
  "tried env k obj =
     (if obj = None then obind (ConnectHost env k) (\<lambda>b. if b then queried env k else left env k (Inl connect_text))
      else left env k (Inr obj))"

definition excused :: "'w app_env \<Rightarrow> exn \<Rightarrow> ('w fstate, int option) meth" where
  "excused env e =
     (if e = Remoting then
        obind (LogServerError env (wL ''RemotingException; '' @ ae_ToString env e) APLOG_DEBUG 0) (\<lambda>_. oreturn None)
      else if e = AppDomainUnloaded then
        obind (LogServerError env (wL ''AppDomainUnloadedException; '' @ ae_ToString env e) APLOG_DEBUG 0)
          (\<lambda>_. oreturn None)
      else
        obind (LogServerError env (wL ''HandleRequest: Failed with unexpected Exception; '' @ ae_ToString env e)
          APLOG_ERR 0) (\<lambda>_. oreturn (Some 500)))"

definition announced :: "'w app_env \<Rightarrow> int \<Rightarrow> ptr \<Rightarrow> ('w fstate, int option) meth" where
  "announced env k obj =
     obind (log_host env ''Restarting host of '' k APLOG_INFO) (\<lambda>_.
     obind (restart env k obj) (\<lambda>r. finish r env))"

definition attempted :: "'w app_env \<Rightarrow> int \<Rightarrow> nat \<Rightarrow> ('w fstate, int option) meth \<Rightarrow> ('w fstate, int option) meth" where
  "attempted env k h m = obind m (\<lambda>d. case d of Some st \<Rightarrow> oreturn (Some st) | None \<Rightarrow> announced env k (Some h))"

fun rest :: "'w app_env \<Rightarrow> int \<Rightarrow> pc \<Rightarrow> ('w fstate, int option) meth" where
  "rest env k Reading = obind (HandleHostRequest env id k) (\<lambda>st. oreturn (Some st))"
| "rest env k (Announcing obj) = announced env k obj"
| "rest env k (Calling h) = attempted env k h (first_attempt env (Some h))"
| "rest env k (Excusing h e) = attempted env k h (excused env e)"
| "rest env k (Entering obj) = obind (restart env k obj) (\<lambda>r. finish r env)"
| "rest env k (Trying obj) = guarded env k (restart_body env k obj)"
| "rest env k (Clearing obj) =
     guarded env k (obind (otry (set_hostObj k None) (\<lambda>_. oreturn ())) (\<lambda>_. tried env k obj))"
| "rest env k Creating = guarded env k (tried env k None)"
| "rest env k (Storing p) = connected env k (stored env k p)"
| "rest env k (Configuring h) = connected env k (configured env k h)"
| "rest env k Unconnected = connected env k (unconnected env k)"
| "rest env k (ConnectFailing e) =
     guarded env k (obind (connect_failed env k e)
       (\<lambda>b. if b then queried env k else left env k (Inl connect_text)))"
| "rest env k Querying = guarded env k (queried env k)"
| "rest env k (Leaving r) = guarded env k (left env k r)"
| "rest env k (Reporting pre) = guarded env k (reported env k pre)"
| "rest env k (Failing e) = obind (caught env k e) (\<lambda>r. finish r env)"
| "rest env k (FailReporting e) =
     obind (log_host env ''Mount failure restarting host '' k APLOG_ERR) (\<lambda>_.
     obind (LogServerError env (wL ''Mount failure exception restarting host; '' @ ae_ToString env e) APLOG_ERR 0) (\<lambda>_.
     oreturn (Some 500)))"
| "rest env k (Retrying p) = obind (last_attempt env p) (\<lambda>st. oreturn (Some st))"
| "rest env k (FinEntering h) = obind (HostFinalized k h) (\<lambda>_. oreturn None)"
| "rest env k (FinReading h) =
     obind (get_item f_hostObj k) (\<lambda>obj.
     obind (if obj = Some h then otry (set_hostObj k None) (\<lambda>_. oreturn ()) else oreturn ()) (\<lambda>_.
     obind monitor_exit (\<lambda>_. oreturn None)))"
| "rest env k FinClearing =
     obind (otry (set_hostObj k None) (\<lambda>_. oreturn ())) (\<lambda>_. obind monitor_exit (\<lambda>_. oreturn None))"
| "rest env k FinLeaving = obind monitor_exit (\<lambda>_. oreturn None)"
| "rest env k (Ended r) = olift r"

lemmas rest_defs = finish_def caught_def guarded_def reported_def left_def queried_def connected_def
  configured_def unconnected_def stored_def tried_def excused_def announced_def attempted_def

lemma obind_cases:
  "obind (oreturn x) f = f x" "obind (omap id) g = g ()"
  "obind (case_option a b p) f = (case p of None \<Rightarrow> obind a f | Some h \<Rightarrow> obind (b h) f)"
  "obind (case_sum c d r) f = (case r of Inl y \<Rightarrow> obind (c y) f | Inr z \<Rightarrow> obind (d z) f)"
  "obind (if q then a else a') f = (if q then obind a f else obind a' f)"
  by (auto split: option.split sum.split)

lemma otry_cases:
  "otry (oreturn x) h = oreturn x" "otry (if q then a else a') h = (if q then otry a h else otry a' h)"
  by (auto simp: fun_eq_iff otry_def)

lemma if_flip: "(if \<not> q then a else b) = (if q then b else a)"
  by simp

text \<open>Running the first action of what is left.\<close>

definition sel :: "(exn + 'a) \<times> 's \<Rightarrow> (exn \<Rightarrow> 's \<Rightarrow> 'b) \<Rightarrow> ('a \<Rightarrow> 's \<Rightarrow> 'b) \<Rightarrow> 'b" where
  "sel r threw next = (case r of (Inl e, s') \<Rightarrow> threw e s' | (Inr x, s') \<Rightarrow> next x s')"

lemma sel_cong: "(\<And>e s. t e s = t' e s) \<Longrightarrow> (\<And>x s. n x s = n' x s) \<Longrightarrow> sel r t n = sel r t' n'"
  by (simp add: sel_def split: prod.split sum.split)

lemma rest_act:
  assumes "thread_step env k pc = act m threw next"
    "rest env k pc s = sel (m s) (\<lambda>e. rest env k (threw e)) (\<lambda>x. rest env k (next x))"
  shows "rest env k pc s = rest env k (fst (thread_step env k pc s)) (snd (thread_step env k pc s))"
  using assms by (simp add: act_def sel_def split: prod.split sum.split)

lemma first_obind: "obind m f s = sel (m s) (\<lambda>e s'. (Inl e, s')) f"
  by (simp add: obind_def sel_def)

lemma first_otry: "otry m h s = sel (m s) h (\<lambda>x s'. (Inr x, s'))"
  by (simp add: otry_def sel_def)

lemma first_guarded:
  "guarded env k (obind m f) s = sel (m s) (\<lambda>e. rest env k (Failing e)) (\<lambda>x. guarded env k (f x))"
  by (simp add: guarded_def sel_def obind_def otry_def split: prod.split sum.split)

lemma first_connected:
  "connected env k (obind m f) s = sel (m s) (\<lambda>e. rest env k (ConnectFailing e)) (\<lambda>x. connected env k (f x))"
  by (simp add: connected_def guarded_def sel_def obind_def otry_def split: prod.split sum.split)

lemma first_attempt_None: "first_attempt env None = oreturn None"
  by (simp add: first_attempt_def)

lemma first_attempt_Some:
  "first_attempt env (Some h) =
     otry (obind (in_world (ae_HandleRequest env h)) (\<lambda>st. oreturn (Some st))) (excused env)"
  by (simp add: first_attempt_def excused_def [abs_def])

lemma rest_HandleHostRequest:
  "rest env k Reading = obind (get_item f_hostObj k)
     (\<lambda>obj. case obj of None \<Rightarrow> announced env k None | Some h \<Rightarrow> attempted env k h (first_attempt env (Some h)))"
proof -
  have "obind (first_attempt env obj) (\<lambda>d. case d of Some st \<Rightarrow> oreturn (Some st) | None \<Rightarrow> announced env k obj) =
      (case obj of None \<Rightarrow> announced env k None | Some h \<Rightarrow> attempted env k h (first_attempt env (Some h)))" for obj
    by (cases obj) (simp_all add: first_attempt_None obind_cases attempted_def del: meth_simps cong: option.case_cong)
  moreover have "rest env k Reading = obind (get_item f_hostObj k)
      (\<lambda>obj. obind (first_attempt env obj) (\<lambda>d. case d of Some st \<Rightarrow> oreturn (Some st) | None \<Rightarrow> announced env k obj))"
    by (simp add: HandleHostRequest_def obind_cases announced_def finish_def del: meth_simps
        cong: option.case_cong sum.case_cong)
  ultimately show ?thesis by simp
qed

lemma restart_guarded:
  "obind (restart env k obj) (\<lambda>r. finish r env) = obind monitor_enter (\<lambda>_. guarded env k (restart_body env k obj))"
  by (simp add: restart_def guarded_def caught_def [abs_def])

lemma restart_body_tried:
  "restart_body env k obj = obind (get_item f_hostObj k) (\<lambda>tryobj.
     if tryobj = obj then obind (otry (set_hostObj k None) (\<lambda>_. oreturn ())) (\<lambda>_. tried env k obj)
     else tried env k obj)"
  by (cases obj) (simp_all add: restart_body_def tried_def queried_def left_def reported_def obind_cases Let_def if_flip
      del: meth_simps cong: if_cong)

lemma ConnectHost_stored:
  "ConnectHost env k =
     otry (obind (obind (get_item f_hostURI k) (\<lambda>uri. obind (get_item f_hostDir k) (\<lambda>dir.
             in_world (ae_CreateApplicationHost env uri dir)))) (stored env k)) (connect_failed env k)"
  by (simp add: ConnectHost_def stored_def [abs_def] configured_def unconnected_def del: meth_simps
      cong: option.case_cong)

lemma first_attempted:
  "attempted env k h (obind m f) s =
     sel (m s) (\<lambda>e s'. (Inl e, s')) (\<lambda>x. attempted env k h (f x))"
  by (simp add: attempted_def sel_def obind_def split: prod.split sum.split)

lemma rest_Calling: "attempted env k h (first_attempt env (Some h)) s =
    sel (in_world (ae_HandleRequest env h) s) (\<lambda>e. attempted env k h (excused env e)) (\<lambda>st s'. (Inr (Some st), s'))"
  by (simp add: first_attempt_Some attempted_def sel_def obind_def otry_def split: prod.split sum.split)

lemma guarded_returns [simp]:
  "guarded env k (oreturn (Inl st)) s = (Inr (Some st), s)"
  "guarded env k (oreturn (Inr p)) s = rest env k (Retrying p) s"
  by (simp_all add: guarded_def finish_def obind_def otry_def)

lemma connected_returns [simp]:
  "connected env k (oreturn True) s = guarded env k (queried env k) s"
  "connected env k (oreturn False) s = guarded env k (left env k (Inl connect_text)) s"
  by (simp_all add: connected_def guarded_def obind_def otry_def)

lemma attempted_returns [simp]:
  "attempted env k h (oreturn (Some st)) s = (Inr (Some st), s)"
  "attempted env k h (oreturn None) s = announced env k (Some h) s"
  by (simp_all add: attempted_def)

lemma rest_Creating: "rest env k Creating = connected env k
    (obind (obind (get_item f_hostURI k) (\<lambda>uri. obind (get_item f_hostDir k) (\<lambda>dir.
        in_world (ae_CreateApplicationHost env uri dir)))) (stored env k))"
  unfolding rest.simps tried_def ConnectHost_stored connected_def by (simp del: meth_simps obind_assoc)

lemma rest_Configuring: "rest env k (Configuring h) = connected env k
    (obind (obind (get_item f_hostURI k) (\<lambda>uri. obind (get_item f_hostDir k) (\<lambda>dir.
          obind (oget (\<lambda>s. f_module_index (fs_fac s))) (\<lambda>mi.
            in_world (ae_Configure env h uri dir k mi))))) (\<lambda>_. oreturn True))"
  by (simp add: configured_def del: meth_simps)

lemma rest_Unconnected: "rest env k Unconnected = connected env k
    (obind (obind (get_item f_hostSvr k) (\<lambda>_.
            LogServerError env (wL ''mod_aspdotnet: CreateApplicationHost returned NULL, perhaps the AspNetMount paths were invalid'')
              APLOG_ERR 0)) (\<lambda>_. oreturn False))"
  by (simp add: unconnected_def del: meth_simps)

lemma connect_failed_False: "obind (connect_failed env k e) f = obind (connect_failed env k e) (\<lambda>_. f False)"
  by (simp add: connect_failed_def obind_cases del: meth_simps)

lemma rest_ConnectFailing: "rest env k (ConnectFailing e) =
    guarded env k (obind (connect_failed env k e) (\<lambda>_. left env k (Inl connect_text)))"
  by (simp add: connect_failed_False [of _ _ _ "\<lambda>b. if b then queried env k else left env k (Inl connect_text)"])

lemma rest_Failing: "rest env k (Failing e) = obind monitor_exit (\<lambda>_. rest env k (FailReporting e))"
  by (simp add: caught_def finish_def obind_cases del: meth_simps)

lemma rest_FailReporting: "rest env k (FailReporting e) =
    obind (obind (log_host env ''Mount failure restarting host '' k APLOG_ERR) (\<lambda>_.
       LogServerError env (wL ''Mount failure exception restarting host; '' @ ae_ToString env e) APLOG_ERR 0))
       (\<lambda>_. oreturn (Some 500))"
  by (simp del: meth_simps)

lemma rest_FinEntering: "rest env k (FinEntering h) = obind monitor_enter (\<lambda>_. rest env k (FinReading h))"
  by (simp add: HostFinalized_def del: meth_simps)

lemma rest_FinReading: "rest env k (FinReading h) =
     obind (get_item f_hostObj k) (\<lambda>obj. if obj = Some h then rest env k FinClearing else rest env k FinLeaving)"
  by (simp add: obind_cases del: meth_simps cong: if_cong)

lemma rest_step:
  assumes "\<not> ended pc"
  shows "rest env k pc s = rest env k (fst (thread_step env k pc s)) (snd (thread_step env k pc s))"
proof (cases pc)
  case Reading
  show ?thesis unfolding Reading
    by (rule rest_act, rule thread_steps, unfold rest_HandleHostRequest first_obind, rule sel_cong)
      (simp_all split: option.split)
next
  case (Calling h)
  show ?thesis unfolding Calling
    by (rule rest_act, rule thread_steps, simp only: rest.simps(3) rest_Calling, rule sel_cong) simp_all
next
  case (Announcing p)
  show ?thesis unfolding Announcing
    by (rule rest_act, rule thread_steps, simp only: rest.simps(2) announced_def first_obind, rule sel_cong) simp_all
next
  case (Trying p)
  show ?thesis unfolding Trying
    by (rule rest_act, rule thread_steps, simp only: rest.simps restart_body_tried first_guarded, rule sel_cong)
      (simp_all add: tried_def)
next
  case Querying
  show ?thesis unfolding Querying
    by (rule rest_act, rule thread_steps, simp only: rest.simps queried_def first_guarded, rule sel_cong) simp_all
next
  case (Excusing h e)
  then show ?thesis by (simp add: excused_def first_attempted act_def sel_def split: prod.split sum.split)
next
  case (Entering p)
  show ?thesis unfolding Entering
    by (rule rest_act, rule thread_steps, simp only: rest.simps restart_guarded first_obind, rule sel_cong) (simp_all)
next
  case (Clearing p)
  show ?thesis unfolding Clearing
    by (rule rest_act, rule thread_steps, simp only: rest.simps first_guarded, rule sel_cong) (simp_all add: tried_def)
next
  case Creating
  show ?thesis unfolding Creating
    by (rule rest_act, rule thread_steps, simp only: rest_Creating first_connected, rule sel_cong) (simp_all)
next
  case (Storing p)
  show ?thesis unfolding Storing
    by (rule rest_act, rule thread_steps, simp only: rest.simps stored_def first_connected, rule sel_cong) (simp_all split: option.split)
next
  case (Configuring h)
  show ?thesis unfolding Configuring
    by (rule rest_act, rule thread_steps, simp only: rest_Configuring first_connected, rule sel_cong) (simp_all)
next
  case Unconnected
  show ?thesis unfolding Unconnected
    by (rule rest_act, rule thread_steps, simp only: rest_Unconnected first_connected, rule sel_cong) (simp_all)
next
  case (ConnectFailing e)
  show ?thesis unfolding ConnectFailing
    by (rule rest_act, rule thread_steps, simp only: rest_ConnectFailing first_guarded, rule sel_cong) (simp_all)
next
  case (Leaving r)
  show ?thesis unfolding Leaving
    by (rule rest_act, rule thread_steps, simp only: rest.simps left_def first_guarded, rule sel_cong) (simp_all split: sum.split)
next
  case (Reporting pre)
  show ?thesis unfolding Reporting
    by (rule rest_act, rule thread_steps, simp only: rest.simps reported_def first_guarded, rule sel_cong) (simp_all)
next
  case (Failing e)
  show ?thesis unfolding Failing
    by (rule rest_act, rule thread_steps, simp only: rest_Failing first_obind, rule sel_cong) (simp_all)
next
  case (FailReporting e)
  show ?thesis unfolding FailReporting
    by (rule rest_act, rule thread_steps, simp only: rest_FailReporting first_obind, rule sel_cong) (simp_all)
next
  case (Retrying p)
  show ?thesis unfolding Retrying
    by (rule rest_act, rule thread_steps, simp only: rest.simps first_obind, rule sel_cong) (simp_all)
next
  case (FinEntering h)
  show ?thesis unfolding FinEntering
    by (rule rest_act, rule thread_steps, simp only: rest_FinEntering first_obind, rule sel_cong) (simp_all)
next
  case (FinReading h)
  show ?thesis unfolding FinReading
    by (rule rest_act, rule thread_steps, simp only: rest_FinReading first_obind, rule sel_cong) (simp_all)
next
  case FinClearing
  show ?thesis unfolding FinClearing
    by (rule rest_act, rule thread_steps, simp only: rest.simps first_obind, rule sel_cong) (simp_all)
next
  case FinLeaving
  show ?thesis unfolding FinLeaving
    by (rule rest_act, rule thread_steps, simp only: rest.simps first_obind, rule sel_cong) (simp_all)
qed (use assms in \<open>simp add: ended_def\<close>)

lemma solo_rest: "fst (solo env k pc s) = Ended (fst (rest env k pc s)) \<and> snd (solo env k pc s) = snd (rest env k pc s)"
proof (induction env k pc s rule: solo.induct)
  case (1 env k pc s)
  show ?case
  proof (cases "ended pc")
    case True
    then show ?thesis by (cases pc) (simp_all add: ended_def solo.simps [of env k _ s])
  next
    case False
    with 1 show ?thesis by (simp add: solo.simps [of env k pc s] rest_step [OF False, of env k s])
  qed
qed

text \<open>With no other thread in between, the steps of a request come to an end and do what
  \<open>HandleHostRequest\<close> does, in every environment and from every state, exceptions included; those of a finalizer do
  what \<open>HostFinalized\<close> does.\<close>

theorem thread_alone:
  "solo env k Reading s =
     (case HandleHostRequest env id k s of
        (Inl e, s') \<Rightarrow> (Threw e, s') | (Inr st, s') \<Rightarrow> (Status st, s')) \<and>
   solo env k (FinEntering h) s =
     (case HostFinalized k h s of (Inl e, s') \<Rightarrow> (Threw e, s') | (Inr _, s') \<Rightarrow> (Ended (Inr None), s'))"
  using solo_rest [of env k Reading s] solo_rest [of env k "FinEntering h" s]
  by (auto simp: obind_def intro!: prod_eqI split: prod.split sum.split)

end
