(* ===== verification/Factory_Threads.thy ===== *)
theory Factory_Threads
  imports Factory_Steps
begin

text \<open>
  Several threads in the host factory: \<open>sys_step\<close> is one step of any thread,
  \<open>sys_run\<close> a run by the list of the threads that moved. The proofs are of the monitor, of
  the absence of deadlocks, and of what goes wrong between the threads. Mounts are added before
  the workers start, so \<open>CreateHost\<close> is not among the calls.
\<close>

section \<open>Several threads\<close>

text \<open>
  A thread has the key of its call, its place, and how often it holds the monitor. The threads
  share the factory, the world and the log; a thread moves on the shared state with
  \<open>f_locks\<close> set to its own count.
\<close>

record thread =
  th_key :: int
  th_pc :: pc
  th_held :: nat

record 'w system =
  sy_state :: "'w fstate"
  sy_threads :: "thread list"

definition with_locks :: "nat \<Rightarrow> 'w fstate \<Rightarrow> 'w fstate" where
  "with_locks n s = s\<lparr>fs_fac := (fs_fac s)\<lparr>f_locks := n\<rparr>\<rparr>"

text \<open>\<open>Monitor::Enter\<close> waits until no other thread holds the monitor; nothing else waits.\<close>

fun waits :: "pc \<Rightarrow> bool" where
  "waits (Entering p) = True"
| "waits (FinEntering h) = True"
| "waits _ = False"

definition others_out :: "thread list \<Rightarrow> nat \<Rightarrow> bool" where
  "others_out ths i \<longleftrightarrow> (\<forall>j<length ths. j \<noteq> i \<longrightarrow> th_held (ths ! j) = 0)"

definition can_move :: "thread list \<Rightarrow> nat \<Rightarrow> bool" where
  "can_move ths i \<longleftrightarrow> i < length ths \<and> \<not> ended (th_pc (ths ! i)) \<and> (waits (th_pc (ths ! i)) \<longrightarrow> others_out ths i)"

definition moved :: "'w app_env \<Rightarrow> nat \<Rightarrow> 'w system \<Rightarrow> 'w system" where
  "moved env i sy =
     (let t = sy_threads sy ! i;
          (pc', s') = thread_step env (th_key t) (th_pc t) (with_locks (th_held t) (sy_state sy))
      in \<lparr>sy_state = with_locks 0 s',
          sy_threads = (sy_threads sy)[i := t\<lparr>th_pc := pc', th_held := f_locks (fs_fac s')\<rparr>]\<rparr>)"

inductive sys_step :: "'w app_env \<Rightarrow> 'w system \<Rightarrow> nat \<Rightarrow> 'w system \<Rightarrow> bool" for env where
  move: "can_move (sy_threads sy) i \<Longrightarrow> sys_step env sy i (moved env i sy)"

inductive_cases sys_stepE: "sys_step env sy i sy'"

inductive sys_run :: "'w app_env \<Rightarrow> 'w system \<Rightarrow> nat list \<Rightarrow> 'w system \<Rightarrow> bool" for env where
  idle: "sys_run env sy [] sy"
| more: "sys_step env sy i sy' \<Longrightarrow> sys_run env sy' is sy'' \<Longrightarrow> sys_run env sy (i # is) sy''"

text \<open>The threads at the start: a request or the finalizer of a host, by key.\<close>

definition request :: "int \<Rightarrow> thread" where
  "request k = \<lparr>th_key = k, th_pc = Reading, th_held = 0\<rparr>"

definition finalizer :: "int \<Rightarrow> nat \<Rightarrow> thread" where
  "finalizer k h = \<lparr>th_key = k, th_pc = FinEntering h, th_held = 0\<rparr>"

definition starting :: "thread \<Rightarrow> bool" where
  "starting t \<longleftrightarrow> th_held t = 0 \<and> (th_pc t = Reading \<or> (\<exists>h. th_pc t = FinEntering h))"

subsection \<open>The invariant\<close>

text \<open>Where a thread is under the monitor.\<close>

fun inside :: "pc \<Rightarrow> bool" where
  "inside (Trying p) = True"
| "inside (Clearing p) = True"
| "inside Creating = True"
| "inside (Storing p) = True"
| "inside (Configuring h) = True"
| "inside Unconnected = True"
| "inside (ConnectFailing e) = True"
| "inside Querying = True"
| "inside (Leaving r) = True"
| "inside (Failing e) = True"
| "inside (FinReading h) = True"
| "inside FinClearing = True"
| "inside FinLeaving = True"
| "inside _ = False"

text \<open>
  What holds at each place: the host just connected is the one in the list, which the thread
  that holds the monitor alone may change, so that querying it finds a host; no call throws.
\<close>

fun place_ok :: "factory \<Rightarrow> int \<Rightarrow> pc \<Rightarrow> bool" where
  "place_ok f k (Configuring h) = (obj_at f k = Some h)"
| "place_ok f k Querying = (obj_at f k \<noteq> None)"
| "place_ok f k (Leaving r) = (r = Inl connect_text \<or> (\<exists>h. r = Inr (Some h)))"
| "place_ok f k (Reporting pre) = (pre = connect_text)"
| "place_ok f k (Retrying p) = (p \<noteq> None)"
| "place_ok f k (Failing e) = False"
| "place_ok f k (FailReporting e) = False"
| "place_ok f k (Ended (Inl e)) = False"
| "place_ok f k _ = True"

text \<open>Whether the call is a request.\<close>

fun requests :: "pc \<Rightarrow> bool" where
  "requests (FinEntering h) = False"
| "requests (FinReading h) = False"
| "requests FinClearing = False"
| "requests FinLeaving = False"
| "requests (Ended (Inr None)) = False"
| "requests _ = True"

definition locks :: "pc \<Rightarrow> nat" where
  "locks pc = (if inside pc then 1 else 0)"

text \<open>What a step of a thread with a valid key does to a live factory.\<close>

definition step_ok :: "factory \<Rightarrow> int \<Rightarrow> pc \<Rightarrow> 'w fstate \<Rightarrow> pc \<times> 'w fstate \<Rightarrow> bool" where
  "step_ok f k pc s r \<longleftrightarrow>
     kept f (locks (fst r)) (snd r) \<and> place_ok (fs_fac (snd r)) k (fst r) \<and> requests (fst r) = requests pc \<and>
     (inside pc \<or> f_hostObj (fs_fac (snd r)) = f_hostObj (fs_fac s))"

lemma act_Inr: "m s = (Inr x, s') \<Longrightarrow> act m threw next s = (next x, s')"
  and act_Inl: "m s = (Inl e, s') \<Longrightarrow> act m threw next s = (threw e, s')"
  by (simp_all add: act_def)

lemma act_in_world:
  "act (in_world m) threw next s =
     (case m (fs_world s) of (Inl e, w) \<Rightarrow> (threw e, s\<lparr>fs_world := w\<rparr>) | (Inr x, w) \<Rightarrow> (next x, s\<lparr>fs_world := w\<rparr>))"
  by (simp add: act_def in_world_def split: prod.split sum.split)

lemma keeps_fac:
  "keeps (\<lambda>s. P (fs_fac s)) (in_world m)" "keeps (\<lambda>s. P (fs_fac s)) (LogServerError env t lvl rv)"
proof -
  show "keeps (\<lambda>s. P (fs_fac s)) (in_world m)"
    by (auto simp: keeps_def in_world_def split: prod.splits)
  show "keeps (\<lambda>s. P (fs_fac s)) (LogServerError env t lvl rv)"
    unfolding LogServerError_def by (intro keeps_intros) simp
qed

lemma last_attempt_run:
  assumes "factory_wf f" "valid_key f k" "texts_ok env" "kept f n s"
  shows "\<exists>st s'. last_attempt env p s = (Inr st, s') \<and> kept f n s' \<and> fs_fac s' = fs_fac s"
proof -
  have "keeps (\<lambda>t. fs_fac t = fs_fac s) (last_attempt env p)"
    unfolding last_attempt_def by (intro keeps_intros keeps_fac)
  then have "fs_fac (snd (last_attempt env p s)) = fs_fac s" by (simp add: keeps_def)
  with last_attempt_ok [OF assms, of p] show ?thesis by (metis snd_conv)
qed

text \<open>The actions of a thread on a live factory: none of them throws.\<close>

definition live :: "factory \<Rightarrow> int \<Rightarrow> 'w app_env \<Rightarrow> bool" where
  "live f k env \<longleftrightarrow> factory_wf f \<and> valid_key f k \<and> texts_ok env"

lemma live_log:
  assumes "live f k env" "kept f n s" "m \<noteq> []"
  shows "LogServerError env m lvl rv s =
    (Inr (), s\<lparr>fs_log := fs_log s @ [LOG (log_word lvl rv) rv ''mod_aspdotnet: %s'']\<rparr>)"
  using assms kept_live(3) [OF assms(2), of k] by (intro LogServerError_ok) (simp_all add: live_def)

lemma live_log_host:
  assumes "live f k env" "kept f n s" "pre \<noteq> []"
  shows "log_host env pre k lvl s =
    (Inr (), s\<lparr>fs_log := fs_log s @ [LOG (log_word lvl 0) 0 ''mod_aspdotnet: %s'']\<rparr>)"
  using assms by (intro log_host_ok) (auto simp: live_def)

lemma live_items:
  assumes "live f k env" "kept f n s"
  shows "\<exists>u. get_item f_hostURI k s = (Inr u, s)" "\<exists>d. get_item f_hostDir k s = (Inr d, s)"
    "\<exists>v. get_item f_hostSvr k s = (Inr v, s)" "get_item f_hostObj k s = (Inr (obj_at (fs_fac s) k), s)"
    "set_hostObj k p s = (Inr (), put_obj k p s)" "obj_at (fs_fac (put_obj k p s)) k = p"
  using kept_live(1,2) [OF assms(2), of k] assms(1) get_item_ok [of s k] get_hostObj [of s k] set_hostObj_ok [of s k]
    obj_at_put_obj [of s k]
  by (simp_all add: live_def)

lemma step_ok_leaves:
  assumes "kept f 1 s"
  shows "place_ok (fs_fac s) k (Leaving r) \<Longrightarrow> step_ok f k (Leaving r) s (thread_step env k (Leaving r) s)"
    "step_ok f k FinLeaving s (thread_step env k FinLeaving s)"
  using assms monitor_exit_run [of f 0 s] kept_unlocked [of f 0 s]
  by (auto simp: step_ok_def act_Inr locks_def split: sum.split)

lemma step_ok_enters:
  assumes "kept f 0 s"
  shows "step_ok f k (Entering p) s (thread_step env k (Entering p) s)"
    "step_ok f k (FinEntering h) s (thread_step env k (FinEntering h) s)"
  using assms kept_locked [of f 0 s]
  by (auto simp: step_ok_def act_Inr [where m = monitor_enter, OF monitor_enter_run] locks_def locked_def)

lemma step_ok_reads:
  assumes "live f k env" "kept f n s"
  shows "n = 0 \<Longrightarrow> step_ok f k Reading s (thread_step env k Reading s)"
    "n = 1 \<Longrightarrow> step_ok f k (Trying p) s (thread_step env k (Trying p) s)"
    "n = 1 \<Longrightarrow> place_ok (fs_fac s) k Querying \<Longrightarrow> step_ok f k Querying s (thread_step env k Querying s)"
    "n = 1 \<Longrightarrow> step_ok f k (FinReading h) s (thread_step env k (FinReading h) s)"
  using assms(2) live_items(4) [OF assms]
  by (auto simp: step_ok_def act_Inr locks_def split: option.split)

lemma step_ok_writes:
  assumes "live f k env" "kept f 1 s"
  shows "step_ok f k (Clearing p) s (thread_step env k (Clearing p) s)"
    "step_ok f k (Storing p) s (thread_step env k (Storing p) s)"
    "step_ok f k FinClearing s (thread_step env k FinClearing s)"
  using kept_put_obj [OF assms(2), of k] live_items(5,6) [OF assms]
  by (auto simp: step_ok_def act_Inr otry_Inr locks_def split: option.split)

lemma step_ok_calls:
  assumes "live f k env" "kept f n s"
  shows "n = 0 \<Longrightarrow> step_ok f k (Calling h) s (thread_step env k (Calling h) s)"
    "n = 0 \<Longrightarrow> step_ok f k (Retrying p) s (thread_step env k (Retrying p) s)"
    "n = 1 \<Longrightarrow> step_ok f k Creating s (thread_step env k Creating s)"
    "n = 1 \<Longrightarrow> place_ok (fs_fac s) k (Configuring h) \<Longrightarrow>
       step_ok f k (Configuring h) s (thread_step env k (Configuring h) s)"
proof -
  obtain u d v where it: "get_item f_hostURI k s = (Inr u, s)" "get_item f_hostDir k s = (Inr d, s)"
    using live_items(1,2) [OF assms] by blast
  show "step_ok f k (Calling h) s (thread_step env k (Calling h) s)" if "n = 0"
    using assms(2) that by (auto simp: step_ok_def act_in_world locks_def split: prod.split sum.split)
  show "step_ok f k (Retrying p) s (thread_step env k (Retrying p) s)" if "n = 0"
  proof -
    obtain st s' where "last_attempt env p s = (Inr st, s')" "kept f n s'" "fs_fac s' = fs_fac s"
      using last_attempt_run assms by (fastforce simp: live_def)
    with that show ?thesis by (simp add: step_ok_def act_Inr locks_def)
  qed
  show "step_ok f k Creating s (thread_step env k Creating s)" if "n = 1"
    using it assms(2) that
    by (auto simp: step_ok_def act_def obind_def in_world_def locks_def split: prod.split sum.split)
  show "step_ok f k (Configuring h) s (thread_step env k (Configuring h) s)"
    if "n = 1" "place_ok (fs_fac s) k (Configuring h)"
    using it assms(2) that
    by (auto simp: step_ok_def act_def obind_def in_world_def locks_def split: prod.split sum.split)
qed

lemma step_ok_logs:
  assumes "live f k env" "kept f n s"
  shows "n = 0 \<Longrightarrow> step_ok f k (Announcing p) s (thread_step env k (Announcing p) s)"
    "n = 0 \<Longrightarrow> step_ok f k (Excusing h e) s (thread_step env k (Excusing h e) s)"
    "n = 0 \<Longrightarrow> place_ok (fs_fac s) k (Reporting pre) \<Longrightarrow> step_ok f k (Reporting pre) s (thread_step env k (Reporting pre) s)"
    "n = 1 \<Longrightarrow> step_ok f k Unconnected s (thread_step env k Unconnected s)"
    "n = 1 \<Longrightarrow> step_ok f k (ConnectFailing e) s (thread_step env k (ConnectFailing e) s)"
proof -
  obtain v where it: "get_item f_hostSvr k s = (Inr v, s)"
    using live_items(3) [OF assms] by blast
  show "step_ok f k (Announcing p) s (thread_step env k (Announcing p) s)" if "n = 0"
    using assms(2) live_log_host [OF assms] that by (simp add: step_ok_def act_Inr locks_def)
  show "step_ok f k (Excusing h e) s (thread_step env k (Excusing h e) s)" if "n = 0"
    using assms(2) live_log [OF assms] that by (simp add: step_ok_def act_Inr locks_def)
  show "step_ok f k (Reporting pre) s (thread_step env k (Reporting pre) s)"
    if "n = 0" "place_ok (fs_fac s) k (Reporting pre)"
    using assms(2) live_log_host [OF assms] that by (simp add: step_ok_def act_Inr locks_def)
  show "step_ok f k Unconnected s (thread_step env k Unconnected s)" if "n = 1"
    using it assms(2) live_log [OF assms] that by (simp add: step_ok_def act_Inr obind_Inr locks_def)
  show "step_ok f k (ConnectFailing e) s (thread_step env k (ConnectFailing e) s)" if "n = 1"
  proof -
    obtain s' where "connect_failed env k e s = (Inr False, s')" "kept f n s'"
      using connect_failed_ok assms by (fastforce simp: live_def)
    with that show ?thesis by (simp add: step_ok_def act_def locks_def)
  qed
qed

lemma thread_step_ok:
  assumes "live f k env" "kept f (locks pc) s" "place_ok (fs_fac s) k pc" "\<not> ended pc"
  shows "step_ok f k pc s (thread_step env k pc s)"
proof -
  have n: "kept f (if inside pc then 1 else 0) s" using assms(2) by (simp add: locks_def)
  note steps = step_ok_leaves step_ok_enters step_ok_reads [OF assms(1)] step_ok_writes [OF assms(1)]
    step_ok_calls [OF assms(1)] step_ok_logs [OF assms(1)]
  show ?thesis
    using n assms(3,4) by (cases pc) (simp_all add: steps ended_def del: thread_steps)
qed

subsection \<open>Every run keeps it\<close>

definition sys_ok :: "factory \<Rightarrow> thread list \<Rightarrow> 'w system \<Rightarrow> bool" where
  "sys_ok f ts sy \<longleftrightarrow>
     same_mounts f (fs_fac (sy_state sy)) \<and> map th_key (sy_threads sy) = map th_key ts \<and>
     map (requests \<circ> th_pc) (sy_threads sy) = map (requests \<circ> th_pc) ts \<and>
     (\<forall>t\<in>set (sy_threads sy). th_held t = locks (th_pc t) \<and> place_ok (fs_fac (sy_state sy)) (th_key t) (th_pc t)) \<and>
     (\<forall>i<length (sy_threads sy). \<forall>j<length (sy_threads sy).
        inside (th_pc (sy_threads sy ! i)) \<longrightarrow> inside (th_pc (sy_threads sy ! j)) \<longrightarrow> i = j)"

lemma place_ok_outside: "\<not> inside pc \<Longrightarrow> place_ok f k pc = place_ok f' k pc"
  by (cases "(f, k, pc)" rule: place_ok.cases) simp_all

lemma place_ok_obj: "f_hostObj f = f_hostObj f' \<Longrightarrow> place_ok f k pc = place_ok f' k pc"
  by (cases "(f, k, pc)" rule: place_ok.cases) (simp_all add: obj_at_def)

lemma entered_waited:
  "inside (fst (thread_step env k pc s)) \<Longrightarrow> place_ok f k (fst (thread_step env k pc s)) \<Longrightarrow> \<not> inside pc \<Longrightarrow>
   waits pc"
  by (cases pc) (auto simp: act_def split: prod.splits sum.splits option.splits if_splits)

lemma place_ok_locks [simp]: "place_ok (g\<lparr>f_locks := n\<rparr>) k pc = place_ok g k pc"
  by (rule place_ok_obj) simp

lemma kept_with_locks: "same_mounts f (fs_fac s) \<Longrightarrow> kept f n (with_locks n s)"
  by (simp add: kept_def with_locks_def same_mounts_def)

lemma same_mounts_locks: "kept f n s \<Longrightarrow> same_mounts f (fs_fac (with_locks m s))"
  by (simp add: kept_def with_locks_def same_mounts_def)

lemma step_sys_ok:
  assumes ok: "sys_ok f ts sy" and live: "\<forall>t\<in>set ts. live f (th_key t) env" and mv: "can_move (sy_threads sy) i"
  shows "sys_ok f ts (moved env i sy)"
proof -
  define ths where "ths = sy_threads sy"
  define t where "t = ths ! i"
  define s where "s = with_locks (th_held t) (sy_state sy)"
  obtain pc' s' where r: "thread_step env (th_key t) (th_pc t) s = (pc', s')" by fastforce
  have i: "i < length ths" "\<not> ended (th_pc t)" "waits (th_pc t) \<Longrightarrow> others_out ths i"
    using mv by (simp_all add: can_move_def ths_def t_def)
  have t: "t \<in> set ths" using i(1) by (simp add: t_def)
  have sm: "same_mounts f (fs_fac (sy_state sy))"
    and keys: "map th_key ths = map th_key ts"
    and reqs: "map (requests \<circ> th_pc) ths = map (requests \<circ> th_pc) ts"
    and each: "\<And>u. u \<in> set ths \<Longrightarrow> th_held u = locks (th_pc u) \<and> place_ok (fs_fac (sy_state sy)) (th_key u) (th_pc u)"
    and excl: "\<And>a b. a < length ths \<Longrightarrow> b < length ths \<Longrightarrow> inside (th_pc (ths ! a)) \<Longrightarrow> inside (th_pc (ths ! b)) \<Longrightarrow> a = b"
    using ok by (auto simp: sys_ok_def ths_def)
  have "th_key t \<in> set (map th_key ts)" using t by (simp flip: keys)
  then have lv: "live f (th_key t) env" using live by auto
  have k0: "kept f (locks (th_pc t)) s" using kept_with_locks [OF sm] each [OF t] by (simp add: s_def)
  have p0: "place_ok (fs_fac s) (th_key t) (th_pc t)" using each [OF t] by (simp add: s_def with_locks_def)
  have st: "kept f (locks pc') s'" "place_ok (fs_fac s') (th_key t) pc'" "requests pc' = requests (th_pc t)"
    "inside (th_pc t) \<or> f_hostObj (fs_fac s') = f_hostObj (fs_fac (sy_state sy))"
    using thread_step_ok [OF lv k0 p0 i(2)] r by (auto simp: step_ok_def s_def with_locks_def)
  have other: "place_ok (fs_fac s') (th_key (ths ! j)) (th_pc (ths ! j))" if j: "j < length ths" "j \<noteq> i" for j
  proof (cases "inside (th_pc t)")
    case True
    then have "\<not> inside (th_pc (ths ! j))" using excl [of i j] i(1) j by (auto simp: t_def)
    then show ?thesis using each [of "ths ! j"] j place_ok_outside by (metis nth_mem)
  next
    case False
    then show ?thesis using st(4) each [of "ths ! j"] j place_ok_obj by (metis nth_mem)
  qed
  have alone: "j = i" if j: "j < length ths" "inside (th_pc (ths ! j))" and pc': "inside pc'" for j
  proof (rule ccontr)
    assume "j \<noteq> i"
    moreover from this have "\<not> inside (th_pc t)" using excl [of i j] i(1) j by (auto simp: t_def)
    then have "others_out ths i" using entered_waited st(2) r pc' i(3) by (metis fst_conv)
    ultimately have "th_held (ths ! j) = 0" using j by (simp add: others_out_def)
    then show False using each [of "ths ! j"] j by (simp add: locks_def)
  qed
  define ths' where "ths' = ths[i := t\<lparr>th_pc := pc', th_held := f_locks (fs_fac s')\<rparr>]"
  have sy': "moved env i sy = \<lparr>sy_state = with_locks 0 s', sy_threads = ths'\<rparr>"
    using r by (simp add: moved_def Let_def ths'_def ths_def t_def s_def)
  have at: "ths' ! j = (if j = i then t\<lparr>th_pc := pc', th_held := locks pc'\<rparr> else ths ! j)" if "j < length ths" for j
    using that st(1) by (simp add: ths'_def kept_def)
  have len: "length ths' = length ths" by (simp add: ths'_def)
  have "map th_key ths' = map th_key ts" "map (requests \<circ> th_pc) ths' = map (requests \<circ> th_pc) ts"
    unfolding keys [symmetric] reqs [symmetric] using st(3) i(1)
    by (auto intro!: nth_equalityI simp: len at t_def split: if_splits)
  moreover have "th_held u = locks (th_pc u) \<and> place_ok (fs_fac s') (th_key u) (th_pc u)" if u: "u \<in> set ths'" for u
  proof -
    obtain j where j: "j < length ths" "u = ths' ! j" using u by (metis in_set_conv_nth len)
    then show ?thesis using each [OF nth_mem [OF j(1)]] other [OF j(1)] st(2) by (cases "j = i") (simp_all add: at)
  qed
  moreover have "a = b" if ab: "a < length ths'" "b < length ths'" "inside (th_pc (ths' ! a))" "inside (th_pc (ths' ! b))" for a b
  proof -
    have "a < length ths" "b < length ths" using ab(1,2) len by simp_all
    moreover have old: "inside (th_pc (ths ! j))" if "j < length ths" "inside (th_pc (ths' ! j))" "j \<noteq> i" for j
      using at [OF that(1)] that(2,3) by simp
    moreover have new: "j = i" if "j < length ths" "inside (th_pc (ths' ! j))" "inside pc'" for j
      using alone [OF that(1) old that(3)] that(1,2) by blast
    moreover have "inside pc'" if "inside (th_pc (ths' ! i))" using at [OF i(1)] that by simp
    ultimately show ?thesis using ab(3,4) excl by metis
  qed
  ultimately show ?thesis
    using same_mounts_locks [OF st(1)] by (simp add: sys_ok_def sy' with_locks_def)
qed

lemma run_sys_ok:
  "sys_run env sy is sy' \<Longrightarrow> sys_ok f ts sy \<Longrightarrow> \<forall>t\<in>set ts. live f (th_key t) env \<Longrightarrow> sys_ok f ts sy'"
proof (induction rule: sys_run.induct)
  case (more sy i sy' "is" sy'')
  then show ?case using step_sys_ok by (metis sys_stepE)
qed

definition steps_left :: "'w system \<Rightarrow> nat" where
  "steps_left sy = sum_list (map (rank \<circ> th_pc) (sy_threads sy))"

lemma sum_list_less: "i < length xs \<Longrightarrow> y < xs ! i \<Longrightarrow> sum_list (xs[i := y]) < sum_list (xs :: nat list)"
proof (induction xs arbitrary: i)
  case (Cons x xs)
  then show ?case by (cases i) auto
qed simp

lemma step_steps_left: "can_move (sy_threads sy) i \<Longrightarrow> steps_left (moved env i sy) < steps_left sy"
proof -
  assume mv: "can_move (sy_threads sy) i"
  define t where "t = sy_threads sy ! i"
  define s where "s = with_locks (th_held t) (sy_state sy)"
  have i: "i < length (sy_threads sy)" "\<not> ended (th_pc t)" using mv by (simp_all add: can_move_def t_def)
  have less: "rank (fst (thread_step env (th_key t) (th_pc t) s)) < rank (th_pc t)"
    by (rule thread_step_rank [OF i(2)])
  show ?thesis
    using sum_list_less [of i "map (rank \<circ> th_pc) (sy_threads sy)"] i(1) less
    by (simp add: steps_left_def moved_def Let_def t_def [symmetric] s_def [symmetric] map_update split_beta)
qed

lemma run_steps: "sys_run env sy is sy' \<Longrightarrow> length is + steps_left sy' \<le> steps_left sy"
proof (induction rule: sys_run.induct)
  case (more sy i sy' "is" sy'')
  then show ?case using step_steps_left [of sy i env] by (auto elim!: sys_stepE)
qed simp

section \<open>Properties\<close>

lemma start_sys_ok:
  assumes "\<forall>t\<in>set (sy_threads sy). starting t"
  shows "sys_ok (fs_fac (sy_state sy)) (sy_threads sy) sy"
proof -
  have "\<not> inside (th_pc t)" "locks (th_pc t) = 0" "place_ok f k (th_pc t)" if "starting t" for t f k
    using that by (auto simp: starting_def locks_def)
  then show ?thesis using assms by (auto simp: sys_ok_def starting_def)
qed

definition live_start :: "'w app_env \<Rightarrow> 'w system \<Rightarrow> bool" where
  "live_start env sy \<longleftrightarrow> factory_wf (fs_fac (sy_state sy)) \<and> texts_ok env \<and>
     (\<forall>t\<in>set (sy_threads sy). starting t \<and> valid_key (fs_fac (sy_state sy)) (th_key t))"

lemma live_start_run:
  assumes "live_start env sy" "sys_run env sy is sy'"
  shows "sys_ok (fs_fac (sy_state sy)) (sy_threads sy) sy'"
  using assms run_sys_ok [OF assms(2) start_sys_ok] by (auto simp: live_start_def live_def)

text \<open>Some thread can move, unless all have ended.\<close>

lemma no_deadlock:
  assumes ok: "sys_ok f ts sy" and t: "t \<in> set (sy_threads sy)" "\<not> ended (th_pc t)"
  shows "\<exists>i. can_move (sy_threads sy) i"
proof (cases "\<exists>j<length (sy_threads sy). inside (th_pc (sy_threads sy ! j))")
  case True
  then obtain j where j: "j < length (sy_threads sy)" "inside (th_pc (sy_threads sy ! j))" by blast
  then have "\<not> ended (th_pc (sy_threads sy ! j))" "\<not> waits (th_pc (sy_threads sy ! j))"
    by (cases "th_pc (sy_threads sy ! j)"; simp add: ended_def)+
  with j(1) show ?thesis by (auto simp: can_move_def)
next
  case False
  have each: "\<And>u. u \<in> set (sy_threads sy) \<Longrightarrow> th_held u = locks (th_pc u)" using ok by (auto simp: sys_ok_def)
  have "th_held (sy_threads sy ! j) = 0" if "j < length (sy_threads sy)" for j
    using False that each [OF nth_mem [OF that]] by (auto simp: locks_def)
  then have "others_out (sy_threads sy) i" for i by (simp add: others_out_def)
  with t show ?thesis by (auto simp: can_move_def in_set_conv_nth)
qed

subsection \<open>Runs of one thread among the others\<close>

primrec thread_run :: "'w app_env \<Rightarrow> int \<Rightarrow> nat \<Rightarrow> pc \<times> 'w fstate \<Rightarrow> pc \<times> 'w fstate" where
  "thread_run env k 0 x = x"
| "thread_run env k (Suc n) x = thread_run env k n (thread_step env k (fst x) (snd x))"

lemma thread_run_add: "thread_run env k (m + n) x = thread_run env k n (thread_run env k m x)"
  by (induction m arbitrary: x) simp_all

lemma thread_run_ended: "ended (fst x) \<Longrightarrow> thread_run env k n x = x"
proof (induction n)
  case (Suc n)
  then show ?case by (cases x; cases "fst x") (auto simp: ended_def)
qed simp

definition placed :: "nat \<Rightarrow> pc \<times> 'w fstate \<Rightarrow> 'w system \<Rightarrow> 'w system" where
  "placed i x sy = \<lparr>sy_state = with_locks 0 (snd x),
     sy_threads = (sy_threads sy)[i := (sy_threads sy ! i)\<lparr>th_pc := fst x, th_held := f_locks (fs_fac (snd x))\<rparr>]\<rparr>"

lemma moved_placed:
  "moved env i sy = placed i (thread_step env (th_key (sy_threads sy ! i)) (th_pc (sy_threads sy ! i))
     (with_locks (th_held (sy_threads sy ! i)) (sy_state sy))) sy"
  by (simp add: moved_def placed_def Let_def split_beta)

lemma with_locks_simps [simp]:
  "with_locks n (with_locks m s) = with_locks n s" "with_locks (f_locks (fs_fac s)) s = s"
  "fs_world (with_locks n s) = fs_world s" "obj_at (fs_fac (with_locks n s)) k = obj_at (fs_fac s) k"
  by (simp_all add: with_locks_def obj_at_def)

lemma kept_locks_same: "kept f n s \<Longrightarrow> with_locks n s = s"
  by (simp add: kept_def with_locks_def)

lemma placed_placed: "i < length (sy_threads sy) \<Longrightarrow> placed i x (placed i y sy) = placed i x sy"
  by (simp add: placed_def)

text \<open>While no other thread holds the monitor, a thread may run on.\<close>

lemma alone_run:
  assumes "0 < n" "i < length (sy_threads sy)" "others_out (sy_threads sy) i"
    "\<not> ended (fst (thread_run env (th_key (sy_threads sy ! i)) n
        (th_pc (sy_threads sy ! i), with_locks (th_held (sy_threads sy ! i)) (sy_state sy))))"
  shows "\<exists>is. sys_run env sy is (placed i (thread_run env (th_key (sy_threads sy ! i)) n
        (th_pc (sy_threads sy ! i), with_locks (th_held (sy_threads sy ! i)) (sy_state sy))) sy)"
  using assms
proof (induction n arbitrary: sy)
  case (Suc n)
  define x where "x = (th_pc (sy_threads sy ! i), with_locks (th_held (sy_threads sy ! i)) (sy_state sy))"
  define k where "k = th_key (sy_threads sy ! i)"
  define y where "y = thread_step env k (fst x) (snd x)"
  have "\<not> ended (fst x)" using thread_run_ended [of x env k "Suc n"] Suc.prems(4) by (auto simp: x_def k_def)
  then have step: "sys_step env sy i (placed i y sy)"
    using sys_step.move [of sy i env] Suc.prems(2,3) by (simp add: moved_placed can_move_def x_def y_def k_def)
  have again: "th_key (sy_threads (placed i y sy) ! i) = k" "length (sy_threads (placed i y sy)) = length (sy_threads sy)"
      "(th_pc (sy_threads (placed i y sy) ! i),
        with_locks (th_held (sy_threads (placed i y sy) ! i)) (sy_state (placed i y sy))) = y"
      "others_out (sy_threads (placed i y sy)) i"
    using Suc.prems(2,3) by (auto simp: placed_def k_def others_out_def)
  have run: "thread_run env k (Suc n) x = thread_run env k n y" by (simp add: y_def)
  show ?case
  proof (cases "n = 0")
    case True
    then show ?thesis
      using sys_run.more [OF step sys_run.idle] run by (auto simp: x_def k_def)
  next
    case False
    then obtain "is" where "sys_run env (placed i y sy) is (placed i (thread_run env k n y) (placed i y sy))"
      using Suc.IH [of "placed i y sy"] again Suc.prems run by (auto simp: x_def k_def)
    then show ?thesis
      using sys_run.more [OF step] run placed_placed [OF Suc.prems(2)] by (metis k_def x_def)
  qed
qed simp

lemma sys_run_append: "sys_run env sy is sy' \<Longrightarrow> sys_run env sy' js sy'' \<Longrightarrow> sys_run env sy (is @ js) sy''"
  by (induction rule: sys_run.induct) (auto intro: sys_run.intros)

subsection \<open>Connecting a host, step by step\<close>

text \<open>The creation of the application domain and the storing of the host, in the world it finds.\<close>

lemma storing_run:
  assumes live: "live f k env" and s: "kept f 1 s" and e: "factory_entry f k = Some (u, d)"
    and create: "ae_CreateApplicationHost env u d (fs_world s) = (Inr (Some h), w1)"
  shows "\<exists>s'. thread_run env k 2 (Creating, s) = (Configuring h, s') \<and> kept f 1 s' \<and>
    obj_at (fs_fac s') k = Some h \<and> fs_world s' = w1"
proof -
  define s1 where "s1 = s\<lparr>fs_world := w1\<rparr>"
  have k1: "kept f 1 s1" using s by (simp add: s1_def)
  have "factory_entry (fs_fac s) k = Some (u, d)" using s e same_mounts_entry [of f "fs_fac s" k] by (simp add: kept_def)
  then have "thread_step env k Creating s = (Storing (Some h), s1)"
    using entry_items [of s k u d] create by (simp add: act_def obind_def in_world_def s1_def)
  moreover have "thread_step env k (Storing (Some h)) s1 = (Configuring h, put_obj k (Some h) s1)"
    using live_items(5) [OF live k1] by (simp add: act_def)
  ultimately show ?thesis
    using kept_put_obj [OF k1] live_items(6) [OF live k1] by (simp add: numeral_2_eq_2 s1_def)
qed

lemma querying_run:
  assumes live: "live f k env" and s: "kept f 1 s" "obj_at (fs_fac s) k = Some h" and e: "factory_entry f k = Some (u, d)"
    and conf: "ae_Configure env h u d k (f_module_index f) (fs_world s) = (Inr (), w2)"
  shows "\<exists>s'. thread_run env k 3 (Configuring h, s) = (Retrying (Some h), s') \<and> kept f 0 s' \<and>
    obj_at (fs_fac s') k = Some h \<and> fs_world s' = w2"
proof -
  define s1 where "s1 = s\<lparr>fs_world := w2\<rparr>"
  have k1: "kept f 1 s1" using s(1) by (simp add: s1_def)
  have "factory_entry (fs_fac s) k = Some (u, d)" "f_module_index (fs_fac s) = f_module_index f"
    using s e same_mounts_entry [of f "fs_fac s" k] by (simp_all add: kept_def same_mounts_def)
  then have "thread_step env k (Configuring h) s = (Querying, s1)"
    using entry_items [of s k u d] conf by (simp add: act_def obind_def in_world_def s1_def)
  moreover have "thread_step env k Querying s1 = (Leaving (Inr (Some h)), s1)"
    using live_items(4) [OF live k1] s(2) by (simp add: act_def s1_def)
  moreover have "thread_step env k (Leaving (Inr (Some h))) s1 = (Retrying (Some h), unlocked s1)"
    using monitor_exit_run [of f 0 s1] k1 by (simp add: act_def)
  ultimately show ?thesis
    using kept_unlocked [of f 0 s1] k1 s(2) by (simp add: numeral_3_eq_3 s1_def unlocked_def obj_at_def)
qed

lemma announcing_run:
  assumes live: "live f k env" and s: "kept f 0 s" "obj_at (fs_fac s) k = None"
  shows "\<exists>s'. thread_run env k 2 (Reading, s) = (Entering None, s') \<and> kept f 0 s' \<and>
    fs_fac s' = fs_fac s \<and> fs_world s' = fs_world s"
  using live_items(4) [OF live s(1)] s live_log_host [OF live s(1), of "''Restarting host of ''"]
  by (simp add: numeral_2_eq_2 act_def)

text \<open>Under the monitor a thread without an object comes to create one, whatever the list has.\<close>

lemma entering_run:
  assumes live: "live f k env" and s: "kept f 0 s"
  shows "\<exists>n s'. thread_run env k n (Entering None, s) = (Creating, s') \<and> kept f 1 s' \<and> fs_world s' = fs_world s"
proof -
  have k1: "kept f 1 (locked s)" using kept_locked [OF s] by simp
  have e: "thread_step env k (Entering None) s = (Trying None, locked s)"
    by (simp add: act_def monitor_enter_run)
  have w: "fs_world (locked s) = fs_world s" by (simp add: locked_def)
  show ?thesis
  proof (cases "obj_at (fs_fac s) k = None")
    case True
    then have "thread_step env k (Trying None) (locked s) = (Clearing None, locked s)"
      using live_items(4) [OF live k1] by (simp add: act_def)
    moreover have "thread_step env k (Clearing None) (locked s) = (Creating, put_obj k None (locked s))"
      using live_items(5) [OF live k1] by (simp add: act_def otry_def)
    ultimately have "thread_run env k 3 (Entering None, s) = (Creating, put_obj k None (locked s))"
      using e by (simp add: numeral_3_eq_3)
    then show ?thesis using kept_put_obj [OF k1] w by (metis put_obj_simps(1))
  next
    case False
    then have "thread_step env k (Trying None) (locked s) = (Creating, locked s)"
      using live_items(4) [OF live k1] by (simp add: act_def)
    then have "thread_run env k 2 (Entering None, s) = (Creating, locked s)"
      using e by (simp add: numeral_2_eq_2)
    then show ?thesis using k1 w by metis
  qed
qed

lemma connecting_run:
  assumes live: "live f k env" and s: "kept f 0 s" and e: "factory_entry f k = Some (u, d)"
    and create: "ae_CreateApplicationHost env u d (fs_world s) = (Inr (Some h), w1)"
    and conf: "ae_Configure env h u d k (f_module_index f) w1 = (Inr (), w2)"
  shows "\<exists>n s'. thread_run env k n (Entering None, s) = (Retrying (Some h), s') \<and> kept f 0 s' \<and>
    obj_at (fs_fac s') k = Some h \<and> fs_world s' = w2"
proof -
  obtain n s1 where 1: "thread_run env k n (Entering None, s) = (Creating, s1)" "kept f 1 s1" "fs_world s1 = fs_world s"
    using entering_run [OF live s] by blast
  obtain s2 where 2: "thread_run env k 2 (Creating, s1) = (Configuring h, s2)" "kept f 1 s2"
      "obj_at (fs_fac s2) k = Some h" "fs_world s2 = w1"
    using storing_run [OF live 1(2) e] create 1(3) by auto
  obtain s3 where 3: "thread_run env k 3 (Configuring h, s2) = (Retrying (Some h), s3)" "kept f 0 s3"
      "obj_at (fs_fac s3) k = Some h" "fs_world s3 = w2"
    using querying_run [OF live 2(2,3) e] conf 2(4) by auto
  have "thread_run env k (n + (2 + 3)) (Entering None, s) = (Retrying (Some h), s3)"
    unfolding thread_run_add 1(1) 2(1) by (rule 3(1))
  with 3 show ?thesis by blast
qed

text \<open>A turn of one thread in a system where no thread holds the monitor.\<close>

lemma turn:
  assumes "i < length ts" "\<forall>t\<in>set ts. th_held t = 0" "ts ! i = \<lparr>th_key = k, th_pc = p, th_held = 0\<rparr>" "kept f 0 s"
    "thread_run env k n (p, s) = (q, s')" "0 < n" "\<not> ended q"
  shows "\<exists>is. sys_run env \<lparr>sy_state = s, sy_threads = ts\<rparr> is
    \<lparr>sy_state = with_locks 0 s', sy_threads = ts[i := \<lparr>th_key = k, th_pc = q, th_held = f_locks (fs_fac s')\<rparr>]\<rparr>"
  using alone_run [of n i "\<lparr>sy_state = s, sy_threads = ts\<rparr>" env] assms
  by (simp add: others_out_def placed_def kept_locks_same)

text \<open>A schedule as a program, for the concrete instances.\<close>

fun play :: "'w app_env \<Rightarrow> nat list \<Rightarrow> 'w system \<Rightarrow> 'w system option" where
  "play env [] sy = Some sy"
| "play env (i # is) sy = (if can_move (sy_threads sy) i then play env is (moved env i sy) else None)"

lemma play_run: "play env is sy = Some sy' \<Longrightarrow> sys_run env sy is sy'"
  by (induction env "is" sy rule: play.induct) (auto intro: sys_run.intros sys_step.intros split: if_splits)

definition sample_system :: "ptr \<Rightarrow> nat \<Rightarrow> nat system" where
  "sample_system p w = \<lparr>sy_state = sample_state p w, sy_threads = [request 0, request 0, finalizer 0 1]\<rparr>"

text \<open>The finalizer of a host runs between two requests that have read the list before.\<close>

definition sample_end :: "nat system" where
  "sample_end = \<lparr>sy_state = sample_state None 1, sy_threads = [(request 0)\<lparr>th_pc := Status 200\<rparr>,
     (request 0)\<lparr>th_pc := Status 200\<rparr>, (finalizer 0 1)\<lparr>th_pc := Ended (Inr None)\<rparr>]\<rparr>"

lemma sample_play: "play sample_env [2, 0, 2, 1, 2, 0, 2, 1] (sample_system (Some 1) 1) = Some sample_end"
  by code_simp

lemma sample_live_start: "live_start sample_env (sample_system (Some 1) 1)"
  by (simp add: live_start_def sample_system_def starting_def request_def finalizer_def)

text \<open>C17: two requests that both find no host of a mount connect one each: although the second
  waits for the monitor, and by then the list has the first one's host, it creates another
  application domain, which takes the first one's place in the list.\<close>

theorem restart_race:
  assumes "factory_wf (fs_fac s)" "valid_key (fs_fac s) k" "texts_ok env" "f_locks (fs_fac s) = 0"
    "obj_at (fs_fac s) k = None" "factory_entry (fs_fac s) k = Some (u, d)"
    "ae_CreateApplicationHost env u d (fs_world s) = (Inr (Some h1), w1)"
    "ae_Configure env h1 u d k (f_module_index (fs_fac s)) w1 = (Inr (), w2)"
    "ae_CreateApplicationHost env u d w2 = (Inr (Some h2), w3)"
    "ae_Configure env h2 u d k (f_module_index (fs_fac s)) w3 = (Inr (), w4)"
  shows "\<exists>is sy'. sys_run env \<lparr>sy_state = s, sy_threads = [request k, request k]\<rparr> is sy' \<and>
    map th_pc (sy_threads sy') = [Retrying (Some h1), Retrying (Some h2)] \<and>
    obj_at (fs_fac (sy_state sy')) k = Some h2 \<and> fs_world (sy_state sy') = w4"
proof -
  define f where "f = fs_fac s"
  define T where "T = (\<lambda>p. \<lparr>th_key = k, th_pc = p, th_held = 0\<rparr>)"
  have lv: "live f k env" and k0: "kept f 0 s" using assms(1-4) by (simp_all add: live_def f_def kept_def)
  have entry: "factory_entry f k = Some (u, d)" using assms(6) by (simp add: f_def)
  obtain s1 where 1: "thread_run env k 2 (Reading, s) = (Entering None, s1)" "kept f 0 s1" "fs_fac s1 = fs_fac s"
      "fs_world s1 = fs_world s"
    using announcing_run [OF lv k0 assms(5)] by blast
  obtain s2 where 2: "thread_run env k 2 (Reading, s1) = (Entering None, s2)" "kept f 0 s2" "fs_world s2 = fs_world s"
    using announcing_run [OF lv 1(2)] assms(5) 1(3,4) by auto
  obtain n3 s3 where 3: "thread_run env k n3 (Entering None, s2) = (Retrying (Some h1), s3)" "kept f 0 s3" "fs_world s3 = w2"
    using connecting_run [OF lv 2(2) entry, of h1 w1 w2] assms(7,8) 2(3) by (auto simp: f_def)
  obtain n4 s4 where 4: "thread_run env k n4 (Entering None, s3) = (Retrying (Some h2), s4)" "kept f 0 s4"
      "obj_at (fs_fac s4) k = Some h2" "fs_world s4 = w4"
    using connecting_run [OF lv 3(2) entry, of h2 w3 w4] assms(9,10) 3(3) by (auto simp: f_def)
  have n: "0 < m" if "thread_run env k m (Entering None, t) = (Retrying p, t')" for m t p t'
    using that by (cases m) simp_all
  note pos = n [OF 3(1)] n [OF 4(1)]
  have locks: "with_locks 0 t = t" "f_locks (fs_fac t) = 0" if "kept f 0 t" for t :: "'a fstate"
    using kept_locks_same [OF that] that by (simp_all add: kept_def)
  have go: "\<exists>is. sys_run env \<lparr>sy_state = t, sy_threads = ts\<rparr> is \<lparr>sy_state = t', sy_threads = ts[i := T q]\<rparr>"
    if "i < length ts" "\<forall>t\<in>set ts. th_held t = 0" "ts ! i = T p" "kept f 0 t" "thread_run env k n (p, t) = (q, t')"
      "kept f 0 t'" "0 < n" "\<not> ended q" for i ts p t n q t'
    using turn [of i ts k p f t env n q t'] that locks [of t'] by (simp add: T_def)
  have start: "[request k, request k] = [T Reading, T Reading]" by (simp add: request_def T_def)
  have held [simp]: "th_held (T p) = 0" "th_pc (T p) = p" for p by (simp_all add: T_def)
  obtain is1 where r1: "sys_run env \<lparr>sy_state = s, sy_threads = [T Reading, T Reading]\<rparr> is1
      \<lparr>sy_state = s1, sy_threads = [T (Entering None), T Reading]\<rparr>"
    using go [of 0 "[T Reading, T Reading]" Reading s 2 "Entering None" s1] k0 1 by (auto simp: ended_def)
  obtain is2 where r2: "sys_run env \<lparr>sy_state = s1, sy_threads = [T (Entering None), T Reading]\<rparr> is2
      \<lparr>sy_state = s2, sy_threads = [T (Entering None), T (Entering None)]\<rparr>"
    using go [of 1 "[T (Entering None), T Reading]" Reading s1 2 "Entering None" s2] 1 2 by (auto simp: ended_def)
  obtain is3 where r3: "sys_run env \<lparr>sy_state = s2, sy_threads = [T (Entering None), T (Entering None)]\<rparr> is3
      \<lparr>sy_state = s3, sy_threads = [T (Retrying (Some h1)), T (Entering None)]\<rparr>"
    using go [of 0 "[T (Entering None), T (Entering None)]" "Entering None" s2 n3 "Retrying (Some h1)" s3] 2 3 pos
    by (auto simp: ended_def)
  obtain is4 where r4: "sys_run env \<lparr>sy_state = s3, sy_threads = [T (Retrying (Some h1)), T (Entering None)]\<rparr> is4
      \<lparr>sy_state = s4, sy_threads = [T (Retrying (Some h1)), T (Retrying (Some h2))]\<rparr>"
    using go [of 1 "[T (Retrying (Some h1)), T (Entering None)]" "Entering None" s3 n4 "Retrying (Some h2)" s4] 3 4 pos
    by (auto simp: ended_def)
  note run = sys_run_append [OF r1 sys_run_append [OF r2 sys_run_append [OF r3 r4]]]
  show ?thesis using run 4 by (intro exI [of _ "is1 @ is2 @ is3 @ is4"] exI conjI) (auto simp: start)
qed

theorem restart_race_witness:
  "\<exists>is sy'. sys_run sample_env \<lparr>sy_state = sample_state None 0, sy_threads = [request 0, request 0]\<rparr> is sy' \<and>
    map th_pc (sy_threads sy') = [Retrying (Some 1), Retrying (Some 2)] \<and>
    obj_at (fs_fac (sy_state sy')) 0 = Some 2 \<and> fs_world (sy_state sy') = 2"
proof -
  have "factory_entry (fs_fac (sample_state None 0)) 0 = Some (wL ''/app'', wL ''C:'')"
    by (simp add: sample_state_def factory_entry_def list_item_def)
  then show ?thesis
    using restart_race [of "sample_state None 0" 0 sample_env "wL ''/app''" "wL ''C:''" 1 1 1 2 2 2]
    by (simp add: sample_env_def texts_ok_def wL_def)
qed

text \<open>C18: a host is in the list before it is configured, and reading the list takes no
  monitor: a request that arrives between the creation of the application domain and
  the call of \<open>Configure\<close> is answered by the host that has not been configured yet.\<close>

theorem unconfigured_host_serves:
  assumes "factory_wf (fs_fac s)" "valid_key (fs_fac s) k" "texts_ok env" "f_locks (fs_fac s) = 0"
    "obj_at (fs_fac s) k = None" "factory_entry (fs_fac s) k = Some (u, d)"
    "ae_CreateApplicationHost env u d (fs_world s) = (Inr (Some h), w1)"
    "ae_HandleRequest env h w1 = (Inr st, w2)"
  shows "\<exists>is sy'. sys_run env \<lparr>sy_state = s, sy_threads = [request k, request k]\<rparr> is sy' \<and>
    map th_pc (sy_threads sy') = [Configuring h, Status st] \<and> fs_world (sy_state sy') = w2"
proof -
  define f where "f = fs_fac s"
  define T where "T = (\<lambda>p n. \<lparr>th_key = k, th_pc = p, th_held = n\<rparr>)"
  have lv: "live f k env" and k0: "kept f 0 s" using assms(1-4) by (simp_all add: live_def f_def kept_def)
  have entry: "factory_entry f k = Some (u, d)" using assms(6) by (simp add: f_def)
  obtain s1 where 1: "thread_run env k 2 (Reading, s) = (Entering None, s1)" "kept f 0 s1" "fs_world s1 = fs_world s"
    using announcing_run [OF lv k0 assms(5)] by blast
  obtain n s2 where 2: "thread_run env k n (Entering None, s1) = (Creating, s2)" "kept f 1 s2" "fs_world s2 = fs_world s1"
    using entering_run [OF lv 1(2)] by blast
  obtain s3 where 3: "thread_run env k 2 (Creating, s2) = (Configuring h, s3)" "kept f 1 s3"
      "obj_at (fs_fac s3) k = Some h" "fs_world s3 = w1"
    using storing_run [OF lv 2(2) entry] assms(7) 1(3) 2(3) by auto
  have "thread_run env k (2 + (n + 2)) (Reading, s) = (Configuring h, s3)"
    unfolding thread_run_add 1(1) 2(1) by (rule 3(1))
  then obtain is1 where r1: "sys_run env \<lparr>sy_state = s, sy_threads = [T Reading 0, T Reading 0]\<rparr> is1
      \<lparr>sy_state = with_locks 0 s3, sy_threads = [T (Configuring h) 1, T Reading 0]\<rparr>"
    using turn [of 0 "[T Reading 0, T Reading 0]" k Reading f s env "2 + (n + 2)" "Configuring h" s3] k0 3(2)
    by (auto simp: T_def ended_def kept_def)
  define t where "t = with_locks 0 s3"
  have kt: "kept f 0 t" "obj_at (fs_fac t) k = Some h" "fs_world t = w1"
    using 3 kept_with_locks [of f s3 0] by (simp_all add: t_def kept_def)
  define t' where "t' = t\<lparr>fs_world := w2\<rparr>"
  have kt': "kept f 0 t'" using kt(1) by (simp add: t'_def)
  have locks: "with_locks 0 t = t" "with_locks 0 t' = t'" "f_locks (fs_fac t) = 0" "f_locks (fs_fac t') = 0"
    using kept_locks_same [OF kt(1)] kept_locks_same [OF kt'] kt(1) kt' by (simp_all add: kept_def)
  have read: "thread_step env k Reading t = (Calling h, t)"
    using live_items(4) [OF lv kt(1)] kt(2) by (simp add: act_def)
  have call: "thread_step env k (Calling h) t = (Status st, t')"
    using assms(8) kt(3) by (simp add: act_def in_world_def t'_def)
  have r2: "sys_step env \<lparr>sy_state = t, sy_threads = [T (Configuring h) 1, T Reading 0]\<rparr> 1
      \<lparr>sy_state = t, sy_threads = [T (Configuring h) 1, T (Calling h) 0]\<rparr>"
    using sys_step.move [of "\<lparr>sy_state = t, sy_threads = [T (Configuring h) 1, T Reading 0]\<rparr>" 1 env] read locks
    by (simp add: can_move_def ended_def moved_placed placed_def T_def del: thread_steps)
  have r3: "sys_step env \<lparr>sy_state = t, sy_threads = [T (Configuring h) 1, T (Calling h) 0]\<rparr> 1
      \<lparr>sy_state = t', sy_threads = [T (Configuring h) 1, T (Status st) 0]\<rparr>"
    using sys_step.move [of "\<lparr>sy_state = t, sy_threads = [T (Configuring h) 1, T (Calling h) 0]\<rparr>" 1 env] call locks
    by (simp add: can_move_def ended_def moved_placed placed_def T_def del: thread_steps)
  note run = sys_run_append [OF r1 [folded t_def] sys_run.more [OF r2 sys_run.more [OF r3 sys_run.idle]]]
  have "[request k, request k] = [T Reading 0, T Reading 0]" by (simp add: request_def T_def)
  then show ?thesis using run by (intro exI [of _ "is1 @ [1, 1]"] exI conjI) (auto simp: T_def t'_def)
qed

theorem unconfigured_host_serves_witness:
  "\<exists>is sy'. sys_run sample_env \<lparr>sy_state = sample_state None 0, sy_threads = [request 0, request 0]\<rparr> is sy' \<and>
    map th_pc (sy_threads sy') = [Configuring 1, Status 200] \<and> fs_world (sy_state sy') = 1"
proof -
  have "factory_entry (fs_fac (sample_state None 0)) 0 = Some (wL ''/app'', wL ''C:'')"
    by (simp add: sample_state_def factory_entry_def list_item_def)
  then show ?thesis
    using unconfigured_host_serves [of "sample_state None 0" 0 sample_env "wL ''/app''" "wL ''C:''" 1 1 200 1]
    by (simp add: sample_env_def texts_ok_def wL_def)
qed

text \<open>C15: however the requests and the finalizers of a live factory interleave, at most one
  thread holds the monitor, and exactly the one between entering and leaving it; the mounts
  do not change, no call throws, the handler of unexpected exceptions is never reached; the
  host that a thread configures is the one in the list, and the query that follows finds it.\<close>

theorem lock_discipline:
  assumes "live_start env sy" "sys_run env sy is sy'"
  shows "same_mounts (fs_fac (sy_state sy)) (fs_fac (sy_state sy')) \<and>
    (\<forall>i<length (sy_threads sy'). \<forall>j<length (sy_threads sy').
       0 < th_held (sy_threads sy' ! i) \<longrightarrow> 0 < th_held (sy_threads sy' ! j) \<longrightarrow> i = j) \<and>
    (\<forall>t\<in>set (sy_threads sy'). th_held t = (if inside (th_pc t) then 1 else 0) \<and>
       (\<forall>e. th_pc t \<noteq> Threw e \<and> th_pc t \<noteq> Failing e) \<and> th_pc t \<noteq> Reporting query_text \<and>
       (\<forall>h. th_pc t = Configuring h \<longrightarrow> obj_at (fs_fac (sy_state sy')) (th_key t) = Some h))"
proof -
  note ok = live_start_run [OF assms]
  have each: "th_held t = locks (th_pc t) \<and> place_ok (fs_fac (sy_state sy')) (th_key t) (th_pc t)"
    if "t \<in> set (sy_threads sy')" for t
    using ok that by (simp add: sys_ok_def)
  have "i = j" if "i < length (sy_threads sy')" "j < length (sy_threads sy')"
      "0 < th_held (sy_threads sy' ! i)" "0 < th_held (sy_threads sy' ! j)" for i j
    using ok that each [OF nth_mem [OF that(1)]] each [OF nth_mem [OF that(2)]]
    by (auto simp: sys_ok_def locks_def split: if_splits)
  moreover have "(\<forall>e. th_pc t \<noteq> Threw e \<and> th_pc t \<noteq> Failing e) \<and> th_pc t \<noteq> Reporting query_text \<and>
      (\<forall>h. th_pc t = Configuring h \<longrightarrow> obj_at (fs_fac (sy_state sy')) (th_key t) = Some h)"
    if "t \<in> set (sy_threads sy')" for t
    using each [OF that] by auto
  ultimately show ?thesis
    using ok each by (auto simp: sys_ok_def locks_def)
qed

theorem lock_discipline_witness:
  "same_mounts (fs_fac (sy_state (sample_system (Some 1) 1))) (fs_fac (sy_state sample_end)) \<and>
   map th_held (sy_threads sample_end) = map (\<lambda>t. if inside (th_pc t) then 1 else 0) (sy_threads sample_end)"
  using lock_discipline [OF sample_live_start play_run [OF sample_play]] by simp

text \<open>C16: no interleaving hangs: a run of the threads takes at most 16 steps for each, and when
  none can move any more, every request has returned a status, every finalizer has returned, and
  the monitor is free; until then some thread can move.\<close>

theorem every_request_returns:
  assumes "live_start env sy" "sys_run env sy is sy'"
  shows "length is \<le> 16 * length (sy_threads sy) \<and>
    ((\<exists>i. can_move (sy_threads sy') i) \<or>
     (\<forall>i<length (sy_threads sy). \<exists>r. th_pc (sy_threads sy' ! i) = Ended (Inr r) \<and> th_held (sy_threads sy' ! i) = 0 \<and>
        (th_pc (sy_threads sy ! i) = Reading \<longleftrightarrow> r \<noteq> None)))"
proof
  note ok = live_start_run [OF assms]
  have "rank pc \<le> 16" for pc by (cases pc) simp_all
  then have "sum_list (map (rank \<circ> th_pc) ts) \<le> 16 * length ts" for ts
    by (induction ts) (simp_all add: add_mono)
  then have "steps_left sy \<le> 16 * length (sy_threads sy)" by (simp add: steps_left_def)
  then show "length is \<le> 16 * length (sy_threads sy)" using run_steps [OF assms(2)] by simp
  have len: "length (sy_threads sy') = length (sy_threads sy)"
    using ok by (auto simp: sys_ok_def dest: map_eq_imp_length_eq)
  have "\<exists>r. th_pc (sy_threads sy' ! i) = Ended (Inr r) \<and> th_held (sy_threads sy' ! i) = 0 \<and>
      (th_pc (sy_threads sy ! i) = Reading \<longleftrightarrow> r \<noteq> None)"
    if "\<not> (\<exists>i. can_move (sy_threads sy') i)" "i < length (sy_threads sy)" for i
  proof -
    have m: "sy_threads sy' ! i \<in> set (sy_threads sy')" "sy_threads sy ! i \<in> set (sy_threads sy)"
      using that(2) len by simp_all
    have "requests (th_pc (sy_threads sy' ! i)) = requests (th_pc (sy_threads sy ! i))"
      using ok that(2) len nth_map [of i "sy_threads sy'" "requests \<circ> th_pc"]
        nth_map [of i "sy_threads sy" "requests \<circ> th_pc"] by (simp add: sys_ok_def)
    moreover have "requests (th_pc (sy_threads sy ! i)) \<longleftrightarrow> th_pc (sy_threads sy ! i) = Reading"
      using assms(1) m(2) by (auto simp: live_start_def starting_def)
    moreover have "ended (th_pc (sy_threads sy' ! i))" using no_deadlock [OF ok m(1)] that(1) by blast
    then obtain q where "th_pc (sy_threads sy' ! i) = Ended q"
      by (cases "th_pc (sy_threads sy' ! i)") (auto simp: ended_def)
    moreover have "th_held (sy_threads sy' ! i) = locks (th_pc (sy_threads sy' ! i))"
        "place_ok (fs_fac (sy_state sy')) (th_key (sy_threads sy' ! i)) (th_pc (sy_threads sy' ! i))"
      using ok m(1) by (auto simp: sys_ok_def)
    moreover have "requests (Ended (Inr r)) \<longleftrightarrow> r \<noteq> None" for r by (cases r) simp_all
    ultimately show ?thesis by (cases q) (auto simp: locks_def)
  qed
  then show "(\<exists>i. can_move (sy_threads sy') i) \<or>
     (\<forall>i<length (sy_threads sy). \<exists>r. th_pc (sy_threads sy' ! i) = Ended (Inr r) \<and> th_held (sy_threads sy' ! i) = 0 \<and>
        (th_pc (sy_threads sy ! i) = Reading \<longleftrightarrow> r \<noteq> None))" by blast
qed

theorem every_request_returns_witness:
  "(\<exists>i. can_move (sy_threads sample_end) i) \<or>
   (\<forall>i<3. \<exists>r. th_pc (sy_threads sample_end ! i) = Ended (Inr r) \<and> th_held (sy_threads sample_end ! i) = 0)"
  using every_request_returns [OF sample_live_start play_run [OF sample_play]]
  by (simp add: sample_system_def numeral_3_eq_3) blast

end
