(* ===== verification/Worker_Typing.thy ===== *)
theory Worker_Typing
  imports Worker_Lifecycle
begin

text \<open>
  The shape of a worker request (\<open>Apache.Web/WorkerRequest.h\<close> and \<open>.cpp\<close>): its
  parallel array lists have equal lengths, the array of the known headers has the slots of
  \<open>HttpWorkerRequest\<close>, and the lists of the unknown headers hold no known name. The
  constructor establishes it, and the preread, the handler and every call of ASP.NET keep it, so
  that no look-up of a header or variable leaves its list.
\<close>

section \<open>The shape\<close>

definition worker_typed :: "culture \<Rightarrow> 'w worker \<Rightarrow> bool" where
  "worker_typed cu w \<longleftrightarrow>
     length (wr_request_headers_value w) = RequestHeaderMaximum \<and>
     length (wr_unk_req_header_value w) = length (wr_unk_req_header_name w) \<and>
     wr_unk_req_header_index w = map (ToLower (cu_lower cu)) (wr_unk_req_header_name w) \<and>
     (\<forall>i\<in>set (wr_unk_req_header_index w). IndexOf request_headers_index_s i < 0) \<and>
     wr_unk_req_hdr_arr w = zip (wr_unk_req_header_name w) (wr_unk_req_header_value w) \<and>
     length (wr_env_value w) = length (wr_env_name w)"

text \<open>The fields it speaks of.\<close>

definition header_view where
  "header_view w = (wr_request_headers_value w, wr_unk_req_header_name w, wr_unk_req_header_index w,
     wr_unk_req_header_value w, wr_unk_req_hdr_arr w, wr_env_name w, wr_env_value w)"

lemma typed_view: "header_view w' = header_view w \<Longrightarrow> worker_typed cu w' = worker_typed cu w"
  by (simp add: worker_typed_def header_view_def)

lemma grows_view: "grows w w' \<Longrightarrow> header_view w' = header_view w"
  by (simp add: grows_def request_view_def header_view_def)

lemma header_view_updates [simp]:
  "header_view (w\<lparr>wr_world := x\<rparr>) = header_view w" "header_view (w\<lparr>wr_preread_body := b\<rparr>) = header_view w"
  "header_view (w\<lparr>wr_bytes_read := n\<rparr>) = header_view w" "header_view (w\<lparr>wr_seen_eos := e\<rparr>) = header_view w"
  "header_view (w\<lparr>wr_wait_complete := c\<rparr>) = header_view w" "header_view (w\<lparr>wr_log := l\<rparr>) = header_view w"
  by (simp_all add: header_view_def)

section \<open>The constructor\<close>

lemma unknown_headers_lower:
  "k \<in> set (map fst (unknown_headers cu en hs)) \<Longrightarrow> IndexOf request_headers_index_s (ToLower (cu_lower cu) k) < 0"
  by (auto simp: unknown_headers_def header_index_def GetKnownRequestHeaderIndex_def)

lemma new_worker_typed: "worker_typed cu (new_worker cu en rr h x)"
proof -
  define w0 where "w0 = blank_worker en rr h x"
  define w where "w = fold (add_header cu en) (r_headers_in rr) w0"
  have w0: "wr_unk_req_header_name w0 = []" "wr_unk_req_header_index w0 = []" "wr_unk_req_header_value w0 = []"
      "length (wr_request_headers_value w0) = 40" "wr_env_name w0 = []" "wr_env_value w0 = []"
    by (simp_all add: w0_def blank_worker_def RequestHeaderMaximum_def)
  have l: "length (wr_request_headers_value w) = RequestHeaderMaximum"
    using add_headers_known [of w0 0 cu en "r_headers_in rr"] w0 by (simp add: w_def RequestHeaderMaximum_def)
  have u: "wr_unk_req_header_name w = map fst (unknown_headers cu en (r_headers_in rr))"
      "wr_unk_req_header_index w = map (ToLower (cu_lower cu)) (wr_unk_req_header_name w)"
      "wr_unk_req_header_value w = map snd (unknown_headers cu en (r_headers_in rr))"
    using add_headers_unknown [of cu en "r_headers_in rr" w0] w0 by (simp_all add: w_def)
  have e: "wr_env_name w = []" "wr_env_value w = []"
    using add_header_fold_env [of cu en "r_headers_in rr" w0] w0 by (simp_all add: w_def)
  have names: "wr_unk_req_header_name (fold (add_env en) es v) = wr_unk_req_header_name v"
    for es and v :: "'a worker" by (induction es arbitrary: v) (simp_all add: add_env_def)
  define w1 where "w1 = w\<lparr>wr_unk_req_hdr_arr := zip (wr_unk_req_header_name w) (wr_unk_req_header_value w)\<rparr>"
  have "new_worker cu en rr h x = fold (add_env en) (r_subprocess_env rr) w1"
    by (simp add: new_worker_def w1_def w_def w0_def Let_def)
  moreover have "\<forall>i\<in>set (wr_unk_req_header_index w). IndexOf request_headers_index_s i < 0"
    using unknown_headers_lower u(1,2) by fastforce
  ultimately show ?thesis
    using add_env_fold [of en "r_subprocess_env rr" w1] names l u e by (simp add: worker_typed_def w1_def)
qed

section \<open>The preread and the handler\<close>

lemma keeps_on_worker [keeps_intros]:
  "keeps (\<lambda>w. header_view w = v) m \<Longrightarrow> keeps (\<lambda>s. header_view (pr_worker s) = v) (on_worker m)"
  by (auto simp: keeps_def on_worker_def split: prod.splits)

lemma keeps_view_growing: "growing m \<Longrightarrow> keeps (\<lambda>w. header_view w = v) m"
  by (auto simp: growing_def keeps_def grows_view)

lemma keeps_preread_bytes [keeps_intros]: "keeps (\<lambda>s. header_view (pr_worker s) = v) (preread_bytes en data)"
proof -
  have copy: "keeps (\<lambda>s. header_view (pr_worker s) = v) (preread_copy b)" for b
    by (auto simp: keeps_def preread_copy_def split: option.splits)
  show ?thesis
    unfolding preread_bytes_def Let_def
    by (intro keeps_intros keeps_view_growing growing_read_log copy) simp_all
qed

lemma keeps_preread_loop: "keeps (\<lambda>s. header_view (pr_worker s) = v) (preread_loop en bb)"
proof (induction en bb rule: preread_loop.induct)
  case (2 en bb)
  have "keeps (\<lambda>w. header_view w = v) (omap (\<lambda>w. w\<lparr>wr_seen_eos := True\<rparr>))" by (simp add: keeps_def)
  then show ?case unfolding preread_loop.simps by (rule keeps_on_worker)
next
  case (4 en rv data bb)
  then show ?case unfolding preread_loop.simps
    by (intro keeps_intros keeps_view_growing growing_read_log)
qed (simp_all add: keeps_def)

lemma preread_view: "header_view (snd (preread get blen en w)) = header_view w"
proof -
  obtain rv bb x where g: "get 49152 (wr_world w) = (rv, bb, x)" by (metis prod_cases3)
  define s0 where "s0 = \<lparr>pr_worker = (w\<lparr>wr_world := x\<rparr>)\<lparr>wr_preread_body := Some (replicate (to_size_t (snd (blen bb))) NUL)\<rparr>,
      pr_pos = 0, pr_size = to_size_t (snd (blen bb))\<rparr>"
  obtain r s where l: "preread_loop en bb s0 = (r, s)" by fastforce
  have loop: "header_view (pr_worker s) = header_view w"
    using keepsD [OF keeps_preread_loop [of "header_view w"] _ l] by (simp add: s0_def)
  have "growing (obind (read_log en ''Handler: failed to preread the request body'' rv True) (\<lambda>_. oreturn False))"
    by (intro growing_intros)
  then have fail: "header_view (snd (obind (read_log en ''Handler: failed to preread the request body'' rv True)
      (\<lambda>_. oreturn False) (w\<lparr>wr_world := x\<rparr>))) = header_view w"
    using grows_view [of "w\<lparr>wr_world := x\<rparr>"] by (auto simp: growing_def)
  show ?thesis
    using g l loop fail by (cases r) (simp_all add: preread_def Let_def s0_def)
qed

section \<open>The life of a worker request\<close>

text \<open>
  Every state that ASP.NET, or another thread, can find a worker request in: after the constructor;
  after the preread of the handler, however it ended; after any method called on it; and after
  the handler has dealt with an exception of \<open>ProcessRequest\<close>, whether it then waits for ever or not.
\<close>

inductive worker_life ::
  "'w httpd_api \<Rightarrow> 'w get_brigade \<Rightarrow> (in_bucket list \<Rightarrow> apr_status_t \<times> int) \<Rightarrow> encodings \<Rightarrow> 'w worker \<Rightarrow> 'w worker \<Rightarrow> bool"
  for api :: "'w httpd_api" and get :: "'w get_brigade" and blen and en :: encodings and w0 :: "'w worker" where
  life_made: "worker_life api get blen en w0 w0"
| life_preread: "preread get blen en (w0\<lparr>wr_wait_complete := Some False\<rparr>) = (r, w) \<Longrightarrow> worker_life api get blen en w0 w"
| life_step: "worker_life api get blen en w0 w \<Longrightarrow> worker_step api get en w w' \<Longrightarrow> worker_life api get blen en w0 w'"
| life_failed: "worker_life api get blen en w0 w \<Longrightarrow> fail_request api en t w = (r, w') \<Longrightarrow> worker_life api get blen en w0 w'"

lemma life_run: "worker_run api get en w w' \<Longrightarrow> worker_life api get blen en w0 w \<Longrightarrow> worker_life api get blen en w0 w'"
  unfolding worker_run_def by (induction rule: rtranclp_induct) (auto intro: life_step)

lemma life_view: "worker_life api get blen en w0 w \<Longrightarrow> header_view w = header_view w0"
proof (induction rule: worker_life.induct)
  case (life_preread r w)
  then show ?case using preread_view [of get blen en "w0\<lparr>wr_wait_complete := Some False\<rparr>"] by simp
next
  case (life_step w w')
  then have "worker_run api get en w w'" by (simp add: worker_run_def r_into_rtranclp)
  then show ?case using life_step.IH grows_view worker_run_grows by metis
next
  case (life_failed w t r w')
  have "growing (fail_request api en t)" unfolding fail_request_def by (intro growing_intros)
  from growingD [OF this life_failed(2)] life_failed.IH grows_view show ?case by metis
qed simp

text \<open>A handler that returns leaves one of these states, when ASP.NET and the other threads keep to the methods.\<close>

lemma Handler_life:
  assumes "Handler api get blen en process e_str meanwhile w0 = Some (r, w)"
    "\<And>v. worker_run api get en v (snd (process v))" "\<And>v. worker_run api get en v (meanwhile v)"
  shows "worker_life api get blen en w0 w"
proof -
  obtain q w1 where p: "preread get blen en (w0\<lparr>wr_wait_complete := Some False\<rparr>) = (q, w1)" by fastforce
  note w1 = life_preread [OF p, of api]
  obtain y w2 where y: "process w1 = (y, w2)" by fastforce
  from life_run [OF assms(2) w1] y have w2: "worker_life api get blen en w0 w2" by (metis snd_conv)
  obtain z w3 where z: "managed (otry process (\<lambda>e. fail_request api en (e_str e))) w1 = (z, w3)" by fastforce
  have w3: "worker_life api get blen en w0 w3"
  proof (cases y)
    case (Inl e)
    obtain u w4 where u: "fail_request api en (e_str e) w2 = (u, w4)" by fastforce
    with z y Inl have "w3 = w4" by (auto simp: managed_def otry_def split: sum.splits)
    with life_failed [OF w2 u] show ?thesis by simp
  next
    case (Inr a)
    with z y w2 show ?thesis by (simp add: managed_def otry_def)
  qed
  have h: "Handler api get blen en process e_str meanwhile w0 =
      (case q of Inl e \<Rightarrow> Some (Inl e, w1) | Inr b \<Rightarrow> if \<not> b then Some (Inr 500, w1) else
        (case z of Inl e \<Rightarrow> Some (Inl e, w3)
         | Inr _ \<Rightarrow> if wr_wait_complete (meanwhile w3) \<noteq> Some True then None
             else Some (Inr (if \<not> wr_body_sent (meanwhile w3) then r_status (wr_rr (meanwhile w3)) else OK), meanwhile w3)))"
    using p z by (simp add: Handler_def obind_def Let_def split: sum.split bool.split)
  have "w \<in> {w1, w3, meanwhile w3}"
    using assms(1) unfolding h by (auto split: sum.splits if_splits)
  with w1 w3 life_run [OF assms(3) w3] show ?thesis by auto
qed

section \<open>Properties\<close>

text \<open>C11: a worker request is well formed in every state from its construction on in which ASP.NET or
  another thread can call it, whatever the filters deliver, during \<open>ProcessRequest\<close> as after it and also
  when its handler never returns: the parallel lists have equal lengths, so no look-up leaves its
  list, a look-up of an unknown header is the look-up in the array ASP.NET is given, and it never
  finds a known header.\<close>

theorem worker_well_formed:
  assumes "worker_life api get blen en (new_worker cu en rr h x) w"
  shows "worker_typed cu w \<and>
    (\<forall>i. 0 \<le> i \<and> i < int RequestHeaderMaximum \<longrightarrow> nat i < length (wr_request_headers_value w)) \<and>
    (\<forall>n. IndexOf (wr_unk_req_header_index w) n < int (length (wr_unk_req_header_value w)) \<and>
         IndexOf (wr_env_name w) n < int (length (wr_env_value w))) \<and>
    (\<forall>n. GetUnknownRequestHeader cu w n =
       map_of (map (\<lambda>(k, v). (ToLower (cu_lower cu) k, v)) (GetUnknownRequestHeaders w)) (ToLower (cu_lower cu) n)) \<and>
    (\<forall>n. 0 \<le> IndexOf request_headers_index_s (ToLower (cu_lower cu) n) \<longrightarrow> GetUnknownRequestHeader cu w n = None)"
proof -
  have t: "worker_typed cu w"
    unfolding typed_view [OF life_view [OF assms]] by (rule new_worker_typed)
  then have len: "length (wr_unk_req_header_index w) = length (wr_unk_req_header_value w)"
      "wr_unk_req_header_index w = map (ToLower (cu_lower cu)) (wr_unk_req_header_name w)"
    by (simp_all add: worker_typed_def)
  have get: "GetUnknownRequestHeader cu w n =
      map_of (zip (wr_unk_req_header_index w) (wr_unk_req_header_value w)) (ToLower (cu_lower cu) n)" for n
    using IndexOf_map_of [OF len(1), of "ToLower (cu_lower cu) n"] by (simp add: GetUnknownRequestHeader_def Let_def)
  have zips: "zip (wr_unk_req_header_index w) (wr_unk_req_header_value w) =
      map (\<lambda>(k, v). (ToLower (cu_lower cu) k, v)) (GetUnknownRequestHeaders w)"
    using t by (simp add: worker_typed_def GetUnknownRequestHeaders_def zip_map1)
  have "GetUnknownRequestHeader cu w n = None" if "0 \<le> IndexOf request_headers_index_s (ToLower (cu_lower cu) n)" for n
  proof -
    have "ToLower (cu_lower cu) n \<notin> set (wr_unk_req_header_index w)"
      using t that by (auto simp: worker_typed_def IndexOf_nonneg)
    then show ?thesis by (auto simp: get map_of_eq_None_iff dest: set_zip_leftD)
  qed
  moreover have "IndexOf (wr_unk_req_header_index w) n < int (length (wr_unk_req_header_value w))"
      "IndexOf (wr_env_name w) n < int (length (wr_env_value w))" for n
    using t len(1) IndexOf_range(1) [of "wr_unk_req_header_index w" n] IndexOf_range(1) [of "wr_env_name w" n]
    by (simp_all add: worker_typed_def)
  moreover have "nat i < length (wr_request_headers_value w)" if "0 \<le> i \<and> i < int RequestHeaderMaximum" for i
    using t that by (simp add: worker_typed_def nat_less_iff)
  moreover have "GetUnknownRequestHeader cu w n =
      map_of (map (\<lambda>(k, v). (ToLower (cu_lower cu) k, v)) (GetUnknownRequestHeaders w)) (ToLower (cu_lower cu) n)" for n
    unfolding zips [symmetric] by (rule get)
  ultimately show ?thesis using t by blast
qed

theorem worker_well_formed_witness:
  "\<exists>w w'. preread sample_get (\<lambda>bb. (APR_SUCCESS, int (length (bb_data bb)))) ascii_encodings
      ((new_worker ordinal_culture ascii_encodings sample_rr sample_host ''abc'')\<lparr>wr_wait_complete := Some False\<rparr>) = (Inr True, w) \<and>
    FlushResponse (sample_api []) True w = (Inr (), w') \<and> worker_typed ordinal_culture w \<and> worker_typed ordinal_culture w'"
proof -
  let ?api = "sample_api [] :: string httpd_api"
  let ?blen = "\<lambda>bb. (APR_SUCCESS, int (length (bb_data bb)))"
  let ?w = "new_worker ordinal_culture ascii_encodings sample_rr sample_host ''abc'' :: string worker"
  let ?v = "?w\<lparr>wr_wait_complete := Some False\<rparr>"
  have world: "wr_world (fold (add_header cu en) hs u) = wr_world u" "wr_world (fold (add_env en) es u) = wr_world u"
    for cu en hs es and u :: "string worker"
    by (induction hs arbitrary: u; simp add: add_header_def Let_def) (induction es arbitrary: u; simp add: add_env_def)
  have x: "wr_world ?v = ''abc''" "wr_eosnCallback ?v = None"
    by (simp_all add: new_worker_fields) (simp add: new_worker_def Let_def blank_worker_def world)
  have g: "sample_get 49152 (wr_world ?v) = (APR_SUCCESS, [InFlush, InData APR_SUCCESS ''abc'', InEos], [])"
    unfolding x by (simp add: sample_get_def)
  have m: "measures_brigades sample_get ?blen" by (simp add: measures_brigades_def)
  obtain w where p: "preread sample_get ?blen ascii_encodings ?v = (Inr True, w)" "wr_eosnCallback w = None"
    using preread_ok [OF sample_get_filter m g, of ascii_encodings] x(2) by auto
  obtain w' where f: "FlushResponse ?api True w = (Inr (), w')"
    using p(2) by (cases "ha_pass_brigade ?api [EosBucket] (wr_world w)")
      (simp add: FlushResponse_def InternalFlushResponse_def pass_def obind_def set_body_sent_def fire_callback_def)
  note life = life_preread [OF p(1), where api = ?api]
  from worker_well_formed [OF life] worker_well_formed [OF life_step [OF life step_flush [OF f]]] p(1) f
  show ?thesis by blast
qed

end
