(* ===== verification/Apr_Tables.thy ===== *)
theory Apr_Tables
  imports Worker_Request
begin

text \<open>
  The arrays behind the tables of \<open>apr_tables.h\<close>, and the two loops of the constructor of
  \<open>Apache.Web/WorkerRequest.cpp\<close> that walk over them by pointer. \<open>Worker_Request\<close> has a
  table as the list of its pairs; here the loops run on a memory that holds entries at addresses, and are
  shown to stay inside of the array and to build the same worker request. \<open>apr_table_elts\<close>, whose code
  is not in the repository, is a parameter, and \<open>array_holds\<close> says what it promises.
\<close>

section \<open>Arrays of entries\<close>

record apr_array_header_t =
  ah_pool :: ptr
  ah_elt_size :: int
  ah_nelts :: int
  ah_nalloc :: int
  ah_elts :: int

record apr_table_entry_t =
  te_key :: c_ptr
  te_val :: c_ptr
  te_key_checksum :: "32 word"

text \<open>Where an entry can be read; reading anywhere else is an error of its own, \<open>None\<close>.\<close>

type_synonym entry_mem = "int \<Rightarrow> apr_table_entry_t option"

definition APR_ARRAY_IDX :: "int \<Rightarrow> entry_mem \<Rightarrow> apr_array_header_t \<Rightarrow> int \<Rightarrow> apr_table_entry_t option" where
  "APR_ARRAY_IDX sizeof_type m ary i = m (ah_elts ary + i * sizeof_type)"

section \<open>The loops of the constructor\<close>

text \<open>\<open>for (i = 0; i < arr->nelts; ++i, elt += arr->elt_size)\<close>, from given values of \<open>i\<close> and \<open>elt\<close>.\<close>

function elts_loop ::
  "(apr_table_entry_t \<Rightarrow> 's \<Rightarrow> 's) \<Rightarrow> entry_mem \<Rightarrow> apr_array_header_t \<Rightarrow> int \<Rightarrow> int \<Rightarrow> 's \<Rightarrow> 's option" where
  "elts_loop body m arr i elt s =
     (if i < ah_nelts arr then
        (case m elt of None \<Rightarrow> None
         | Some pair \<Rightarrow> elts_loop body m arr (i + 1) (elt + ah_elt_size arr) (body pair s))
      else Some s)"
  by pat_completeness auto
termination by (relation "measure (\<lambda>(body, m, arr, i, elt, s). nat (ah_nelts arr - i))") auto

declare elts_loop.simps [simp del]

definition read_header :: "culture \<Rightarrow> encodings \<Rightarrow> apr_table_entry_t \<Rightarrow> 'w worker \<Rightarrow> 'w worker" where
  "read_header cu en pair w =
     (let key = net_string en (te_key pair);
          val = net_string en (te_val pair);
          key_index = ToLower (cu_lower cu) key;
          ent = IndexOf request_headers_index_s key_index
      in if ent \<ge> 0
         then w\<lparr>wr_request_headers_value := (wr_request_headers_value w)[nat ent := Some val]\<rparr>
         else w\<lparr>wr_unk_req_header_name := wr_unk_req_header_name w @ [key],
                wr_unk_req_header_index := wr_unk_req_header_index w @ [key_index],
                wr_unk_req_header_value := wr_unk_req_header_value w @ [val]\<rparr>)"

definition read_env :: "encodings \<Rightarrow> apr_table_entry_t \<Rightarrow> 'w worker \<Rightarrow> 'w worker" where
  "read_env en pair w =
     w\<lparr>wr_env_name := wr_env_name w @ [net_string en (te_key pair)],
       wr_env_value := wr_env_value w @ [net_string en (te_val pair)]\<rparr>"

text \<open>The array of the unknown headers, filled by index.\<close>

definition unknown_array :: "'w worker \<Rightarrow> (wstr \<times> wstr) list" where
  "unknown_array w =
     map (\<lambda>i. (wr_unk_req_header_name w ! i, wr_unk_req_header_value w ! i)) [0..<length (wr_unk_req_header_value w)]"

definition construct_worker ::
  "culture \<Rightarrow> encodings \<Rightarrow> (apr_table \<Rightarrow> apr_array_header_t) \<Rightarrow> entry_mem \<Rightarrow> request_rec \<Rightarrow> host \<Rightarrow> 'w \<Rightarrow>
   'w worker option" where
  "construct_worker cu en apr_table_elts m rr h x =
     (let arr = apr_table_elts (r_headers_in rr)
      in case elts_loop (read_header cu en) m arr 0 (ah_elts arr) (blank_worker en rr h x) of
           None \<Rightarrow> None
         | Some w \<Rightarrow>
             (let w = w\<lparr>wr_unk_req_hdr_arr := unknown_array w\<rparr>;
                  arr = apr_table_elts (r_subprocess_env rr)
              in elts_loop (read_env en) m arr 0 (ah_elts arr) w))"

section \<open>Lemmas\<close>

text \<open>An array has its entries one after the other, as many as its count.\<close>

definition array_holds :: "entry_mem \<Rightarrow> apr_array_header_t \<Rightarrow> apr_table_entry_t list \<Rightarrow> bool" where
  "array_holds m arr es \<longleftrightarrow>
     ah_nelts arr = int (length es) \<and>
     (\<forall>i<length es. m (ah_elts arr + int i * ah_elt_size arr) = Some (es ! i))"

lemma elts_loop_fold:
  assumes "\<forall>j<length es. m (elt + int j * ah_elt_size arr) = Some (es ! j)" "ah_nelts arr = i + int (length es)"
  shows "elts_loop body m arr i elt s = Some (fold body es s)"
  using assms
proof (induction es arbitrary: i elt s)
  case Nil
  then show ?case by (subst elts_loop.simps) simp
next
  case (Cons e es)
  have "m (elt + int 0 * ah_elt_size arr) = Some ((e # es) ! 0)" using Cons.prems(1) by blast
  then have e: "m elt = Some e" by simp
  have "m (elt + ah_elt_size arr + int j * ah_elt_size arr) = Some (es ! j)" if "j < length es" for j
  proof -
    have "m (elt + int (Suc j) * ah_elt_size arr) = Some ((e # es) ! Suc j)"
      using Cons.prems(1) [rule_format, of "Suc j"] that by (simp del: of_nat_Suc)
    moreover have "elt + int (Suc j) * ah_elt_size arr = elt + ah_elt_size arr + int j * ah_elt_size arr"
      by (simp add: distrib_right)
    ultimately show ?thesis by (simp only: nth_Cons_Suc)
  qed
  then have "elts_loop body m arr (i + 1) (elt + ah_elt_size arr) (body e s) = Some (fold body es (body e s))"
    using Cons.IH [of "elt + ah_elt_size arr" "i + 1" "body e s"] Cons.prems(2) by simp
  with e Cons.prems(2) show ?case by (subst elts_loop.simps) simp
qed

lemma array_loop: "array_holds m arr es \<Longrightarrow> elts_loop body m arr 0 (ah_elts arr) s = Some (fold body es s)"
  by (rule elts_loop_fold) (simp_all add: array_holds_def)

lemma fold_read_header:
  "map (\<lambda>e. (te_key e, te_val e)) es = map (\<lambda>(k, v). (Some k, Some v)) t \<Longrightarrow>
   fold (read_header cu en) es w = fold (add_header cu en) t w"
proof (induction es arbitrary: t w)
  case (Cons e es)
  then obtain k v u where "t = (k, v) # u" "te_key e = Some k" "te_val e = Some v"
    "map (\<lambda>e. (te_key e, te_val e)) es = map (\<lambda>(k, v). (Some k, Some v)) u" by (cases t) auto
  then show ?case using Cons.IH [of u] by (simp add: read_header_def add_header_def net_string_def)
qed simp

lemma fold_read_env:
  "map (\<lambda>e. (te_key e, te_val e)) es = map (\<lambda>(k, v). (Some k, Some v)) t \<Longrightarrow>
   fold (read_env en) es w = fold (add_env en) t w"
proof (induction es arbitrary: t w)
  case (Cons e es)
  then obtain k v u where "t = (k, v) # u" "te_key e = Some k" "te_val e = Some v"
    "map (\<lambda>e. (te_key e, te_val e)) es = map (\<lambda>(k, v). (Some k, Some v)) u" by (cases t) auto
  then show ?case using Cons.IH [of u] by (simp add: read_env_def add_env_def net_string_def)
qed simp

lemma read_headers_lengths:
  "length (wr_unk_req_header_name w) = length (wr_unk_req_header_value w) \<Longrightarrow>
   length (wr_unk_req_header_name (fold (read_header cu en) es w)) =
   length (wr_unk_req_header_value (fold (read_header cu en) es w))"
  by (induction es arbitrary: w) (simp_all add: read_header_def Let_def)

lemma unknown_array_zip:
  "length (wr_unk_req_header_name w) = length (wr_unk_req_header_value w) \<Longrightarrow>
   unknown_array w = zip (wr_unk_req_header_name w) (wr_unk_req_header_value w)"
  unfolding unknown_array_def by (intro nth_equalityI) simp_all

lemma empty_unknown: "\<not> IndexOf request_headers_index_s (ToLower lower []) \<ge> 0"
proof -
  have "[] \<notin> set request_headers_index_m" by (simp add: request_headers_index_m_def common_headers_index_m_def)
  then have "[] \<notin> set request_headers_index_s" by (auto simp: request_headers_index_s_def wL_def)
  then show ?thesis by (simp add: ToLower_def not_le)
qed

text \<open>The loops over any entries, keys and values that are null included.\<close>

lemma construct_worker_entries:
  assumes "array_holds m (elts (r_headers_in rr)) hs" "array_holds m (elts (r_subprocess_env rr)) es"
  shows "construct_worker cu en elts m rr h x =
    (let w = fold (read_header cu en) hs (blank_worker en rr h x);
         w = w\<lparr>wr_unk_req_hdr_arr := zip (wr_unk_req_header_name w) (wr_unk_req_header_value w)\<rparr>
     in Some (fold (read_env en) es w))"
proof -
  have "length (wr_unk_req_header_name (fold (read_header cu en) hs (blank_worker en rr h x))) =
      length (wr_unk_req_header_value (fold (read_header cu en) hs (blank_worker en rr h x)))"
    by (rule read_headers_lengths) (simp add: blank_worker_def)
  then show ?thesis
    by (simp add: construct_worker_def array_loop [OF assms(1)] array_loop [OF assms(2)] unknown_array_zip Let_def)
qed

text \<open>
  The header promises only that a key may be null one day, and asks to check for it. The loop does not check: such an
  entry becomes an unknown header with an empty name.
\<close>

lemma read_header_keeps:
  "n \<in> set (wr_unk_req_header_name w) \<Longrightarrow> n \<in> set (wr_unk_req_header_name (fold (read_header cu en) es w))"
  by (induction es arbitrary: w) (simp_all add: read_header_def Let_def)

lemma read_env_names: "wr_unk_req_header_name (fold (read_env en) es w) = wr_unk_req_header_name w"
  by (induction es arbitrary: w) (simp_all add: read_env_def)

lemma read_null_key:
  "e \<in> set es \<Longrightarrow> te_key e = None \<Longrightarrow> [] \<in> set (wr_unk_req_header_name (fold (read_header cu en) es w))"
proof (induction es arbitrary: w)
  case (Cons e' es)
  show ?case
  proof (cases "e \<in> set es")
    case False
    then have k: "te_key e' = None" using Cons.prems by simp
    then have "[] \<in> set (wr_unk_req_header_name (read_header cu en e' w))"
      by (simp add: read_header_def net_string_def empty_unknown del: IndexOf_neg)
    then show ?thesis using read_header_keeps by simp
  qed (use Cons in simp)
qed simp

lemma null_key_header:
  assumes "array_holds m (elts (r_headers_in rr)) hs" "array_holds m (elts (r_subprocess_env rr)) es"
    "e \<in> set hs" "te_key e = None"
  shows "\<exists>w. construct_worker cu en elts m rr h x = Some w \<and> [] \<in> set (wr_unk_req_header_name w)"
  using read_null_key [OF assms(3,4)]
  by (simp add: construct_worker_entries [OF assms(1,2)] read_env_names Let_def)

section \<open>Properties\<close>

text \<open>What \<open>apr_table_elts\<close> promises of a table: an array with its pairs in order, whatever the checksums.\<close>

definition table_array :: "entry_mem \<Rightarrow> apr_array_header_t \<Rightarrow> apr_table \<Rightarrow> bool" where
  "table_array m arr t \<longleftrightarrow>
     (\<exists>es. array_holds m arr es \<and> map (\<lambda>e. (te_key e, te_val e)) es = map (\<lambda>(k, v). (Some k, Some v)) t)"

text \<open>C13: the constructor, walking by pointer over the arrays behind the tables of the request, reads no address
  but those of their entries and ends with the worker request that the pairs of the tables, in
  order, make; the walk by the element size of the array reads what indexing by the type reads when
  the sizes agree.\<close>

theorem constructor_reads_tables:
  assumes "table_array m (elts (r_headers_in rr)) (r_headers_in rr)"
    "table_array m (elts (r_subprocess_env rr)) (r_subprocess_env rr)"
  shows "construct_worker cu en elts m rr h x = Some (new_worker cu en rr h x) \<and>
    (\<forall>i<length (r_headers_in rr). \<exists>c.
       APR_ARRAY_IDX (ah_elt_size (elts (r_headers_in rr))) m (elts (r_headers_in rr)) (int i) =
         Some \<lparr>te_key = Some (fst (r_headers_in rr ! i)), te_val = Some (snd (r_headers_in rr ! i)), te_key_checksum = c\<rparr>)"
proof -
  obtain hs es where hs: "array_holds m (elts (r_headers_in rr)) hs"
      "map (\<lambda>e. (te_key e, te_val e)) hs = map (\<lambda>(k, v). (Some k, Some v)) (r_headers_in rr)"
    and es: "array_holds m (elts (r_subprocess_env rr)) es"
      "map (\<lambda>e. (te_key e, te_val e)) es = map (\<lambda>(k, v). (Some k, Some v)) (r_subprocess_env rr)"
    using assms by (auto simp: table_array_def)
  have "construct_worker cu en elts m rr h x = Some (new_worker cu en rr h x)"
    by (simp add: construct_worker_entries [OF hs(1) es(1)] fold_read_header [OF hs(2)] fold_read_env [OF es(2)]
        new_worker_def Let_def)
  moreover have "\<exists>c. m (ah_elts (elts (r_headers_in rr)) + int i * ah_elt_size (elts (r_headers_in rr))) =
      Some \<lparr>te_key = Some (fst (r_headers_in rr ! i)), te_val = Some (snd (r_headers_in rr ! i)), te_key_checksum = c\<rparr>"
    if "i < length (r_headers_in rr)" for i
  proof -
    have l: "i < length hs" using that map_eq_imp_length_eq [OF hs(2)] by simp
    from arg_cong [OF hs(2), of "\<lambda>l. l ! i"] that l
    have "te_key (hs ! i) = Some (fst (r_headers_in rr ! i))" "te_val (hs ! i) = Some (snd (r_headers_in rr ! i))"
      by (simp_all add: split_beta)
    then show ?thesis
      using hs(1) l by (intro exI [of _ "te_key_checksum (hs ! i)"]) (simp add: array_holds_def)
  qed
  ultimately show ?thesis by (simp add: APR_ARRAY_IDX_def)
qed

text \<open>Two headers in memory, with room for two more, and an empty table.\<close>

definition table_request :: request_rec where
  "table_request = request_zero\<lparr>r_headers_in := [(''Host'', ''a''), (''X-Note'', ''b'')]\<rparr>"

definition table_mem :: entry_mem where
  "table_mem a =
     (if a = 1000 then Some \<lparr>te_key = Some ''Host'', te_val = Some ''a'', te_key_checksum = 7\<rparr>
      else if a = 1012 then Some \<lparr>te_key = Some ''X-Note'', te_val = Some ''b'', te_key_checksum = 8\<rparr>
      else None)"

definition table_elts :: "apr_table \<Rightarrow> apr_array_header_t" where
  "table_elts t = \<lparr>ah_pool = None, ah_elt_size = 12, ah_nelts = int (length t), ah_nalloc = 4, ah_elts = 1000\<rparr>"

theorem constructor_reads_tables_witness:
  "\<forall>h. construct_worker ordinal_culture ascii_encodings table_elts table_mem table_request h () =
     Some (new_worker ordinal_culture ascii_encodings table_request h ())"
proof -
  have "array_holds table_mem (table_elts (r_headers_in table_request))
      [\<lparr>te_key = Some ''Host'', te_val = Some ''a'', te_key_checksum = 7\<rparr>,
       \<lparr>te_key = Some ''X-Note'', te_val = Some ''b'', te_key_checksum = 8\<rparr>]"
    by (simp add: array_holds_def table_elts_def table_mem_def table_request_def less_Suc_eq)
  then have "table_array table_mem (table_elts (r_headers_in table_request)) (r_headers_in table_request)"
    unfolding table_array_def by (intro exI conjI) (assumption, simp add: table_request_def)
  moreover have "table_array table_mem (table_elts (r_subprocess_env table_request)) (r_subprocess_env table_request)"
    unfolding table_array_def
    by (intro exI [of _ "[]"]) (simp add: table_request_def request_zero_def table_elts_def array_holds_def)
  ultimately show ?thesis by (intro allI constructor_reads_tables [where elts = table_elts, THEN conjunct1])
qed

end
