(* ===== verification/Server_Config.thy ===== *)
theory Server_Config
  imports Module_Table Module_Handler
begin

text \<open>
  How the module's structures are reached: the server structure of \<open>httpd.h\<close>, the parameters of a
  directive and the configuration vectors of \<open>http_config.h\<close>, and the accesses of
  \<open>mod/mod_aspdotnet.cpp\<close> through them. \<open>Module_Table\<close> has a configuration as a function from servers
  to their mounts and from sections to their options; here both lie in memory, shared with every other
  module, behind the vector of a server or section and the module's own index, and reading the
  configuration and handling a request are shown to be what the other theories say.
\<close>

section \<open>The structures of httpd\<close>

record process_rec =
  ps_pool :: ptr
  ps_pconf :: ptr
  ps_short_name :: c_ptr
  ps_argv :: "c_ptr list"
  ps_argc :: int

record server_addr_rec =
  va_next :: ptr
  va_virthost :: c_ptr
  va_host_addr :: ptr
  va_host_port :: "16 word"

text \<open>A null \<open>module_levels\<close> is \<open>None\<close>; its elements are signed characters.\<close>

record ap_logconf =
  lg_module_levels :: "8 word list option"
  lg_level :: int

record server_rec =
  svr_process :: ptr
  svr_next :: ptr
  svr_error_fname :: c_ptr
  svr_error_log :: ptr
  svr_log :: ap_logconf
  svr_module_config :: ptr
  svr_lookup_defaults :: ptr
  svr_defn_name :: c_ptr
  svr_defn_line_number :: "32 word"
  svr_is_virtual :: "8 word"
  svr_port :: "16 word"
  svr_server_scheme :: c_ptr
  svr_server_admin :: c_ptr
  svr_server_hostname :: c_ptr
  svr_addrs :: ptr
  svr_timeout :: int
  svr_keep_alive_timeout :: int
  svr_keep_alive_max :: int
  svr_keep_alive :: int
  svr_names :: ptr
  svr_wild_names :: ptr
  svr_path :: c_ptr
  svr_pathlen :: int
  svr_limit_req_line :: int
  svr_limit_req_fieldsize :: int
  svr_limit_req_fields :: int
  svr_context :: ptr
  svr_keep_alive_timeout_set :: bool

record cmd_parms =
  cp_info :: ptr
  cp_override :: "32 word"
  cp_override_opts :: "32 word"
  cp_override_list :: ptr
  cp_limited :: "64 word"
  cp_limited_xmethods :: ptr
  cp_xlimited :: ptr
  cp_config_file :: ptr
  cp_directive :: ptr
  cp_pool :: ptr
  cp_temp_pool :: ptr
  cp_server :: ptr
  cp_path :: c_ptr
  cp_cmd :: command_rec
  cp_context :: ptr
  cp_err_directive :: ptr

section \<open>Configuration vectors\<close>

text \<open>
  A vector is an array with one pointer for each module. Both macros index it by \<open>module_index\<close>; an index
  that is not in the array is \<open>None\<close>, an access outside of it.
\<close>

type_synonym ap_conf_vector = "ptr list"

definition in_vector :: "ap_conf_vector \<Rightarrow> module_struct \<Rightarrow> bool" where
  "in_vector v m \<longleftrightarrow> 0 \<le> md_module_index m \<and> md_module_index m < int (length v)"

definition ap_get_module_config :: "ap_conf_vector \<Rightarrow> module_struct \<Rightarrow> ptr option" where
  "ap_get_module_config v m = (if in_vector v m then Some (v ! nat (md_module_index m)) else None)"

definition ap_set_module_config :: "ap_conf_vector \<Rightarrow> module_struct \<Rightarrow> ptr \<Rightarrow> ap_conf_vector option" where
  "ap_set_module_config v m val = (if in_vector v m then Some (v[nat (md_module_index m) := val]) else None)"

text \<open>The module as httpd has added it: \<open>STANDARD20_MODULE_STUFF\<close> leaves the index at -1 for it.\<close>

definition added_module :: "string \<Rightarrow> int \<Rightarrow> module_struct" where
  "added_module src i = (aspdotnet_module src)\<lparr>md_module_index := i\<rparr>"

text \<open>The memory: vectors, servers, the module's two kinds of structures and its global one.\<close>

record conf_world =
  cw_vectors :: "addr \<rightharpoonup> ap_conf_vector"
  cw_servers :: "addr \<rightharpoonup> server_rec"
  cw_srvconfs :: "addr \<rightharpoonup> asp_net_srvconf"
  cw_dirconfs :: "addr \<rightharpoonup> asp_net_dirconf"
  cw_conf :: asp_net_conf

text \<open>\<open>ap_get_module_config\<close> of the vector a pointer leads to.\<close>

definition config_slot :: "module_struct \<Rightarrow> conf_world \<Rightarrow> ptr \<Rightarrow> ptr option" where
  "config_slot m w v = Option.bind (Option.bind v (cw_vectors w)) (\<lambda>vec. ap_get_module_config vec m)"

definition server_slot :: "module_struct \<Rightarrow> conf_world \<Rightarrow> ptr \<Rightarrow> ptr option" where
  "server_slot m w s = Option.bind (Option.bind s (cw_servers w)) (\<lambda>s. config_slot m w (svr_module_config s))"

section \<open>The directives\<close>

text \<open>
  \<open>mount_cmd\<close> reads the pointer to the server's mounts at its start and follows it at its end, when
  the mount is good; a directive that is ignored does not follow it.
\<close>

definition mount_directive where
  "mount_directive fp_merge stat m cmd uri rootarg w =
     (case server_slot m w (cp_server cmd) of None \<Rightarrow> None
      | Some srvconf \<Rightarrow>
          (case mount_cmd fp_merge stat (cw_conf w)
              (case Option.bind srvconf (cw_srvconfs w) of None \<Rightarrow> create_asp_net_srvconf | Some sc \<Rightarrow> sc) uri rootarg of
             (g, sc, log) \<Rightarrow>
               if log \<noteq> [] then Some w
               else (case srvconf of None \<Rightarrow> None
                     | Some a \<Rightarrow>
                         if cw_srvconfs w a = None then None
                         else Some (w\<lparr>cw_conf := g, cw_srvconfs := (cw_srvconfs w)(a \<mapsto> sc)\<rparr>))))"

definition enable_directive where
  "enable_directive getword dirconf enables w =
     (case dirconf of None \<Rightarrow> None
      | Some a \<Rightarrow>
          (case cw_dirconfs w a of None \<Rightarrow> None
           | Some d \<Rightarrow>
               map_option (\<lambda>(d, msg). w\<lparr>cw_dirconfs := (cw_dirconfs w)(a \<mapsto> d)\<rparr>) (set_aspnet_enable getword d enables)))"

fun run_directive ::
  "(string \<Rightarrow> apr_status_t \<times> c_ptr) \<Rightarrow> (string \<Rightarrow> apr_status_t \<times> apr_filetype_e) \<Rightarrow> (string \<Rightarrow> string \<times> string) \<Rightarrow>
   module_struct \<Rightarrow> module_function \<Rightarrow> cmd_args \<Rightarrow> cmd_parms \<Rightarrow> ptr \<Rightarrow> conf_world \<Rightarrow> conf_world option" where
  "run_directive fp_merge stat getword m Fn_set_aspnet_enable (RawArgs s) cmd mconfig w =
     enable_directive getword mconfig s w"
| "run_directive fp_merge stat getword m Fn_version_cmd (Args1 s) cmd mconfig w =
     Some (w\<lparr>cw_conf := version_cmd (cw_conf w) s\<rparr>)"
| "run_directive fp_merge stat getword m Fn_mount_cmd (Args2 s t) cmd mconfig w =
     mount_directive fp_merge stat m cmd s t w"
| "run_directive fp_merge stat getword m _ _ cmd mconfig w = None"

text \<open>
  A step of reading: httpd finds the entry of the directive in the table and hands its function the
  parameters and the module's structure of the section, which it takes from the section's vector.
\<close>

inductive directive_step ::
  "(string \<Rightarrow> apr_status_t \<times> c_ptr) \<Rightarrow> (string \<Rightarrow> apr_status_t \<times> apr_filetype_e) \<Rightarrow> (string \<Rightarrow> string \<times> string) \<Rightarrow>
   module_struct \<Rightarrow> 32 word \<Rightarrow> conf_world \<Rightarrow> conf_world \<Rightarrow> bool"
  for fp_merge stat getword m place where
  run: "cp_cmd cmd \<in> set asp_net_cmds \<Longrightarrow> cmd_func (cp_cmd cmd) = Some f \<Longrightarrow>
    place AND req_override (cp_cmd cmd) \<noteq> 0 \<Longrightarrow> fits (args_how (cp_cmd cmd)) args \<Longrightarrow>
    NUL \<notin> set (args_text args) \<Longrightarrow> config_slot m w (cp_context cmd) = Some mconfig \<Longrightarrow>
    run_directive fp_merge stat getword m f args cmd mconfig w = Some w' \<Longrightarrow>
    directive_step fp_merge stat getword m place w w'"

section \<open>The handler\<close>

text \<open>
  The lookups of \<open>asp_net_handler\<close>: the options after the tests of handler and URI, the mounts of the
  server after those of the file. A pointer that leads nowhere ends the process when it is followed; the
  options are not followed for a file type the handler does not know.
\<close>

definition handler_lookups where
  "handler_lookups handle cv cg ciex ci iter m w r f =
     (if r_handler r \<noteq> Some ''asp.net'' \<or> \<not> absolute_uri (r_uri r) then
        asp_net_handler handle cv cg ciex ci iter (cw_conf w) create_asp_net_srvconf create_asp_net_dirconf r f
      else
        (case config_slot m w (r_per_dir_config r) of None \<Rightarrow> (HandlerFault, r, f, [])
         | Some p \<Rightarrow>
             (case Option.bind p (cw_dirconfs w) of
                None \<Rightarrow>
                  if fi_filetype (r_finfo r) \<in> {APR_REG, APR_DIR, APR_NOFILE} then (HandlerFault, r, f, [])
                  else asp_net_handler handle cv cg ciex ci iter (cw_conf w) create_asp_net_srvconf create_asp_net_dirconf r f
              | Some dc \<Rightarrow>
                  if check_request dc r \<noteq> None then
                    asp_net_handler handle cv cg ciex ci iter (cw_conf w) create_asp_net_srvconf dc r f
                  else
                    (case Option.bind (Option.bind (server_slot m w (r_server r)) id) (cw_srvconfs w) of
                       None \<Rightarrow> (HandlerFault, r, f, [])
                     | Some sc \<Rightarrow> asp_net_handler handle cv cg ciex ci iter (cw_conf w) sc dc r f))))"

section \<open>What memory says of a configuration\<close>

text \<open>
  httpd gives every server a structure of its own, by \<open>create_asp_net_srvconf\<close>, and puts it into the
  server's vector under the index of the module.
\<close>

definition vectors_ok :: "module_struct \<Rightarrow> conf_world \<Rightarrow> bool" where
  "vectors_ok m w \<longleftrightarrow>
     (\<forall>s\<in>dom (cw_servers w). \<exists>a\<in>dom (cw_srvconfs w). server_slot m w (Some s) = Some (Some a)) \<and>
     (\<forall>s s' a. server_slot m w (Some s) = Some (Some a) \<longrightarrow> server_slot m w (Some s') = Some (Some a) \<longrightarrow> s = s')"

text \<open>The configuration that memory holds, in the terms of \<open>Module_Table\<close>.\<close>

definition srvconf_at :: "module_struct \<Rightarrow> conf_world \<Rightarrow> addr \<Rightarrow> asp_net_srvconf" where
  "srvconf_at m w s =
     (case Option.bind (Option.bind (server_slot m w (Some s)) id) (cw_srvconfs w) of
        None \<Rightarrow> create_asp_net_srvconf | Some sc \<Rightarrow> sc)"

definition dirconf_at :: "conf_world \<Rightarrow> addr \<Rightarrow> asp_net_dirconf" where
  "dirconf_at w a = (case cw_dirconfs w a of None \<Rightarrow> create_asp_net_dirconf | Some d \<Rightarrow> d)"

definition memory_config :: "module_struct \<Rightarrow> conf_world \<Rightarrow> config" where
  "memory_config m w = \<lparr>cf_conf = cw_conf w, cf_servers = srvconf_at m w, cf_dirs = dirconf_at w\<rparr>"

lemma slots_cong:
  "cw_vectors w' = cw_vectors w \<Longrightarrow> config_slot m w' = config_slot m w"
  "cw_vectors w' = cw_vectors w \<Longrightarrow> cw_servers w' = cw_servers w \<Longrightarrow> server_slot m w' = server_slot m w"
  by (simp_all add: config_slot_def server_slot_def fun_eq_iff)

lemma server_slot_live: "server_slot m w (Some s) = Some p \<Longrightarrow> s \<in> dom (cw_servers w)"
  by (auto simp: server_slot_def bind_eq_Some_conv)

lemma mount_cmd_ignored:
  "mount_cmd fp_merge stat g sc uri root = (g', sc', log) \<Longrightarrow> log \<noteq> [] \<Longrightarrow> g' = g \<and> sc' = sc"
  by (auto simp: mount_cmd_def split: prod.splits option.splits if_splits)

text \<open>What a run directive did: a mount on the slot of its server, an option on the slot of its section.\<close>

lemma mount_directive_cases:
  assumes "mount_directive fp_merge stat m cmd uri root w = Some w'" "vectors_ok m w"
  obtains s where "mount_cmd fp_merge stat (cw_conf w) (srvconf_at m w s) uri root =
      (cw_conf w', srvconf_at m w' s, snd (snd (mount_cmd fp_merge stat (cw_conf w) (srvconf_at m w s) uri root)))"
    "\<And>s'. s' \<noteq> s \<Longrightarrow> srvconf_at m w' s' = srvconf_at m w s'"
    "cw_vectors w' = cw_vectors w" "cw_servers w' = cw_servers w" "cw_dirconfs w' = cw_dirconfs w"
    "dom (cw_srvconfs w') = dom (cw_srvconfs w)"
proof -
  from assms(1) obtain p where p: "server_slot m w (cp_server cmd) = Some p"
    by (auto simp: mount_directive_def split: option.splits)
  then obtain s where s: "cp_server cmd = Some s" by (cases "cp_server cmd") (auto simp: server_slot_def)
  have "s \<in> dom (cw_servers w)" using p s server_slot_live by simp
  then obtain a where "a \<in> dom (cw_srvconfs w)" "server_slot m w (Some s) = Some (Some a)"
    using assms(2) unfolding vectors_ok_def by blast
  then obtain sc0 where a: "p = Some a" "cw_srvconfs w a = Some sc0" using p s by auto
  have at: "srvconf_at m w s = sc0" using p s a by (simp add: srvconf_at_def)
  obtain g sc log where m: "mount_cmd fp_merge stat (cw_conf w) sc0 uri root = (g, sc, log)" by (metis prod_cases3)
  show thesis
  proof (cases "log = []")
    case False
    with assms(1) p a m have "w' = w" by (simp add: mount_directive_def)
    moreover from mount_cmd_ignored [OF m False] have "g = cw_conf w" "sc = sc0" by simp_all
    ultimately show thesis using that [of s] m at by simp
  next
    case True
    with assms(1) p a m have w': "w' = w\<lparr>cw_conf := g, cw_srvconfs := (cw_srvconfs w)(a \<mapsto> sc)\<rparr>"
      by (simp add: mount_directive_def)
    have slots: "server_slot m w' = server_slot m w" by (rule slots_cong) (simp_all add: w')
    have "srvconf_at m w' s' = srvconf_at m w s'" if "s' \<noteq> s" for s'
    proof (cases "Option.bind (server_slot m w (Some s')) id")
      case (Some a')
      then have "server_slot m w (Some s') = Some (Some a')" by (cases "server_slot m w (Some s')") auto
      with assms(2) p s a that have "a' \<noteq> a" unfolding vectors_ok_def by metis
      with Some show ?thesis by (simp add: srvconf_at_def slots) (simp add: w')
    qed (simp add: srvconf_at_def slots)
    moreover have "srvconf_at m w' s = sc" using p s a by (simp add: srvconf_at_def slots) (simp add: w')
    ultimately show thesis using that [of s] m at a by (auto simp: w')
  qed
qed

lemma enable_directive_cases:
  assumes "enable_directive getword mconfig enables w = Some w'"
  obtains a d msg where "set_aspnet_enable getword (dirconf_at w a) enables = Some (d, msg)"
    "w' = w\<lparr>cw_dirconfs := (cw_dirconfs w)(a \<mapsto> d)\<rparr>"
proof -
  from assms obtain a d0 where a: "mconfig = Some a" "cw_dirconfs w a = Some d0"
    by (auto simp: enable_directive_def split: option.splits)
  with assms obtain d msg where "set_aspnet_enable getword d0 enables = Some (d, msg)"
      "w' = w\<lparr>cw_dirconfs := (cw_dirconfs w)(a \<mapsto> d)\<rparr>"
    by (auto simp: enable_directive_def)
  with a show thesis using that [of a d msg] by (simp add: dirconf_at_def)
qed

lemma directive_stepE:
  assumes "directive_step fp_merge stat getword m place w w'" "vectors_ok m w"
  shows "vectors_ok m w' \<and> cw_vectors w' = cw_vectors w \<and> cw_servers w' = cw_servers w \<and>
    config_step fp_merge stat getword place (memory_config m w) (memory_config m w')"
  using assms(1)
proof cases
  case (run cmd f args mconfig)
  have step: "config_step fp_merge stat getword place (memory_config m w) c"
    if "run_command fp_merge stat getword f args s d (memory_config m w) = Some c" for s d c
    using that run by (intro directive)
  from command_cases [OF run(1,2)] run(4) show ?thesis
  proof (elim disjE conjE)
    assume k: "f = Fn_set_aspnet_enable" "args_how (cp_cmd cmd) = RAW_ARGS" "fits (args_how (cp_cmd cmd)) args"
    then obtain line where a: "args = RawArgs line" by (cases args) auto
    with run(7) k(1) have "enable_directive getword mconfig line w = Some w'" by simp
    then obtain b d msg where e: "set_aspnet_enable getword (dirconf_at w b) line = Some (d, msg)"
        "w' = w\<lparr>cw_dirconfs := (cw_dirconfs w)(b \<mapsto> d)\<rparr>"
      by (rule enable_directive_cases)
    have slots: "config_slot m w' = config_slot m w" "server_slot m w' = server_slot m w"
      by (rule slots_cong; simp add: e)+
    have "memory_config m w' = memory_config m w\<lparr>cf_dirs := (cf_dirs (memory_config m w))(b := d)\<rparr>"
      by (simp add: memory_config_def srvconf_at_def [abs_def] dirconf_at_def fun_eq_iff slots) (simp add: e)
    moreover have "vectors_ok m w'" using assms(2) unfolding vectors_ok_def slots by (simp add: e)
    ultimately show ?thesis using step [of 0 b] e k a by (simp add: memory_config_def)
  next
    assume k: "f = Fn_version_cmd" "args_how (cp_cmd cmd) = TAKE1" "fits (args_how (cp_cmd cmd)) args"
    then obtain ver where a: "args = Args1 ver" by (cases args) auto
    with run(7) k(1) have e: "w' = w\<lparr>cw_conf := version_cmd (cw_conf w) ver\<rparr>" by simp
    have slots: "config_slot m w' = config_slot m w" "server_slot m w' = server_slot m w"
      by (rule slots_cong; simp add: e)+
    have "memory_config m w' = memory_config m w\<lparr>cf_conf := version_cmd (cw_conf w) ver\<rparr>"
      by (simp add: memory_config_def srvconf_at_def [abs_def] dirconf_at_def [abs_def] slots) (simp add: e)
    moreover have "vectors_ok m w'" using assms(2) unfolding vectors_ok_def slots by (simp add: e)
    ultimately show ?thesis using step [of 0 0] e k a by (simp add: memory_config_def)
  next
    assume k: "f = Fn_mount_cmd" "args_how (cp_cmd cmd) = TAKE2" "fits (args_how (cp_cmd cmd)) args"
    then obtain uri root where a: "args = Args2 uri root" by (cases args) auto
    with run(7) k(1) have "mount_directive fp_merge stat m cmd uri root w = Some w'" by simp
    from mount_directive_cases [OF this assms(2)] obtain s log where e:
        "mount_cmd fp_merge stat (cw_conf w) (srvconf_at m w s) uri root = (cw_conf w', srvconf_at m w' s, log)"
        "\<And>s'. s' \<noteq> s \<Longrightarrow> srvconf_at m w' s' = srvconf_at m w s'"
        "cw_vectors w' = cw_vectors w" "cw_servers w' = cw_servers w" "cw_dirconfs w' = cw_dirconfs w"
        "dom (cw_srvconfs w') = dom (cw_srvconfs w)" by metis
    have slots: "config_slot m w' = config_slot m w" "server_slot m w' = server_slot m w"
      by (rule slots_cong; simp add: e)+
    have "srvconf_at m w' = (srvconf_at m w)(s := srvconf_at m w' s)" using e(2) by (auto simp: fun_eq_iff)
    then have "memory_config m w' = memory_config m w\<lparr>cf_conf := cw_conf w', cf_servers := (srvconf_at m w)(s := srvconf_at m w' s)\<rparr>"
      using e(5) by (simp add: memory_config_def dirconf_at_def [abs_def])
    moreover have "vectors_ok m w'" using assms(2) unfolding vectors_ok_def slots by (simp add: e)
    ultimately show ?thesis using step [of s 0] e(1,3,4) k a by (simp add: memory_config_def)
  qed
qed

section \<open>Properties\<close>

definition directives_run where
  "directives_run fp_merge stat getword m = rtranclp (\<lambda>w w'. \<exists>place. directive_step fp_merge stat getword m place w w')"

lemma directives_run_memory:
  assumes "directives_run fp_merge stat getword m w w'" "vectors_ok m w"
  shows "vectors_ok m w' \<and> cw_vectors w' = cw_vectors w \<and> cw_servers w' = cw_servers w \<and>
    config_run fp_merge stat getword (memory_config m w) (memory_config m w')"
  using assms(1) unfolding directives_run_def
proof (induction rule: rtranclp_induct)
  case base
  show ?case using assms(2) by (simp add: config_run_def)
next
  case (step w1 w2)
  then obtain place where "directive_step fp_merge stat getword m place w1 w2" by blast
  from directive_stepE [OF this] step(3)
  have "vectors_ok m w2 \<and> cw_vectors w2 = cw_vectors w \<and> cw_servers w2 = cw_servers w"
    and st: "config_step fp_merge stat getword place (memory_config m w1) (memory_config m w2)" by simp_all
  moreover have "config_run fp_merge stat getword (memory_config m w) (memory_config m w2)"
    using step(3) st unfolding config_run_def by (auto intro: rtranclp.rtrancl_into_rtrancl)
  ultimately show ?case by blast
qed

text \<open>A sample memory: one server, and one section; the module has the middle slot of three.\<close>

definition sample_server :: server_rec where
  "sample_server = \<lparr>svr_process = None, svr_next = None, svr_error_fname = None, svr_error_log = None,
     svr_log = \<lparr>lg_module_levels = None, lg_level = 4\<rparr>, svr_module_config = Some 20, svr_lookup_defaults = Some 21,
     svr_defn_name = None, svr_defn_line_number = 0, svr_is_virtual = 0, svr_port = 80, svr_server_scheme = None,
     svr_server_admin = None, svr_server_hostname = None, svr_addrs = None, svr_timeout = 0, svr_keep_alive_timeout = 0,
     svr_keep_alive_max = 0, svr_keep_alive = 0, svr_names = None, svr_wild_names = None, svr_path = None, svr_pathlen = 0,
     svr_limit_req_line = 0, svr_limit_req_fieldsize = 0, svr_limit_req_fields = 0, svr_context = None,
     svr_keep_alive_timeout_set = False\<rparr>"

definition sample_memory :: conf_world where
  "sample_memory = \<lparr>cw_vectors = [20 \<mapsto> [None, Some 30, None], 21 \<mapsto> [Some 9, Some 31, None]],
     cw_servers = [10 \<mapsto> sample_server], cw_srvconfs = [30 \<mapsto> create_asp_net_srvconf],
     cw_dirconfs = [31 \<mapsto> create_asp_net_dirconf], cw_conf = new_asp_net_conf\<rparr>"

definition sample_module :: module_struct where
  "sample_module = added_module ''mod_aspdotnet.cpp'' 1"

definition sample_parms :: cmd_parms where
  "sample_parms = \<lparr>cp_info = None, cp_override = RSRC_CONF, cp_override_opts = 0, cp_override_list = None, cp_limited = 0,
     cp_limited_xmethods = None, cp_xlimited = None, cp_config_file = None, cp_directive = None, cp_pool = None,
     cp_temp_pool = None, cp_server = Some 10, cp_path = None, cp_cmd = asp_net_cmds ! 2, cp_context = Some 21,
     cp_err_directive = None\<rparr>"

lemma sample_slots:
  "config_slot sample_module sample_memory (Some 21) = Some (Some 31)"
  "server_slot sample_module sample_memory (Some s) = (if s = 10 then Some (Some 30) else None)"
  by (simp_all add: config_slot_def server_slot_def sample_memory_def sample_module_def added_module_def sample_server_def
      ap_get_module_config_def in_vector_def)

lemma sample_vectors_ok: "vectors_ok sample_module sample_memory"
  by (auto simp: vectors_ok_def sample_slots split: if_splits) (simp_all add: sample_memory_def split: if_splits)

text \<open>The memory after \<open>AspNetMount /app C:\<close>.\<close>

definition mounted_memory :: conf_world where
  "mounted_memory = (case mount_cmd (\<lambda>r. (APR_SUCCESS, Some r)) (\<lambda>_. (APR_SUCCESS, APR_DIR)) new_asp_net_conf
       create_asp_net_srvconf ''/app'' ''C:'' of
     (g, sc, log) \<Rightarrow> sample_memory\<lparr>cw_conf := g, cw_srvconfs := [30 \<mapsto> sc]\<rparr>)"

lemma sample_directive:
  "directives_run (\<lambda>r. (APR_SUCCESS, Some r)) (\<lambda>_. (APR_SUCCESS, APR_DIR)) (\<lambda>s. (s, [])) sample_module
     sample_memory mounted_memory"
proof -
  have m: "cw_conf sample_memory = new_asp_net_conf" "cw_srvconfs sample_memory = [30 \<mapsto> create_asp_net_srvconf]"
    by (simp_all add: sample_memory_def)
  obtain g sc where k: "mount_cmd (\<lambda>r. (APR_SUCCESS, Some r)) (\<lambda>_. (APR_SUCCESS, APR_DIR)) new_asp_net_conf
      create_asp_net_srvconf ''/app'' ''C:'' = (g, sc, [])"
    by (cases "mount_host new_asp_net_conf ''/app'' ''C:''") (simp add: mount_cmd_def)
  have "directive_step (\<lambda>r. (APR_SUCCESS, Some r)) (\<lambda>_. (APR_SUCCESS, APR_DIR)) (\<lambda>s. (s, [])) sample_module RSRC_CONF
     sample_memory mounted_memory"
  proof (rule run [where cmd = sample_parms and f = Fn_mount_cmd and args = "Args2 ''/app'' ''C:''" and mconfig = "Some 31"])
    show "config_slot sample_module sample_memory (cp_context sample_parms) = Some (Some 31)"
      by (simp add: sample_parms_def sample_slots)
    have "cp_server sample_parms = Some 10" by (simp add: sample_parms_def)
    then show "run_directive (\<lambda>r. (APR_SUCCESS, Some r)) (\<lambda>_. (APR_SUCCESS, APR_DIR)) (\<lambda>s. (s, [])) sample_module
        Fn_mount_cmd (Args2 ''/app'' ''C:'') sample_parms (Some 31) sample_memory = Some mounted_memory"
      by (simp add: mount_directive_def sample_slots m mounted_memory_def k)
  qed (auto simp: sample_parms_def asp_net_cmds_def AP_INIT_TAKE2_def RSRC_CONF_def)
  then show ?thesis unfolding directives_run_def by blast
qed

text \<open>C4: reading a configuration in memory, every structure behind the vector of its server or section and the
  index of the module, does what reading it as functions does: each directive that runs is a step
  of \<open>Module_Table\<close>, on the server and the section its parameters lead to and on no other, and
  no vector and no server structure is written.\<close>

theorem memory_refines_configuration:
  assumes "vectors_ok m w" "directives_run fp_merge stat getword m w w'"
  shows "config_run fp_merge stat getword (memory_config m w) (memory_config m w') \<and>
    vectors_ok m w' \<and> cw_vectors w' = cw_vectors w \<and> cw_servers w' = cw_servers w"
  using directives_run_memory [OF assms(2,1)] by simp

theorem memory_refines_configuration_witness:
  "config_run (\<lambda>r. (APR_SUCCESS, Some r)) (\<lambda>_. (APR_SUCCESS, APR_DIR)) (\<lambda>s. (s, []))
     (memory_config sample_module sample_memory) (memory_config sample_module mounted_memory)"
  using memory_refines_configuration [OF sample_vectors_ok sample_directive] by blast

text \<open>The handler follows no null pointer when the mounts of the server lead to host records.\<close>

lemma handler_no_fault:
  assumes "aliases_wf g sc" "set (iter sc) = ran (sc_aliases sc)" "g_pHostFactory g \<noteq> None"
  shows "fst (asp_net_handler handle cv cg ciex ci iter g sc dc r f) \<noteq> HandlerFault"
proof -
  have "\<exists>h. g_host_store g a = Some h" if a: "find_mount (iter sc) uri = Some a" for a uri
  proof -
    have "\<forall>al\<in>set (iter sc). al_virtual_path_len al = length (al_virtual_path al)"
      using assms(1,2) by (auto simp: aliases_wf_def ran_def)
    from find_mount_Some [OF a this] obtain al where "al \<in> set (iter sc)" "al_host al = a" by blast
    moreover from this(1) obtain u where "sc_aliases sc u = Some al" using assms(2) by (auto simp: ran_def)
    ultimately show ?thesis using assms(1) by (auto simp: aliases_wf_def)
  qed
  note store = this
  show ?thesis
  proof (cases "find_mount (iter sc) (the (r_uri r))")
    case (Some a)
    then obtain h p where "g_host_store g a = Some h" "g_pHostFactory g = Some p" using store assms(3) by blast
    with Some show ?thesis by (simp add: asp_net_handler_def Let_def split: option.split prod.split)
  qed (simp add: asp_net_handler_def split: option.split prod.split)
qed

lemma handler_lookups_live:
  assumes "server_slot m w (r_server r) = Some (Some a)" "cw_srvconfs w a = Some sc"
    "config_slot m w (r_per_dir_config r) = Some (Some d)" "cw_dirconfs w d = Some dc"
  shows "handler_lookups handle cv cg ciex ci iter m w r f = asp_net_handler handle cv cg ciex ci iter (cw_conf w) sc dc r f"
  using assms by (auto simp: handler_lookups_def asp_net_handler_def check_request_def split: option.split)

lemma aliases_wf_keys_only:
  assumes "aliases_wf g sc"
    "\<forall>a h. g_host_store g a = Some h \<longrightarrow> (\<exists>h'. g_host_store g' a = Some h' \<and> h_virtual_path h' = h_virtual_path h)"
  shows "aliases_wf g' sc"
  using assms unfolding aliases_wf_def by metis

text \<open>C3: whatever configuration was read into memory as httpd sets it up, and once the start has given the
  host records their keys and the global structure its factory: a request to one of the servers, with the
  options of any section, is handled with the mounts the directives gave that server and the
  options they gave that section, every option one of those the handler knows, and no pointer of the
  way to them or of the mounts is null.\<close>

theorem configured_handler:
  assumes "vectors_ok m w" "memory_config m w = new_config (cw_conf w)" "hosts_wf (cw_conf w)" "consumes_words getword"
    and "directives_run fp_merge stat getword m w w'"
    and "\<forall>a h. g_host_store (cw_conf w') a = Some h \<longrightarrow> (\<exists>h'. g_host_store g a = Some h' \<and> h_virtual_path h' = h_virtual_path h)"
    "g_pHostFactory g \<noteq> None"
    and "r_server r = Some s" "s \<in> dom (cw_servers w)"
    and "config_slot m w' (r_per_dir_config r) = Some (Some d)" "cw_dirconfs w' d = Some dc"
    and "set (iter (cf_servers (memory_config m w') s)) = ran (sc_aliases (cf_servers (memory_config m w') s))"
  shows "handler_lookups handle cv cg ciex ci iter m (w'\<lparr>cw_conf := g\<rparr>) r f =
      asp_net_handler handle cv cg ciex ci iter g (cf_servers (memory_config m w') s) (cf_dirs (memory_config m w') d) r f \<and>
    dc_enable (cf_dirs (memory_config m w') d) \<in> insert ASPNET_UNSET flag_values \<and>
    fst (handler_lookups handle cv cg ciex ci iter m (w'\<lparr>cw_conf := g\<rparr>) r f) \<noteq> HandlerFault"
proof -
  from directives_run_memory [OF assms(5,1)] have ok: "vectors_ok m w'" "cw_servers w' = cw_servers w"
    and run: "config_run fp_merge stat getword (memory_config m w) (memory_config m w')" by simp_all
  from config_run_keeps [OF run _ assms(4)] new_config_wf [OF assms(3)] assms(2)
  have wf: "config_wf (memory_config m w')" by simp
  obtain a where a: "a \<in> dom (cw_srvconfs w')" "server_slot m w' (Some s) = Some (Some a)"
    using ok assms(9) unfolding vectors_ok_def by metis
  then obtain sc where sc: "cw_srvconfs w' a = Some sc" by blast
  have at: "cf_servers (memory_config m w') s = sc" "cf_dirs (memory_config m w') d = dc"
    using a(2) sc assms(11) by (simp_all add: memory_config_def srvconf_at_def dirconf_at_def)
  have slots: "config_slot m (w'\<lparr>cw_conf := g\<rparr>) = config_slot m w'" "server_slot m (w'\<lparr>cw_conf := g\<rparr>) = server_slot m w'"
    by (rule slots_cong; simp)+
  have h: "handler_lookups handle cv cg ciex ci iter m (w'\<lparr>cw_conf := g\<rparr>) r f = asp_net_handler handle cv cg ciex ci iter g sc dc r f"
    using handler_lookups_live [of m "w'\<lparr>cw_conf := g\<rparr>" r a sc d dc] a(2) sc assms(8,10,11) by (simp add: slots)
  have "aliases_wf (cw_conf w') sc" using wf at by (auto simp: config_wf_def memory_config_def)
  from handler_no_fault [where iter = iter, OF aliases_wf_keys_only [OF this assms(6)] assms(12) [unfolded at] assms(7)]
  have "fst (handler_lookups handle cv cg ciex ci iter m (w'\<lparr>cw_conf := g\<rparr>) r f) \<noteq> HandlerFault" by (simp add: h)
  moreover have "dc_enable dc \<in> insert ASPNET_UNSET flag_values" using wf at by (auto simp: config_wf_def)
  ultimately show ?thesis by (simp add: h at)
qed

definition vector_request :: request_rec where
  "vector_request = request_zero\<lparr>r_handler := Some ''asp.net'', r_uri := Some ''/app/x'', r_server := Some 10,
     r_per_dir_config := Some 21\<rparr>"

theorem configured_handler_witness:
  "fst (handler_lookups (\<lambda>k r f. (Inr 200, r, f)) id id S_OK S_OK
      (\<lambda>_. [\<lparr>al_virtual_path_len = 4, al_virtual_path = ''/app'', al_host = 0\<rparr>]) sample_module
      (mounted_memory\<lparr>cw_conf := (cw_conf mounted_memory)\<lparr>g_pHostFactory := Some 1\<rparr>\<rparr>) vector_request ()) \<noteq> HandlerFault"
proof -
  have fresh: "memory_config sample_module sample_memory = new_config (cw_conf sample_memory)"
    by (simp add: memory_config_def new_config_def srvconf_at_def [abs_def] dirconf_at_def [abs_def] sample_slots fun_eq_iff)
      (simp add: sample_memory_def)
  have wf: "hosts_wf (cw_conf sample_memory)" by (simp add: sample_memory_def hosts_wf_def new_asp_net_conf_def)
  have words: "consumes_words (\<lambda>s. (s, []))" by (simp add: consumes_words_def)
  have same: "cw_vectors mounted_memory = cw_vectors sample_memory" "cw_servers mounted_memory = cw_servers sample_memory"
      "cw_dirconfs mounted_memory = [31 \<mapsto> create_asp_net_dirconf]"
    by (simp_all add: mounted_memory_def split_beta) (simp add: sample_memory_def)
  note slots = slots_cong(1) [OF same(1), of sample_module] slots_cong(2) [OF same(1,2), of sample_module]
  have "sc_aliases (cf_servers (memory_config sample_module mounted_memory) 10) =
      [''/app'' \<mapsto> \<lparr>al_virtual_path_len = 4, al_virtual_path = ''/app'', al_host = 0\<rparr>]"
    by (simp add: memory_config_def srvconf_at_def slots sample_slots)
      (simp add: mounted_memory_def mount_cmd_def mount_host_def new_asp_net_conf_def create_asp_net_srvconf_def
        eval_nat_numeral)
  then have iter: "set [\<lparr>al_virtual_path_len = 4, al_virtual_path = ''/app'', al_host = 0\<rparr>] =
      ran (sc_aliases (cf_servers (memory_config sample_module mounted_memory) 10))" by simp
  have r: "r_server vector_request = Some 10" "config_slot sample_module mounted_memory (r_per_dir_config vector_request) = Some (Some 31)"
    by (simp_all add: vector_request_def slots sample_slots)
  let ?g = "(cw_conf mounted_memory)\<lparr>g_pHostFactory := Some 1\<rparr>"
  have g: "\<forall>a h. g_host_store (cw_conf mounted_memory) a = Some h \<longrightarrow>
      (\<exists>h'. g_host_store ?g a = Some h' \<and> h_virtual_path h' = h_virtual_path h)" "g_pHostFactory ?g \<noteq> None"
    by simp_all
  have live: "10 \<in> dom (cw_servers sample_memory)" "cw_dirconfs mounted_memory 31 = Some create_asp_net_dirconf"
    by (simp_all add: same(3)) (simp add: sample_memory_def)
  show ?thesis
    by (rule configured_handler [OF sample_vectors_ok fresh wf words sample_directive g r(1) live(1) r(2) live(2),
          THEN conjunct2, THEN conjunct2]) (rule iter)
qed

lemma enable_directive_vectors:
  "enable_directive getword p s (w\<lparr>cw_vectors := V\<rparr>) =
     map_option (\<lambda>u. u\<lparr>cw_vectors := V\<rparr>) (enable_directive getword p s w)"
  by (auto simp: enable_directive_def option.map_comp o_def split: option.split prod.split intro!: option.map_cong0)

lemma mount_directive_vectors:
  "server_slot m (w\<lparr>cw_vectors := V\<rparr>) = server_slot m w \<Longrightarrow>
   mount_directive fp_merge stat m cmd s t (w\<lparr>cw_vectors := V\<rparr>) =
     map_option (\<lambda>u. u\<lparr>cw_vectors := V\<rparr>) (mount_directive fp_merge stat m cmd s t w)"
  by (simp add: mount_directive_def split: option.split prod.split)

text \<open>The vectors are shared, but not their slots: what another module stores under its own index, into the
  vector of any server or section, changes neither what this module's directives and handler do nor the
  configuration that memory holds; and before httpd has given the module an index, a lookup
  would read outside of the vector.\<close>

theorem other_modules_apart:
  assumes "md_module_index m' \<noteq> md_module_index m" "cw_vectors w v = Some vec" "ap_set_module_config vec m' val = Some vec'"
  shows "handler_lookups handle cv cg ciex ci iter m (w\<lparr>cw_vectors := (cw_vectors w)(v \<mapsto> vec')\<rparr>) r f =
      handler_lookups handle cv cg ciex ci iter m w r f \<and>
    run_directive fp_merge stat getword m fn args cmd p (w\<lparr>cw_vectors := (cw_vectors w)(v \<mapsto> vec')\<rparr>) =
      map_option (\<lambda>u. u\<lparr>cw_vectors := (cw_vectors w)(v \<mapsto> vec')\<rparr>) (run_directive fp_merge stat getword m fn args cmd p w) \<and>
    memory_config m (w\<lparr>cw_vectors := (cw_vectors w)(v \<mapsto> vec')\<rparr>) = memory_config m w \<and>
    ap_get_module_config vec' m' = Some val \<and> ap_get_module_config vec (aspdotnet_module src) = None"
proof -
  define w' where "w' = w\<lparr>cw_vectors := (cw_vectors w)(v \<mapsto> vec')\<rparr>"
  have l: "in_vector vec m'" "vec' = vec[nat (md_module_index m') := val]"
    using assms(3) by (auto simp: ap_set_module_config_def split: if_splits)
  have get: "ap_get_module_config vec' m = ap_get_module_config vec m"
    using l assms(1) by (auto simp: ap_get_module_config_def in_vector_def)
  have slot: "config_slot m w' = config_slot m w"
  proof
    fix p show "config_slot m w' p = config_slot m w p"
      using get assms(2) by (cases p) (auto simp: config_slot_def w'_def)
  qed
  have w': "cw_servers w' = cw_servers w" "cw_srvconfs w' = cw_srvconfs w" "cw_dirconfs w' = cw_dirconfs w"
      "cw_conf w' = cw_conf w" "cw_vectors w' = (cw_vectors w)(v \<mapsto> vec')"
    by (simp_all add: w'_def)
  have server: "server_slot m w' = server_slot m w" by (simp add: server_slot_def fun_eq_iff slot w')
  have "handler_lookups handle cv cg ciex ci iter m w' r f = handler_lookups handle cv cg ciex ci iter m w r f"
    by (simp only: handler_lookups_def slot server w')
  moreover have "run_directive fp_merge stat getword m fn args cmd p w' =
      map_option (\<lambda>u. u\<lparr>cw_vectors := (cw_vectors w)(v \<mapsto> vec')\<rparr>) (run_directive fp_merge stat getword m fn args cmd p w)"
    unfolding w'_def
    by (cases "(fp_merge, stat, getword, m, fn, args, cmd, p, w)" rule: run_directive.cases)
      (simp_all add: enable_directive_vectors mount_directive_vectors server [unfolded w'_def])
  moreover have "memory_config m w' = memory_config m w"
    by (simp add: memory_config_def srvconf_at_def [abs_def] dirconf_at_def [abs_def] server w')
  moreover have "ap_get_module_config vec' m' = Some val" using l by (auto simp: ap_get_module_config_def in_vector_def)
  moreover have "ap_get_module_config vec (aspdotnet_module src) = None"
    by (simp add: ap_get_module_config_def in_vector_def aspdotnet_module_def STANDARD20_MODULE_STUFF_def)
  ultimately show ?thesis unfolding w'_def by simp
qed

theorem other_modules_apart_witness:
  "ap_get_module_config [Some 5, Some 31, None] (added_module ''mod_other.c'' 0) = Some (Some 5) \<and>
   memory_config sample_module (sample_memory\<lparr>cw_vectors := (cw_vectors sample_memory)(21 \<mapsto> [Some 5, Some 31, None])\<rparr>) =
     memory_config sample_module sample_memory"
proof -
  have a: "md_module_index (added_module ''mod_other.c'' 0) \<noteq> md_module_index sample_module"
    by (simp add: sample_module_def added_module_def)
  have b: "cw_vectors sample_memory 21 = Some [Some 9, Some 31, None]" by (simp add: sample_memory_def)
  have c: "ap_set_module_config [Some 9, Some 31, None] (added_module ''mod_other.c'' 0) (Some 5) = Some [Some 5, Some 31, None]"
    by (simp add: ap_set_module_config_def in_vector_def added_module_def)
  show ?thesis
    using other_modules_apart [OF a b c, where handle = "\<lambda>k r f. (Inr 0, r, ())" and cv = id and cg = id and
        iter = "\<lambda>_. []" and r = request_zero and fn = Fn_version_cmd and args = "Args1 []" and cmd = sample_parms]
    by blast
qed

end
