(* ===== verification/Log_Levels.thy ===== *)
theory Log_Levels
  imports Server_Config Module_Startup
begin

text \<open>
  The levels of \<open>http_log.h\<close>, and its tests, with those of \<open>http_config.h\<close> they use, that
  say whether a message is logged under a server's, a connection's or a request's configuration: what
  an administrator sees of the messages of \<open>mod/mod_aspdotnet.cpp\<close>. A start that fails leaves a
  message that no configuration suppresses, and a start that succeeds leaves no message of a failure.
\<close>

section \<open>Levels\<close>

definition APLOG_EMERG :: "32 word" where "APLOG_EMERG = 0"
definition APLOG_ALERT :: "32 word" where "APLOG_ALERT = 1"
definition APLOG_TRACE1 :: "32 word" where "APLOG_TRACE1 = 8"
definition APLOG_TRACE2 :: "32 word" where "APLOG_TRACE2 = 9"
definition APLOG_TRACE3 :: "32 word" where "APLOG_TRACE3 = 10"
definition APLOG_TRACE4 :: "32 word" where "APLOG_TRACE4 = 11"
definition APLOG_TRACE5 :: "32 word" where "APLOG_TRACE5 = 12"
definition APLOG_TRACE6 :: "32 word" where "APLOG_TRACE6 = 13"
definition APLOG_TRACE7 :: "32 word" where "APLOG_TRACE7 = 14"
definition APLOG_TRACE8 :: "32 word" where "APLOG_TRACE8 = 15"
definition APLOG_TOCLIENT :: "32 word" where "APLOG_TOCLIENT = (APLOG_LEVELMASK + 1) * 2"
definition APLOG_STARTUP :: "32 word" where "APLOG_STARTUP = (APLOG_LEVELMASK + 1) * 4"
definition DEFAULT_LOGLEVEL :: "32 word" where "DEFAULT_LOGLEVEL = APLOG_WARNING"
definition APLOG_NO_MODULE :: int where "APLOG_NO_MODULE = -1"

section \<open>The level of a server, a connection, a request\<close>

text \<open>An index past the array of the module levels is \<open>None\<close>, as is a pointer that leads nowhere.\<close>

definition ap_get_module_loglevel :: "ap_logconf \<Rightarrow> int \<Rightarrow> int option" where
  "ap_get_module_loglevel l i =
     (if i < 0 then Some (lg_level l)
      else case lg_module_levels l of None \<Rightarrow> Some (lg_level l)
      | Some levels \<Rightarrow>
          if nat i < length levels then
            Some (if sint (levels ! nat i) < 0 then lg_level l else sint (levels ! nat i))
          else None)"

definition ap_get_server_module_loglevel :: "server_rec \<Rightarrow> int \<Rightarrow> int option" where
  "ap_get_server_module_loglevel s i = ap_get_module_loglevel (svr_log s) i"

text \<open>\<open>logs\<close> and \<open>servers\<close> are what the pointers lead to.\<close>

definition ap_get_conn_logconf :: "(addr \<rightharpoonup> ap_logconf) \<Rightarrow> (addr \<rightharpoonup> server_rec) \<Rightarrow> conn_rec \<Rightarrow> ap_logconf option" where
  "ap_get_conn_logconf logs servers c =
     (case c_log c of Some l \<Rightarrow> logs l | None \<Rightarrow> map_option svr_log (Option.bind (c_base_server c) servers))"

text \<open>\<open>log_at\<close> is where the \<open>log\<close> of a server lies: the address is compared, not followed.\<close>

definition ap_get_conn_server_logconf ::
  "(addr \<Rightarrow> addr) \<Rightarrow> (addr \<rightharpoonup> ap_logconf) \<Rightarrow> (addr \<rightharpoonup> server_rec) \<Rightarrow> conn_rec \<Rightarrow> ptr \<Rightarrow> ap_logconf option" where
  "ap_get_conn_server_logconf log_at logs servers c s =
     (if c_log c \<noteq> map_option log_at (c_base_server c) \<and> c_log c \<noteq> None then Option.bind (c_log c) logs
      else map_option svr_log (Option.bind s servers))"

definition ap_get_request_logconf :: "(addr \<rightharpoonup> ap_logconf) \<Rightarrow> (addr \<rightharpoonup> server_rec) \<Rightarrow> request_rec \<Rightarrow> ap_logconf option" where
  "ap_get_request_logconf logs servers r =
     (case r_log r of Some l \<Rightarrow> logs l
      | None \<Rightarrow> (case c_log (r_connection r) of Some l \<Rightarrow> logs l
                 | None \<Rightarrow> map_option svr_log (Option.bind (r_server r) servers)))"

definition ap_get_conn_module_loglevel where
  "ap_get_conn_module_loglevel logs servers c i =
     Option.bind (ap_get_conn_logconf logs servers c) (\<lambda>l. ap_get_module_loglevel l i)"

definition ap_get_conn_server_module_loglevel where
  "ap_get_conn_server_module_loglevel log_at logs servers c s i =
     Option.bind (ap_get_conn_server_logconf log_at logs servers c s) (\<lambda>l. ap_get_module_loglevel l i)"

definition ap_get_request_module_loglevel where
  "ap_get_request_module_loglevel logs servers r i =
     Option.bind (ap_get_request_logconf logs servers r) (\<lambda>l. ap_get_module_loglevel l i)"

section \<open>The tests\<close>

definition masked :: "32 word \<Rightarrow> 32 word" where
  "masked level = level AND APLOG_LEVELMASK"

definition APLOG_MODULE_IS_LEVEL :: "server_rec option \<Rightarrow> int \<Rightarrow> 32 word \<Rightarrow> bool option" where
  "APLOG_MODULE_IS_LEVEL s module_index level =
     (if masked level \<le> APLOG_NOTICE then Some True
      else case s of None \<Rightarrow> Some True
      | Some s \<Rightarrow> map_option (\<lambda>l. l \<ge> uint (masked level)) (ap_get_server_module_loglevel s module_index))"

definition APLOG_C_MODULE_IS_LEVEL where
  "APLOG_C_MODULE_IS_LEVEL logs servers c module_index level =
     (if masked level \<le> APLOG_NOTICE then Some True
      else map_option (\<lambda>l. l \<ge> uint (masked level)) (ap_get_conn_module_loglevel logs servers c module_index))"

definition APLOG_CS_MODULE_IS_LEVEL where
  "APLOG_CS_MODULE_IS_LEVEL log_at logs servers c s module_index level =
     (if masked level \<le> APLOG_NOTICE then Some True
      else map_option (\<lambda>l. l \<ge> uint (masked level)) (ap_get_conn_server_module_loglevel log_at logs servers c s module_index))"

definition APLOG_R_MODULE_IS_LEVEL where
  "APLOG_R_MODULE_IS_LEVEL logs servers r module_index level =
     (if masked level \<le> APLOG_NOTICE then Some True
      else map_option (\<lambda>l. l \<ge> uint (masked level)) (ap_get_request_module_loglevel logs servers r module_index))"

text \<open>\<open>APLOG_MODULE_INDEX\<close> of a C++ module is the index of the module itself.\<close>

definition APLOG_IS_LEVEL :: "module_struct \<Rightarrow> server_rec option \<Rightarrow> 32 word \<Rightarrow> bool option" where
  "APLOG_IS_LEVEL m s level = APLOG_MODULE_IS_LEVEL s (md_module_index m) level"

definition APLOG_C_IS_LEVEL where
  "APLOG_C_IS_LEVEL m logs servers c level = APLOG_C_MODULE_IS_LEVEL logs servers c (md_module_index m) level"

definition APLOG_CS_IS_LEVEL where
  "APLOG_CS_IS_LEVEL m log_at logs servers c s level =
     APLOG_CS_MODULE_IS_LEVEL log_at logs servers c s (md_module_index m) level"

definition APLOG_R_IS_LEVEL where
  "APLOG_R_IS_LEVEL m logs servers r level = APLOG_R_MODULE_IS_LEVEL logs servers r (md_module_index m) level"

definition APLOGinfo where "APLOGinfo m s = APLOG_IS_LEVEL m s APLOG_INFO"
definition APLOGdebug where "APLOGdebug m s = APLOG_IS_LEVEL m s APLOG_DEBUG"

lemmas is_level_defs = APLOG_MODULE_IS_LEVEL_def APLOG_C_MODULE_IS_LEVEL_def APLOG_R_MODULE_IS_LEVEL_def
  APLOG_IS_LEVEL_def APLOG_C_IS_LEVEL_def APLOG_R_IS_LEVEL_def

section \<open>Lemmas\<close>

text \<open>Under its own server a connection is tested as \<open>APLOG_C_MODULE_IS_LEVEL\<close> does.\<close>

lemma base_server_level:
  assumes "c_base_server c = Some b" "servers b = Some s" "logs (log_at b) = Some (svr_log s)"
  shows "APLOG_CS_MODULE_IS_LEVEL log_at logs servers c (Some b) i level = APLOG_C_MODULE_IS_LEVEL logs servers c i level"
  using assms by (auto simp: APLOG_CS_MODULE_IS_LEVEL_def APLOG_C_MODULE_IS_LEVEL_def ap_get_conn_server_module_loglevel_def
      ap_get_conn_module_loglevel_def ap_get_conn_server_logconf_def ap_get_conn_logconf_def split: option.split)

text \<open>A message as bad as a notice or worse, and a message of a failure.\<close>

definition always_logged :: "log_entry \<Rightarrow> bool" where
  "always_logged e \<longleftrightarrow> masked (log_level e) \<le> APLOG_NOTICE"

definition of_failure :: "log_entry \<Rightarrow> bool" where
  "of_failure e \<longleftrightarrow> masked (log_level e) \<le> APLOG_ERR"

lemma always_logged_passes:
  assumes "always_logged e"
  shows "APLOG_IS_LEVEL m s (log_level e) = Some True" "APLOG_C_IS_LEVEL m logs servers c (log_level e) = Some True"
    "APLOG_R_IS_LEVEL m logs servers r (log_level e) = Some True"
  using assms by (simp_all add: always_logged_def is_level_defs)

lemma masked_levels [simp]:
  "masked APLOG_CRIT = 2" "masked APLOG_ERR = 3" "masked (APLOG_ERR OR APLOG_NOERRNO) = 3"
  "masked (APLOG_NOTICE OR APLOG_NOERRNO) = 5" "masked (APLOG_DEBUG OR APLOG_NOERRNO) = 7"
  by (simp_all add: masked_def aplog_defs)

lemma failures_always_logged: "of_failure e \<Longrightarrow> always_logged e"
proof -
  have "APLOG_ERR \<le> APLOG_NOTICE" by (simp add: aplog_defs)
  then show "of_failure e \<Longrightarrow> always_logged e" unfolding of_failure_def always_logged_def by (rule order_trans [rotated])
qed

lemma log_kinds [simp]:
  "of_failure (LOG APLOG_CRIT rv t)" "of_failure (LOG APLOG_ERR rv t)" "of_failure (LOG (APLOG_ERR OR APLOG_NOERRNO) rv t)"
  "\<not> of_failure (LOG (APLOG_NOTICE OR APLOG_NOERRNO) rv t)" "\<not> of_failure (LOG (APLOG_DEBUG OR APLOG_NOERRNO) rv t)"
  by (simp_all add: of_failure_def) (simp_all add: APLOG_ERR_def)

text \<open>Every message of the handler is one of a failure.\<close>

lemma check_request_failures: "check_request dc r = Some (st, log) \<Longrightarrow> list_all of_failure log"
  by (auto simp: check_request_def check_filetype_def split: if_splits option.splits)

lemma handler_status_failures: "list_all of_failure (snd (handler_status res))"
  by (simp add: handler_status_def split: sum.split native_exn.split option.split)

lemma handler_failures:
  "list_all of_failure (snd (snd (snd (asp_net_handler handle cv cg ciex ci iter g sc dc r f))))"
  using check_request_failures [of dc r] handler_status_failures
  by (simp add: asp_net_handler_def Let_def split_beta split: option.split)

section \<open>The messages of the start\<close>

text \<open>What a part of the start logs; when it ends normally it has logged no failure.\<close>

definition quiet_success :: "'a eng \<Rightarrow> bool" where
  "quiet_success m \<longleftrightarrow>
     (\<forall>s. \<exists>new. es_log (snd (m s)) = es_log s @ new \<and>
        (\<forall>x. fst (m s) = Inr x \<longrightarrow> \<not> list_ex of_failure new))"

named_theorems quiet_intros

lemma quiet_successI:
  "(\<And>s. es_log (snd (m s)) = es_log s) \<Longrightarrow> quiet_success m"
  by (simp add: quiet_success_def)

lemma quiet_prims [quiet_intros]:
  "quiet_success (oreturn x)" "quiet_success (othrow e)" "quiet_success (oget h)" "quiet_success (es_emit ev)"
  "quiet_success (es_acquire p)" "quiet_success (es_release p)" "quiet_success (es_deref p)" "quiet_success (es_upd u)"
  by (rule quiet_successI; simp add: es_defs meth_defs split: option.split)+

lemma quiet_logs [quiet_intros]: "\<not> of_failure e \<Longrightarrow> quiet_success (es_logs e)"
  by (auto simp: quiet_success_def es_logs_def omap_def)

lemma quiet_obind [quiet_intros]:
  assumes "quiet_success m" "\<And>x. quiet_success (k x)"
  shows "quiet_success (obind m k)"
  unfolding quiet_success_def
proof
  fix s
  obtain r s1 where m: "m s = (r, s1)" by fastforce
  from assms(1) m obtain new where new: "es_log s1 = es_log s @ new" "\<forall>x. r = Inr x \<longrightarrow> \<not> list_ex of_failure new"
    unfolding quiet_success_def by (metis fst_conv snd_conv)
  show "\<exists>new. es_log (snd (obind m k s)) = es_log s @ new \<and>
      (\<forall>x. fst (obind m k s) = Inr x \<longrightarrow> \<not> list_ex of_failure new)"
  proof (cases r)
    case (Inl e)
    then show ?thesis using m new by (simp add: obind_def)
  next
    case (Inr x)
    obtain r2 s2 where k: "k x s1 = (r2, s2)" by fastforce
    with assms(2) [of x] obtain new2 where "es_log s2 = es_log s1 @ new2" "\<forall>x. r2 = Inr x \<longrightarrow> \<not> list_ex of_failure new2"
      unfolding quiet_success_def by (metis fst_conv snd_conv)
    then show ?thesis using m k new Inr by (auto simp: obind_def intro!: exI [of _ "new @ new2"])
  qed
qed

lemma quiet_raise [quiet_intros]: "quiet_success (obind (es_logs e) (\<lambda>_. othrow exn))"
  by (auto simp: quiet_success_def es_logs_def meth_defs)

lemma quiet_if [quiet_intros]: "quiet_success m \<Longrightarrow> quiet_success m' \<Longrightarrow> quiet_success (if b then m else m')"
  by simp

lemma quiet_option [quiet_intros]:
  "quiet_success m \<Longrightarrow> (\<And>a. quiet_success (k a)) \<Longrightarrow> quiet_success (case p of None \<Rightarrow> m | Some a \<Rightarrow> k a)"
  by (simp split: option.split)

lemma quiet_checks [quiet_intros]:
  "quiet_success (es_fail hr msg)" "quiet_success (es_debug msg)"
  "quiet_success (es_check hr p msg1 msg2)"
  unfolding es_fail_def es_debug_def es_check_def by (rule quiet_intros | simp)+

lemma quiet_runtime [quiet_intros]: "quiet_success (init_clr_runtime env)"
  unfolding init_clr_runtime_def init_clr4_runtime_def init_clr2_runtime_def init_runtime_version_def Let_def split_beta
  by (intro quiet_intros)

lemma quiet_lock [quiet_intros]: "quiet_success (asp_module_lock env)" "quiet_success (asp_module_lock98 env)"
  unfolding asp_module_lock_def asp_module_lock98_def by (rule quiet_intros | simp)+

lemma quiet_engine: "quiet_success (init_asp_engine env)"
  unfolding init_asp_engine_def stage_defs Let_def split_beta
  by (rule quiet_intros | simp)+

text \<open>What a step of the start that returns a status logs.\<close>

definition tells :: "int \<Rightarrow> log_entry list \<Rightarrow> bool" where
  "tells st log \<longleftrightarrow>
     (if st = OK then \<not> list_ex of_failure log else log \<noteq> [] \<and> of_failure (last log))"

lemma tells_append: "tells OK log \<Longrightarrow> tells st log' \<Longrightarrow> tells st (log @ log')"
  by (auto simp: tells_def)

lemma create_hosts_tells:
  "create_hosts create bstr server as g f = (st, g', f', log) \<Longrightarrow> tells st log"
proof (induction "as" arbitrary: g f st g' f' log)
  case Nil
  then show ?case by (simp add: tells_def)
next
  case (Cons a "as")
  show ?case
  proof (cases "g_host_store g a")
    case None
    then show ?thesis using Cons by simp
  next
    case (Some h)
    show ?thesis
    proof (cases "h_host_key h = -1")
      case False
      then show ?thesis using Cons Some by simp
    next
      case True
      obtain r f1 where c: "create (bstr (h_virtual_path h)) (bstr (h_physical_path h)) server f = (r, f1)" by fastforce
      show ?thesis
      proof (cases r)
        case (Inl hr)
        then show ?thesis using Cons.prems Some True c by (auto simp: tells_def OK_def)
      next
        case (Inr k)
        obtain st2 g2 f2 log2 where rec: "create_hosts create bstr server as (set_host_key a k g) f1 = (st2, g2, f2, log2)"
          by (metis prod_cases4)
        show ?thesis
        proof (cases "k = -1")
          case True
          then show ?thesis using Cons.prems Some \<open>h_host_key h = -1\<close> c Inr by (auto simp: tells_def OK_def Let_def)
        next
          case False
          then have "st = st2" "log = LOG (APLOG_DEBUG OR APLOG_NOERRNO) 0 ''mod_aspdotnet: Sucessfully created Host for %s mapped to %s'' # log2"
            using Cons.prems Some \<open>h_host_key h = -1\<close> c Inr rec by (simp_all add: Let_def)
          with Cons.IH [OF rec] show ?thesis by (auto simp: tells_def)
        qed
      qed
    qed
  qed
qed

lemma start_engine_tells:
  assumes "start_engine env ci ciex s = (Some st, s')"
  shows "\<exists>new. es_log s' = es_log s @ new \<and> tells st new"
proof (cases "g_pCorRuntime (es_conf s) = None \<or> g_pHostFactory (es_conf s) = None")
  case False
  then show ?thesis using assms by (auto simp: start_engine_def tells_def)
next
  case True
  obtain r s1 where e: "init_asp_engine env s = (r, s1)" by fastforce
  from quiet_engine [of env] e obtain new where new: "es_log s1 = es_log s @ new"
      "\<forall>x. r = Inr x \<longrightarrow> \<not> list_ex of_failure new"
    unfolding quiet_success_def by (metis fst_conv snd_conv)
  show ?thesis
    using assms True e new
    by (auto simp: start_engine_def Let_def es_logs_def omap_def tells_def OK_def split: if_splits sum.splits engine_exn.splits option.splits)
qed

section \<open>Properties\<close>

text \<open>C23: no silent failure of the start, and no false alarm: when \<open>asp_net_post_config\<close> returns a status other
  than \<open>OK\<close>, the last message it has logged is one of a failure, which the tests let through for
  every server, whatever its \<open>LogLevel\<close>; when it returns \<open>OK\<close>, none of its
  messages is; what was logged before is kept.\<close>

theorem failed_start_is_logged:
  assumes "asp_net_post_config env ci ciex create u8w acp server iter s f = (Some st, s', f')"
  shows "\<exists>new. es_log s' = es_log s @ new \<and>
    (st = OK \<longleftrightarrow> \<not> list_ex of_failure new) \<and>
    (st \<noteq> OK \<longrightarrow> new \<noteq> [] \<and> (\<forall>m srv. APLOG_IS_LEVEL m srv (log_level (last new)) = Some True))"
proof -
  define t where "t = snd (es_emit (VersionComponent (version_component 2 4)) s)"
  have t: "es_log t = es_log s" by (simp add: t_def es_emit_def omap_def)
  obtain st1 s1 where s1: "start_engine env ci ciex t = (st1, s1)" by fastforce
  then obtain k where k: "st1 = Some k"
    using assms by (cases st1) (auto simp: asp_net_post_config_def Let_def t_def)
  from start_engine_tells [OF s1 [unfolded k]] obtain new where new: "es_log s1 = es_log s @ new" "tells k new"
    using t by auto
  have "\<exists>new. es_log s' = es_log s @ new \<and> tells st new"
  proof (cases "k = OK")
    case False
    then show ?thesis using assms s1 k new by (auto simp: asp_net_post_config_def Let_def t_def)
  next
    case True
    obtain st2 g f2 log where c:
      "create_hosts create (to_bstr u8w acp) server (iter (es_conf s1)) (es_conf s1) f = (st2, g, f2, log)"
      by (metis prod_cases4)
    with assms s1 k True have "st = st2" "es_log s' = es_log s1 @ log"
      by (auto simp: asp_net_post_config_def Let_def t_def)
    with create_hosts_tells [OF c] new True show ?thesis using tells_append by auto
  qed
  then obtain new where n: "es_log s' = es_log s @ new" "tells st new" by blast
  have "st = OK \<longleftrightarrow> \<not> list_ex of_failure new" using n(2) by (auto simp: tells_def list_ex_iff split: if_splits)
  moreover have "new \<noteq> [] \<and> (\<forall>m srv. APLOG_IS_LEVEL m srv (log_level (last new)) = Some True)" if "st \<noteq> OK"
    using n(2) that always_logged_passes(1) [OF failures_always_logged] by (simp add: tells_def)
  ultimately show ?thesis using n(1) by blast
qed

text \<open>A start whose \<open>CoInitialize\<close> fails.\<close>

theorem failed_start_is_logged_witness:
  "\<exists>s' f'. asp_net_post_config good_env E_FAIL E_FAIL (com_create sample_env (\<lambda>_. E_FAIL)) (\<lambda>_. None) wL None (\<lambda>_. [0])
      fresh_state empty_factory = (Some 1, s', f') \<and> list_ex of_failure (es_log s')"
proof -
  have "case asp_net_post_config good_env E_FAIL E_FAIL (com_create sample_env (\<lambda>_. E_FAIL)) (\<lambda>_. None) wL None (\<lambda>_. [0])
      fresh_state empty_factory of (r, s', f') \<Rightarrow> r = Some 1" by code_simp
  then obtain s' f' where r: "asp_net_post_config good_env E_FAIL E_FAIL (com_create sample_env (\<lambda>_. E_FAIL)) (\<lambda>_. None) wL None
      (\<lambda>_. [0]) fresh_state empty_factory = (Some 1, s', f')" by (auto split: prod.splits)
  from failed_start_is_logged [OF r] show ?thesis using r by (auto simp: OK_def)
qed

end
